(* ===== verification/Prelude.thy ===== *)
theory Prelude
  imports Main "HOL-Library.Code_Target_Nat"
begin

text \<open>
  The prelude of the git-proxy development: Go strings and the operations of
  Go's \<open>strings\<close>, \<open>bytes\<close> and \<open>strconv\<close> packages the program calls, the
  collections of rewrite rules the component theories share, and the generic
  lemmas about lists, options and results.

  A Go string (and a \<open>[]byte\<close>) is a sequence of bytes; it is a HOL \<open>string\<close>, whose
  characters are bytes. A Go error is its message (\<open>err.Error()\<close>), since the
  program matches on messages (\<open>gitx.IsCorruptionError\<close>); a call that may fail
  returns a sum whose left side is the message.
\<close>

named_theorems go_str "definitions of the Go string operations, for evaluation"
named_theorems go_state "unfolding rules of the state-passing operations"

type_synonym go_error = string

abbreviation NL :: char where "NL \<equiv> CHR 0x0A"
abbreviation NUL :: char where "NUL \<equiv> CHR 0x00"
abbreviation SP :: char where "SP \<equiv> CHR 0x20"
abbreviation TAB :: char where "TAB \<equiv> CHR 0x09"

section \<open>Prefixes, suffixes and searching\<close>

definition has_prefix :: "string \<Rightarrow> string \<Rightarrow> bool" where
  [go_str]: "has_prefix s p \<longleftrightarrow> take (length p) s = p"

definition trim_prefix :: "string \<Rightarrow> string \<Rightarrow> string" where
  [go_str]: "trim_prefix s p = (if has_prefix s p then drop (length p) s else s)"

definition has_suffix :: "string \<Rightarrow> string \<Rightarrow> bool" where
  [go_str]: "has_suffix s p \<longleftrightarrow> length p \<le> length s \<and> drop (length s - length p) s = p"

definition trim_suffix :: "string \<Rightarrow> string \<Rightarrow> string" where
  [go_str]: "trim_suffix s p = (if has_suffix s p then take (length s - length p) s else s)"

fun index_byte :: "string \<Rightarrow> char \<Rightarrow> nat option" where
  "index_byte [] c = None"
| "index_byte (x # xs) c = (if x = c then Some 0 else map_option Suc (index_byte xs c))"

lemma index_byte_less: "index_byte s c = Some i \<Longrightarrow> i < length s"
  by (induction s arbitrary: i) (auto split: if_splits)

lemma index_byte_None: "index_byte s c = None \<longleftrightarrow> c \<notin> set s"
  by (induction s) auto

lemma index_byte_nth: "index_byte s c = Some i \<Longrightarrow> s ! i = c \<and> c \<notin> set (take i s)"
  by (induction s arbitrary: i) (auto split: if_splits)

fun contains :: "string \<Rightarrow> string \<Rightarrow> bool" where
  "contains [] sub = (sub = [])"
| "contains (x # xs) sub = (has_prefix (x # xs) sub \<or> contains xs sub)"

definition trim_right :: "char \<Rightarrow> string \<Rightarrow> string" where
  [go_str]: "trim_right c s = rev (dropWhile (\<lambda>x. x = c) (rev s))"

section \<open>Splitting and joining\<close>

text \<open>\<open>strings.Split(s, c)\<close> for a one-byte separator: never an empty list.\<close>

fun split_on :: "char \<Rightarrow> string \<Rightarrow> string list" where
  "split_on c [] = [[]]"
| "split_on c (x # xs) =
     (if x = c then [] # split_on c xs
      else (case split_on c xs of [] \<Rightarrow> [[x]] | y # ys \<Rightarrow> (x # y) # ys))"

text \<open>\<open>strings.SplitN(s, " ", n)\<close> for \<open>n > 0\<close>.\<close>

fun split_n :: "char \<Rightarrow> nat \<Rightarrow> string \<Rightarrow> string list" where
  "split_n c 0 s = []"
| "split_n c (Suc 0) s = [s]"
| "split_n c (Suc (Suc n)) s =
     (case index_byte s c of
        None \<Rightarrow> [s]
      | Some i \<Rightarrow> take i s # split_n c (Suc n) (drop (Suc i) s))"

fun join :: "string \<Rightarrow> string list \<Rightarrow> string" where
  "join sep [] = []"
| "join sep [x] = x"
| "join sep (x # y # ys) = x @ sep @ join sep (y # ys)"

text \<open>\<open>strings.ReplaceAll(s, old, new)\<close> for a non-empty \<open>old\<close>.\<close>

function replace_all :: "string \<Rightarrow> string \<Rightarrow> string \<Rightarrow> string" where
  "replace_all s old new =
     (case s of
        [] \<Rightarrow> []
      | x # xs \<Rightarrow>
          if old \<noteq> [] \<and> has_prefix s old
          then new @ replace_all (drop (length old) s) old new
          else x # replace_all xs old new)"
  by pat_completeness auto
termination
  by (relation "measure (\<lambda>(s, old, new). length s)") auto

declare replace_all.simps [simp del]

section \<open>White space\<close>

text \<open>
  \<open>strings.TrimSpace\<close> and \<open>strings.Fields\<close> use \<open>unicode.IsSpace\<close>. The UTF-8
  encodings of its runes: the six ASCII ones, U+0085, U+00A0, U+1680, U+2000 to
  U+200A, U+2028, U+2029, U+202F, U+205F and U+3000. No such encoding occurs inside
  the encoding of another rune, so scanning byte by byte finds them as decoding does.
\<close>

definition space_runes :: "string list" where
  [go_str]: "space_runes =
     [[CHR 0x09], [CHR 0x0A], [CHR 0x0B], [CHR 0x0C], [CHR 0x0D], [CHR 0x20],
      [CHR 0xC2, CHR 0x85], [CHR 0xC2, CHR 0xA0], [CHR 0xE1, CHR 0x9A, CHR 0x80],
      [CHR 0xE2, CHR 0x80, CHR 0x80], [CHR 0xE2, CHR 0x80, CHR 0x81],
      [CHR 0xE2, CHR 0x80, CHR 0x82], [CHR 0xE2, CHR 0x80, CHR 0x83],
      [CHR 0xE2, CHR 0x80, CHR 0x84], [CHR 0xE2, CHR 0x80, CHR 0x85],
      [CHR 0xE2, CHR 0x80, CHR 0x86], [CHR 0xE2, CHR 0x80, CHR 0x87],
      [CHR 0xE2, CHR 0x80, CHR 0x88], [CHR 0xE2, CHR 0x80, CHR 0x89],
      [CHR 0xE2, CHR 0x80, CHR 0x8A], [CHR 0xE2, CHR 0x80, CHR 0xA8],
      [CHR 0xE2, CHR 0x80, CHR 0xA9], [CHR 0xE2, CHR 0x80, CHR 0xAF],
      [CHR 0xE2, CHR 0x81, CHR 0x9F], [CHR 0xE3, CHR 0x80, CHR 0x80]]"

text \<open>The length of the space rune a string starts with (ends with), 0 if none.\<close>

definition space_len :: "string \<Rightarrow> nat" where
  [go_str]: "space_len s =
     (case find (\<lambda>r. has_prefix s r) space_runes of None \<Rightarrow> 0 | Some r \<Rightarrow> length r)"

definition space_len_right :: "string \<Rightarrow> nat" where
  [go_str]: "space_len_right s =
     (case find (\<lambda>r. has_suffix s r) space_runes of None \<Rightarrow> 0 | Some r \<Rightarrow> length r)"

function trim_left_space :: "string \<Rightarrow> string" where
  "trim_left_space s =
     (if space_len s = 0 \<or> s = [] then s else trim_left_space (drop (space_len s) s))"
  by pat_completeness auto
termination
  by (relation "measure length") auto

function trim_right_space :: "string \<Rightarrow> string" where
  "trim_right_space s =
     (if space_len_right s = 0 \<or> s = [] then s
      else trim_right_space (take (length s - space_len_right s) s))"
  by pat_completeness auto
termination
  by (relation "measure length") auto

declare trim_left_space.simps [simp del] trim_right_space.simps [simp del]

definition trim_space :: "string \<Rightarrow> string" where
  [go_str]: "trim_space s = trim_right_space (trim_left_space s)"

text \<open>\<open>strings.Fields\<close>: \<open>acc\<close> is the field read so far, reversed.\<close>

function fields_from :: "string \<Rightarrow> string \<Rightarrow> string list" where
  "fields_from acc s =
     (case s of
        [] \<Rightarrow> (if acc = [] then [] else [rev acc])
      | x # xs \<Rightarrow>
          (if space_len s = 0 then fields_from (x # acc) xs
           else (if acc = [] then [] else [rev acc]) @ fields_from [] (drop (space_len s) s)))"
  by pat_completeness auto
termination
  by (relation "measure (\<lambda>(acc, s). length s)") auto

declare fields_from.simps [simp del]

definition go_fields :: "string \<Rightarrow> string list" where
  [go_str]: "go_fields s = fields_from [] s"

section \<open>Numbers\<close>

definition digit_val :: "char \<Rightarrow> nat option" where
  [go_str]: "digit_val c =
     (if of_char c \<ge> (48::nat) \<and> of_char c \<le> (57::nat) then Some (of_char c - 48) else None)"

text \<open>\<open>%d\<close> of a natural number.\<close>

fun show_nat :: "nat \<Rightarrow> string" where
  "show_nat n = (if n < 10 then [char_of (48 + n)] else show_nat (n div 10) @ [char_of (48 + n mod 10)])"

declare show_nat.simps [simp del]

fun digits_val :: "nat \<Rightarrow> string \<Rightarrow> nat option" where
  "digits_val acc [] = Some acc"
| "digits_val acc (c # cs) =
     (case digit_val c of None \<Rightarrow> None | Some d \<Rightarrow> digits_val (10 * acc + d) cs)"

text \<open>
  \<open>strconv.Atoi\<close> on a 64-bit platform: an optional sign, at least one decimal digit
  and nothing else, and a value that fits an \<open>int64\<close>.
\<close>

definition atoi :: "string \<Rightarrow> int option" where
  [go_str]: "atoi s =
     (let (neg, ds) = (case s of [] \<Rightarrow> (False, [])
                       | c # cs \<Rightarrow> if c = CHR ''-'' then (True, cs)
                                  else if c = CHR ''+'' then (False, cs) else (False, s))
      in if ds = [] then None
         else (case digits_val 0 ds of
                 None \<Rightarrow> None
               | Some n \<Rightarrow>
                   (let v = (if neg then - int n else int n) in
                    if - (2 ^ 63) \<le> v \<and> v < 2 ^ 63 then Some v else None)))"

section \<open>Quoting\<close>

text \<open>
  \<open>%q\<close> of \<open>fmt\<close>: exact on ASCII text; bytes from 0x80 on are kept as they are, which is
  what Go does for printable UTF-8.
\<close>

definition hex_digit_of :: "nat \<Rightarrow> char" where
  "hex_digit_of d = char_of (if d < 10 then 48 + d else 87 + d)"

definition quote_byte :: "char \<Rightarrow> string" where
  [go_str]: "quote_byte c =
     (let n = (of_char c :: nat) in
      if c = CHR 0x22 \<or> c = CHR 0x5C then [CHR 0x5C, c]
      else if n = 7 then [CHR 0x5C, CHR ''a'']
      else if n = 8 then [CHR 0x5C, CHR ''b'']
      else if n = 9 then [CHR 0x5C, CHR ''t'']
      else if n = 10 then [CHR 0x5C, CHR ''n'']
      else if n = 11 then [CHR 0x5C, CHR ''v'']
      else if n = 12 then [CHR 0x5C, CHR ''f'']
      else if n = 13 then [CHR 0x5C, CHR ''r'']
      else if n < 32 \<or> n = 127
        then [CHR 0x5C, CHR ''x'', hex_digit_of (n div 16), hex_digit_of (n mod 16)]
      else [c])"

definition go_quote :: "string \<Rightarrow> string" where
  [go_str]: "go_quote s = [CHR 0x22] @ concat (map quote_byte s) @ [CHR 0x22]"

section \<open>Deduplication\<close>

text \<open>
  The loop that keeps the first occurrence of each element, with a set of what it has
  seen; the program uses it for object ids, root trees and changed files.
\<close>

fun dedup_from :: "'a set \<Rightarrow> 'a list \<Rightarrow> 'a list" where
  "dedup_from seen [] = []"
| "dedup_from seen (x # xs) =
     (if x \<in> seen then dedup_from seen xs else x # dedup_from (insert x seen) xs)"

section \<open>Lemmas on strings\<close>

lemma split_on_not_Nil [simp]: "split_on c s \<noteq> []"
  by (induction s) (auto split: list.splits)

lemma split_on_none: "c \<notin> set s \<Longrightarrow> split_on c s = [s]"
  by (induction s) auto

lemma split_on_append: "c \<notin> set s \<Longrightarrow> split_on c (s @ c # t) = s # split_on c t"
  by (induction s) auto

lemma split_on_parts: "x \<in> set (split_on c s) \<Longrightarrow> c \<notin> set x"
  by (induction s arbitrary: x) (auto split: if_splits list.splits)

lemma join_split_on: "join [c] (split_on c s) = s"
proof (induction s)
  case (Cons x s)
  then show ?case
    by (cases "split_on c s"; cases "tl (split_on c s)") (auto split: list.splits)
qed simp

lemma split_on_join:
  "xs \<noteq> [] \<Longrightarrow> \<forall>x \<in> set xs. c \<notin> set x \<Longrightarrow> split_on c (join [c] xs) = xs"
  by (induction "[c]" xs rule: join.induct) (auto simp: split_on_none split_on_append)

lemma contains_single: "contains s [c] \<longleftrightarrow> c \<in> set s"
  by (induction s) (auto simp: has_prefix_def)

lemma has_prefix_append [simp]: "has_prefix (p @ s) p"
  by (simp add: has_prefix_def)

lemma has_prefix_iff: "has_prefix s p \<longleftrightarrow> (\<exists>t. s = p @ t)"
  by (metis append_eq_conv_conj append_take_drop_id has_prefix_def)

lemma has_suffix_iff: "has_suffix s p \<longleftrightarrow> (\<exists>t. s = t @ p)"
  by (auto simp: has_suffix_def) (metis append_take_drop_id)

lemma trim_prefix_append [simp]: "trim_prefix (p @ s) p = s"
  by (simp add: trim_prefix_def)

lemma contains_iff: "contains s sub \<longleftrightarrow> (\<exists>a b. s = a @ sub @ b)"
proof (induction s)
  case Nil
  show ?case by simp
next
  case (Cons x s)
  show ?case
  proof
    assume "contains (x # s) sub"
    then consider "has_prefix (x # s) sub" | "contains s sub" by auto
    then show "\<exists>a b. x # s = a @ sub @ b"
    proof cases
      case 1
      then show ?thesis by (auto simp: has_prefix_iff intro: exI [of _ "[]"])
    next
      case 2
      then obtain a b where "s = a @ sub @ b" using Cons by blast
      then have "x # s = (x # a) @ sub @ b" by simp
      then show ?thesis by blast
    qed
  next
    assume "\<exists>a b. x # s = a @ sub @ b"
    then obtain a b where "x # s = a @ sub @ b" by blast
    then have "has_prefix (x # s) sub \<or> (\<exists>a b. s = a @ sub @ b)"
      by (cases a) (auto simp: has_prefix_iff)
    then show "contains (x # s) sub" using Cons by auto
  qed
qed

text \<open>White space: trimming only removes bytes of space runes.\<close>

definition space_bytes :: "char set" where
  "space_bytes = \<Union> (set ` set space_runes)"

lemma space_len_bytes: "set (take (space_len s) s) \<subseteq> space_bytes"
  by (auto simp: space_len_def space_bytes_def has_prefix_def find_Some_iff
           split: option.splits dest: nth_mem)

lemma space_len_right_bytes: "set (drop (length s - space_len_right s) s) \<subseteq> space_bytes"
  by (auto simp: space_len_right_def space_bytes_def has_suffix_def find_Some_iff
           split: option.splits dest: nth_mem)

lemma trim_left_space_keeps:
  "c \<in> set s \<Longrightarrow> c \<notin> space_bytes \<Longrightarrow> c \<in> set (trim_left_space s)"
proof (induction s rule: trim_left_space.induct)
  case (1 s)
  then have "c \<in> set (drop (space_len s) s)"
    using space_len_bytes [of s] by (metis Un_iff append_take_drop_id set_append subsetD)
  then show ?case using 1 by (subst trim_left_space.simps) auto
qed

lemma trim_right_space_keeps:
  "c \<in> set s \<Longrightarrow> c \<notin> space_bytes \<Longrightarrow> c \<in> set (trim_right_space s)"
proof (induction s rule: trim_right_space.induct)
  case (1 s)
  then have "c \<in> set (take (length s - space_len_right s) s)"
    using space_len_right_bytes [of s] by (metis Un_iff append_take_drop_id set_append subsetD)
  then show ?case using 1 by (subst trim_right_space.simps) auto
qed

lemma trim_space_keeps: "c \<in> set s \<Longrightarrow> c \<notin> space_bytes \<Longrightarrow> c \<in> set (trim_space s)"
  by (simp add: trim_space_def trim_left_space_keeps trim_right_space_keeps)

text \<open>The trimmed string is an infix of the original.\<close>

lemma trim_left_space_suffix: "\<exists>a. s = a @ trim_left_space s"
proof (induction s rule: trim_left_space.induct)
  case (1 s)
  show ?case
  proof (cases "space_len s = 0 \<or> s = []")
    case True
    then show ?thesis by (subst trim_left_space.simps) simp
  next
    case False
    then obtain a where "drop (space_len s) s = a @ trim_left_space (drop (space_len s) s)"
      using 1 by blast
    then have "s = (take (space_len s) s @ a) @ trim_left_space (drop (space_len s) s)"
      by (metis append.assoc append_take_drop_id)
    then show ?thesis using False trim_left_space.simps [of s] by metis
  qed
qed

lemma trim_right_space_prefix: "\<exists>b. s = trim_right_space s @ b"
proof (induction s rule: trim_right_space.induct)
  case (1 s)
  let ?k = "length s - space_len_right s"
  show ?case
  proof (cases "space_len_right s = 0 \<or> s = []")
    case True
    then show ?thesis by (subst trim_right_space.simps) simp
  next
    case False
    then obtain b where "take ?k s = trim_right_space (take ?k s) @ b"
      using 1 by blast
    then have "s = trim_right_space (take ?k s) @ (b @ drop ?k s)"
      by (metis append.assoc append_take_drop_id)
    then show ?thesis using False trim_right_space.simps [of s] by metis
  qed
qed

lemma trim_space_infix: "\<exists>a b. s = a @ trim_space s @ b"
  unfolding trim_space_def
  by (metis trim_left_space_suffix trim_right_space_prefix append.assoc)

text \<open>Visible ASCII bytes are not white space; evaluation asks that first.\<close>

definition text_char :: "char \<Rightarrow> bool" where
  "text_char c \<longleftrightarrow> 33 \<le> (of_char c :: nat) \<and> (of_char c :: nat) \<le> 126"

lemma space_runes_all_last:
  "list_all (\<lambda>r. r \<noteq> [] \<and> \<not> text_char (hd r) \<and> \<not> text_char (last r)) space_runes"
  by (simp add: space_runes_def text_char_def)

lemma space_runes_first: "r \<in> set space_runes \<Longrightarrow> \<exists>x xs. r = x # xs \<and> \<not> text_char x"
  using space_runes_all_last by (auto simp: list_all_iff) (metis list.collapse)

lemma space_runes_last: "r \<in> set space_runes \<Longrightarrow>
   \<exists>x xs. r = xs @ [x] \<and> \<not> text_char x"
  using space_runes_all_last by (auto simp: list_all_iff) (metis append_butlast_last_id)

lemma space_len_word: "text_char c \<Longrightarrow> space_len (c # s) = 0"
proof -
  assume c: "text_char c"
  have "find (\<lambda>r. has_prefix (c # s) r) space_runes = None"
    using c by (auto simp: find_None_iff has_prefix_def dest!: space_runes_first)
  then show ?thesis by (simp add: space_len_def)
qed

lemma space_len_right_word:
  "text_char c \<Longrightarrow> space_len_right (s @ [c]) = 0"
proof -
  assume c: "text_char c"
  have "find (\<lambda>r. has_suffix (s @ [c]) r) space_runes = None"
    using c by (auto simp: find_None_iff has_suffix_iff dest!: space_runes_last)
  then show ?thesis by (simp add: space_len_right_def)
qed

lemma space_len_code [code]:
  "space_len s =
     (case s of
        [] \<Rightarrow> 0
      | c # t \<Rightarrow>
          if text_char c then 0
          else (case find (\<lambda>r. has_prefix s r) space_runes of None \<Rightarrow> 0 | Some r \<Rightarrow> length r))"
proof (cases s)
  case Nil
  have "space_len [] = 0" by (simp add: space_len_def space_runes_def has_prefix_def)
  then show ?thesis using Nil by simp
next
  case (Cons c t)
  show ?thesis
    by (cases "text_char c") (simp_all add: Cons space_len_word, simp add: space_len_def)
qed

lemma space_len_right_code [code]:
  "space_len_right s =
     (if s \<noteq> [] \<and> text_char (last s) then 0
      else (case find (\<lambda>r. has_suffix s r) space_runes of None \<Rightarrow> 0 | Some r \<Rightarrow> length r))"
proof (cases "s \<noteq> [] \<and> text_char (last s)")
  case True
  then have "space_len_right (butlast s @ [last s]) = 0" using space_len_right_word by blast
  then show ?thesis using True by simp
next
  case False
  show ?thesis unfolding space_len_right_def if_not_P [OF False] ..
qed

section \<open>Lemmas on deduplication\<close>

lemma set_dedup_from: "set (dedup_from seen xs) = set xs - seen"
  by (induction xs arbitrary: seen) auto

lemma distinct_dedup_from: "distinct (dedup_from seen xs)"
  by (induction xs arbitrary: seen) (auto simp: set_dedup_from)

end
