(* ===== verification/Port.thy ===== *)
theory Port
  imports Prelude
begin

text \<open>
  The contracts of \<open>internal/port\<close> and the identity of \<open>internal/auth\<close>: push and fetch
  requests, decisions, audit events, alerts and upstream credentials, and the constructors
  of \<open>internal/policy/decision.go\<close>. Times (\<open>AuditEvent.Time\<close>, \<open>Alert.Time\<close>) are not
  modelled: nothing reads them.
\<close>

section \<open>Decisions\<close>

datatype verdict = VerdictAllow | VerdictDeny

text \<open>Allow is below deny: combining verdicts takes the maximum.\<close>

instantiation verdict :: linorder
begin

definition less_eq_verdict :: "verdict \<Rightarrow> verdict \<Rightarrow> bool" where
  "less_eq_verdict a b \<longleftrightarrow> a = VerdictAllow \<or> b = VerdictDeny"

definition less_verdict :: "verdict \<Rightarrow> verdict \<Rightarrow> bool" where
  "less_verdict a b \<longleftrightarrow> a = VerdictAllow \<and> b = VerdictDeny"

instance
proof
  fix x y z :: verdict
  show "(x < y) = (x \<le> y \<and> \<not> y \<le> x)"
    by (cases x; cases y) (simp_all add: less_eq_verdict_def less_verdict_def)
  show "x \<le> x" by (cases x) (simp_all add: less_eq_verdict_def)
  show "x \<le> z" if "x \<le> y" "y \<le> z"
    using that by (cases x; cases y; cases z) (simp_all add: less_eq_verdict_def)
  show "x = y" if "x \<le> y" "y \<le> x"
    using that by (cases x; cases y) (simp_all add: less_eq_verdict_def)
  show "x \<le> y \<or> y \<le> x" by (cases x; cases y) (simp_all add: less_eq_verdict_def)
qed

end

lemma verdict_not_deny [simp]: "v \<noteq> VerdictDeny \<longleftrightarrow> v = VerdictAllow"
  by (cases v) auto

lemma verdict_max: "max a b = VerdictDeny \<longleftrightarrow> a = VerdictDeny \<or> b = VerdictDeny"
  by (cases a; cases b) (simp_all add: max_def less_eq_verdict_def)

record reason =
  r_rule :: string
  r_message :: string

record decision =
  d_verdict :: verdict
  d_reasons :: "reason list"

definition policy_allow :: decision where
  "policy_allow = \<lparr>d_verdict = VerdictAllow, d_reasons = []\<rparr>"

definition policy_deny :: "string \<Rightarrow> string \<Rightarrow> decision" where
  "policy_deny rule msg =
     \<lparr>d_verdict = VerdictDeny, d_reasons = [\<lparr>r_rule = rule, r_message = msg\<rparr>]\<rparr>"

definition deny_from_error :: "string \<Rightarrow> go_error option \<Rightarrow> decision" where
  "deny_from_error rule e =
     policy_deny rule (case e of None \<Rightarrow> ''evaluation error'' | Some m \<Rightarrow> m)"

lemma policy_deny_sel [simp]:
  "d_verdict (policy_deny r m) = VerdictDeny"
  "d_reasons (policy_deny r m) = [\<lparr>r_rule = r, r_message = m\<rparr>]"
  by (simp_all add: policy_deny_def)

lemma policy_allow_sel [simp]:
  "d_verdict policy_allow = VerdictAllow" "d_reasons policy_allow = []"
  by (simp_all add: policy_allow_def)

section \<open>Requests\<close>

record ref_update =
  u_ref :: string
  u_old :: string
  u_new :: string
  u_force :: bool

definition is_delete :: "ref_update \<Rightarrow> bool" where
  "is_delete u \<longleftrightarrow> u_new u = []"

definition is_create :: "ref_update \<Rightarrow> bool" where
  "is_create u \<longleftrightarrow> u_old u = [] \<and> u_new u \<noteq> []"

record commit =
  c_sha :: string
  c_message :: string

record changed_file =
  f_path :: string
  f_status :: string
  f_oid :: string
  f_content :: string

record push_request =
  q_agent :: string
  q_repo :: string
  q_updates :: "ref_update list"
  q_commits :: "commit list"
  q_files :: "changed_file list"

record fetch_request =
  fq_agent :: string
  fq_repo :: string
  fq_paths :: "string list"

text \<open>\<open>port.Rule\<close>: a rule is its name and its two evaluations, which may report an error.\<close>

record rule =
  rl_name :: string
  rl_push :: "push_request \<Rightarrow> go_error + decision"
  rl_fetch :: "fetch_request \<Rightarrow> go_error + decision"

section \<open>Secret findings\<close>

record finding =
  fd_path :: string
  fd_line :: nat
  fd_rule :: string
  fd_snippet :: string
  fd_suppressed :: bool

section \<open>Audit events and alerts\<close>

record audit_ref =
  ar_ref :: string
  ar_old :: string
  ar_new :: string
  ar_force :: bool

record audit_event =
  ae_transport :: string
  ae_agent :: string
  ae_repo :: string
  ae_service :: string
  ae_verdict :: string
  ae_reasons :: "string list"
  ae_refs :: "audit_ref list"
  ae_denied_paths :: "string list"
  ae_denied_oids :: "string list"
  ae_dry_run :: bool

record alert =
  al_transport :: string
  al_agent :: string
  al_repo :: string
  al_service :: string
  al_verdict :: string
  al_dry_run :: bool
  al_reasons :: "string list"
  al_refs :: "audit_ref list"
  al_denied_paths :: "string list"
  al_denied_oids :: "string list"

section \<open>Credentials\<close>

record credentials =
  cr_username :: string
  cr_password :: string
  cr_token :: string

definition git_pat_auth_user :: string where
  "git_pat_auth_user = ''x-access-token''"

definition basic_user_password :: "credentials \<Rightarrow> (string \<times> string) option" where
  "basic_user_password c =
     (if cr_password c \<noteq> [] then Some (cr_username c, cr_password c)
      else if cr_token c \<noteq> [] then Some (git_pat_auth_user, cr_token c)
      else if cr_username c \<noteq> [] then Some (cr_username c, [])
      else None)"

text \<open>A usable secret always gives a non-empty password.\<close>

lemma basic_password_nonempty:
  "cr_password c \<noteq> [] \<or> cr_token c \<noteq> [] \<Longrightarrow>
   \<exists>u p. basic_user_password c = Some (u, p) \<and> p \<noteq> []"
  by (auto simp: basic_user_password_def)

end
