(* ===== verification/Engine.thy ===== *)
theory Engine
  imports Port "HOL-Library.List_Lexorder" "HOL-Library.Char_ord" "HOL-Library.Multiset"
begin

text \<open>
  The policy engine (\<open>internal/policy/engine.go\<close>): the pipeline of rules, its two
  evaluation modes, the rule registry and \<open>Resolve\<close>, which builds an engine from the
  configuration. The locale \<open>push_rule\<close> states the contract the engine's clients rely on
  for one kind of rule; the theory \<open>Rules\<close> interprets it on the rules of the repository.
\<close>

section \<open>Evaluation\<close>

datatype eval_mode = FirstDeny | CollectAll

text \<open>An empty set of agents (repos) means all of them.\<close>

record rule_entry =
  en_rule :: rule
  en_agents :: "string set"
  en_repos :: "string set"

definition applies :: "rule_entry \<Rightarrow> string \<Rightarrow> string \<Rightarrow> bool" where
  "applies e agent repo \<longleftrightarrow>
     (en_agents e = {} \<or> agent \<in> en_agents e) \<and> (en_repos e = {} \<or> repo \<in> en_repos e)"

record engine =
  e_mode :: eval_mode
  e_entries :: "rule_entry list"

definition new_engine :: "eval_mode \<Rightarrow> rule list \<Rightarrow> engine" where
  "new_engine m rules =
     \<lparr>e_mode = m, e_entries = map (\<lambda>r. \<lparr>en_rule = r, en_agents = {}, en_repos = {}\<rparr>) rules\<rparr>"

text \<open>
  The loop of \<open>EvaluatePush\<close> and \<open>EvaluateFetch\<close>, over the rule's push or fetch
  evaluation \<open>ev\<close>: the deny reasons so far, the allow reasons so far, and whether a rule
  denied.
\<close>

fun eval_loop ::
  "eval_mode \<Rightarrow> (rule \<Rightarrow> go_error + decision) \<Rightarrow> string \<Rightarrow> string \<Rightarrow> rule_entry list \<Rightarrow>
   reason list \<Rightarrow> reason list \<Rightarrow> bool \<Rightarrow> decision" where
  "eval_loop m ev agent repo [] reasons allow denied =
     (if denied then \<lparr>d_verdict = VerdictDeny, d_reasons = reasons\<rparr>
      else \<lparr>d_verdict = VerdictAllow, d_reasons = allow\<rparr>)"
| "eval_loop m ev agent repo (e # es) reasons allow denied =
     (if \<not> applies e agent repo then eval_loop m ev agent repo es reasons allow denied
      else
        (case ev (en_rule e) of
           Inl err \<Rightarrow>
             (let reasons' = reasons @ [\<lparr>r_rule = rl_name (en_rule e), r_message = err\<rparr>] in
              if m = FirstDeny then \<lparr>d_verdict = VerdictDeny, d_reasons = reasons'\<rparr>
              else eval_loop m ev agent repo es reasons' allow True)
         | Inr dec \<Rightarrow>
             if d_verdict dec = VerdictDeny then
               (let reasons' = reasons @ d_reasons dec in
                if m = FirstDeny then \<lparr>d_verdict = VerdictDeny, d_reasons = reasons'\<rparr>
                else eval_loop m ev agent repo es reasons' allow True)
             else eval_loop m ev agent repo es reasons (allow @ d_reasons dec) denied))"

definition evaluate_push :: "engine \<Rightarrow> push_request \<Rightarrow> decision" where
  "evaluate_push e req =
     eval_loop (e_mode e) (\<lambda>r. rl_push r req) (q_agent req) (q_repo req) (e_entries e) [] [] False"

definition evaluate_fetch :: "engine \<Rightarrow> fetch_request \<Rightarrow> decision" where
  "evaluate_fetch e req =
     eval_loop (e_mode e) (\<lambda>r. rl_fetch r req) (fq_agent req) (fq_repo req) (e_entries e) [] [] False"

section \<open>The abstract engine\<close>

text \<open>
  What the engine promises: the verdicts of the rules that apply, an error counting as a
  deny with the error as its reason, combined by maximum; the reasons are those of the
  denying rules, or of all rules when none denies.
\<close>

definition outcome :: "(rule \<Rightarrow> go_error + decision) \<Rightarrow> rule \<Rightarrow> decision" where
  "outcome ev r =
     (case ev r of Inl err \<Rightarrow> deny_from_error (rl_name r) (Some err) | Inr dec \<Rightarrow> dec)"

definition outcomes ::
  "(rule \<Rightarrow> go_error + decision) \<Rightarrow> string \<Rightarrow> string \<Rightarrow> rule_entry list \<Rightarrow> decision list" where
  "outcomes ev agent repo es =
     map (outcome ev \<circ> en_rule) (filter (\<lambda>e. applies e agent repo) es)"

definition denies :: "decision \<Rightarrow> bool" where
  "denies d \<longleftrightarrow> d_verdict d = VerdictDeny"

definition combined :: "decision list \<Rightarrow> decision" where
  "combined ds =
     (if list_ex denies ds
      then \<lparr>d_verdict = VerdictDeny, d_reasons = concat (map d_reasons (filter denies ds))\<rparr>
      else \<lparr>d_verdict = VerdictAllow, d_reasons = concat (map d_reasons ds)\<rparr>)"

lemma outcomes_Cons:
  "outcomes ev a r (e # es) =
     (if applies e a r then outcome ev (en_rule e) # outcomes ev a r es else outcomes ev a r es)"
  by (simp add: outcomes_def)

lemma eval_loop_CollectAll:
  "eval_loop CollectAll ev a r es reasons allow denied =
     (let ds = outcomes ev a r es in
      if denied \<or> list_ex denies ds
      then \<lparr>d_verdict = VerdictDeny,
            d_reasons = reasons @ concat (map d_reasons (filter denies ds))\<rparr>
      else \<lparr>d_verdict = VerdictAllow, d_reasons = allow @ concat (map d_reasons ds)\<rparr>)"
proof (induction es arbitrary: reasons allow denied)
  case Nil
  show ?case by (simp add: outcomes_def)
next
  case (Cons e es)
  then show ?case
    by (cases "ev (en_rule e)")
       (auto simp: outcomes_Cons outcome_def denies_def deny_from_error_def policy_deny_def Let_def)
qed

lemma eval_loop_FirstDeny:
  "eval_loop FirstDeny ev a r es reasons allow False =
     (let ds = outcomes ev a r es in
      case find denies ds of
        Some d \<Rightarrow> \<lparr>d_verdict = VerdictDeny, d_reasons = reasons @ d_reasons d\<rparr>
      | None \<Rightarrow> \<lparr>d_verdict = VerdictAllow, d_reasons = allow @ concat (map d_reasons ds)\<rparr>)"
proof (induction es arbitrary: reasons allow)
  case Nil
  show ?case by (simp add: outcomes_def)
next
  case (Cons e es)
  then show ?case
    by (cases "ev (en_rule e)")
       (auto simp: outcomes_Cons outcome_def denies_def deny_from_error_def policy_deny_def Let_def
             split: option.splits)
qed

lemma find_list_ex: "find P xs = None \<longleftrightarrow> \<not> list_ex P xs"
  by (auto simp: find_None_iff list_ex_iff)

lemma eval_loop_verdict:
  "d_verdict (eval_loop m ev a r es [] [] False) = VerdictDeny \<longleftrightarrow>
   list_ex denies (outcomes ev a r es)"
  using find_list_ex [of denies "outcomes ev a r es"]
  by (cases m) (auto simp: eval_loop_CollectAll eval_loop_FirstDeny Let_def split: option.splits)

lemma evaluate_push_verdict:
  "d_verdict (evaluate_push eng q) = VerdictDeny \<longleftrightarrow>
   (\<exists>e \<in> set (e_entries eng). applies e (q_agent q) (q_repo q) \<and>
      denies (outcome (\<lambda>r. rl_push r q) (en_rule e)))"
  by (auto simp: evaluate_push_def eval_loop_verdict outcomes_def list_ex_iff)

section \<open>The contract of a push rule\<close>

text \<open>
  A kind of push rule: how a rule is built from its configuration, when a configuration is
  broken, and which pushes violate a sound one. A broken rule must report an error, which
  the engine turns into a deny; otherwise the rule denies exactly the violations.
\<close>

locale push_rule =
  fixes mk :: "'c \<Rightarrow> rule"
    and broken :: "'c \<Rightarrow> bool"
    and violates :: "'c \<Rightarrow> push_request \<Rightarrow> bool"
  assumes broken_error: "broken c \<Longrightarrow> \<exists>e. rl_push (mk c) q = Inl e"
    and exact: "\<not> broken c \<Longrightarrow>
      \<exists>d. rl_push (mk c) q = Inr d \<and> (d_verdict d = VerdictDeny \<longleftrightarrow> violates c q)"
begin

lemma denies_iff: "denies (outcome (\<lambda>r. rl_push r q) (mk c)) \<longleftrightarrow> broken c \<or> violates c q"
  using broken_error [of c q] exact [of c q]
  by (cases "broken c") (auto simp: outcome_def denies_def deny_from_error_def)

lemma engine_denies:
  "e \<in> set (e_entries eng) \<Longrightarrow> en_rule e = mk c \<Longrightarrow> applies e (q_agent q) (q_repo q) \<Longrightarrow>
   broken c \<or> violates c q \<Longrightarrow> d_verdict (evaluate_push eng q) = VerdictDeny"
  using denies_iff by (auto simp: evaluate_push_verdict)

lemma engine_alone:
  "d_verdict (evaluate_push (new_engine m [mk c]) q) = VerdictDeny \<longleftrightarrow> broken c \<or> violates c q"
  by (simp add: evaluate_push_verdict new_engine_def applies_def denies_iff)

end

section \<open>Configuration and registry\<close>

text \<open>The YAML values a rule's \<open>params\<close> block may hold.\<close>

datatype yaml =
    YStr string
  | YStrs "string list"
  | YList "yaml list"
  | YMap "(string \<times> yaml) list"
  | YOther

type_synonym params = "string \<rightharpoonup> yaml"

record rule_config =
  rc_enabled :: bool
  rc_agents :: "string list"
  rc_repos :: "string list"
  rc_params :: params

type_synonym factory = "rule_config \<Rightarrow> rule"
type_synonym registry = "string \<rightharpoonup> factory"

text \<open>A second registration under one name panics: \<open>None\<close>.\<close>

definition register :: "registry \<Rightarrow> string \<Rightarrow> factory \<Rightarrow> registry option" where
  "register reg name f = (if reg name \<noteq> None then None else Some (reg(name \<mapsto> f)))"

definition lookup_rule :: "registry \<Rightarrow> string \<Rightarrow> factory option" where
  "lookup_rule reg name = reg name"

text \<open>
  The policy configuration. \<open>Rules\<close> is a Go map; its entries are listed in the (arbitrary)
  order in which a range statement visits them.
\<close>

record policy_config =
  pc_mode :: eval_mode
  pc_rules :: "(string \<times> rule_config) list"

text \<open>
  The insertion sort of \<open>Resolve\<close>: \<open>bubble\<close> is the inner loop, which swaps a name down
  past the greater names before it; the sorted part is kept last name first.
\<close>

fun bubble :: "string \<Rightarrow> string list \<Rightarrow> string list" where
  "bubble x [] = [x]"
| "bubble x (y # ys) = (if x < y then y # bubble x ys else x # y # ys)"

definition sort_names :: "string list \<Rightarrow> string list" where
  "sort_names ns = rev (fold bubble ns [])"

definition enabled_names :: "policy_config \<Rightarrow> string list" where
  "enabled_names cfg = map fst (filter (\<lambda>(n, rc). rc_enabled rc) (pc_rules cfg))"

definition entry_of :: "rule_config \<Rightarrow> factory \<Rightarrow> rule_entry" where
  "entry_of rc f = \<lparr>en_rule = f rc, en_agents = set (rc_agents rc), en_repos = set (rc_repos rc)\<rparr>"

fun resolve_entries ::
  "registry \<Rightarrow> (string \<rightharpoonup> rule_config) \<Rightarrow> string list \<Rightarrow> rule_entry list \<Rightarrow>
   go_error + rule_entry list" where
  "resolve_entries reg rules [] acc = Inr acc"
| "resolve_entries reg rules (n # ns) acc =
     (case lookup_rule reg n of
        None \<Rightarrow> Inl (''policy: rule '' @ go_quote n @ '' enabled in config but not registered'')
      | Some f \<Rightarrow> resolve_entries reg rules ns (acc @ [entry_of (the (rules n)) f]))"

definition resolve :: "policy_config \<Rightarrow> registry \<Rightarrow> go_error + engine" where
  "resolve cfg reg =
     (case resolve_entries reg (map_of (pc_rules cfg)) (sort_names (enabled_names cfg)) [] of
        Inl e \<Rightarrow> Inl e
      | Inr es \<Rightarrow> Inr \<lparr>e_mode = pc_mode cfg, e_entries = es\<rparr>)"

section \<open>Properties of Resolve\<close>

lemma mset_bubble: "mset (bubble x ys) = add_mset x (mset ys)"
  by (induction ys) auto

lemma set_bubble: "set (bubble x ys) = insert x (set ys)"
  using mset_bubble [of x ys] by (metis set_mset_add_mset_insert set_mset_mset)

lemma sorted_bubble: "sorted (rev ys) \<Longrightarrow> sorted (rev (bubble x ys))"
  by (induction ys) (auto simp: sorted_append set_bubble not_less)

lemma fold_bubble:
  "mset (fold bubble ns acc) = mset ns + mset acc"
  "sorted (rev acc) \<Longrightarrow> sorted (rev (fold bubble ns acc))"
  by (induction ns arbitrary: acc) (auto simp: mset_bubble sorted_bubble)

lemma mset_sort_names: "mset (sort_names ns) = mset ns"
  by (simp add: sort_names_def fold_bubble(1))

lemma sorted_sort_names: "sorted (sort_names ns)"
  by (simp add: sort_names_def fold_bubble(2))

lemma set_sort_names: "set (sort_names ns) = set ns"
  using mset_sort_names by (metis set_mset_mset)

lemma sort_names_sort: "sort_names ns = sort ns"
  by (metis mset_sort_names sorted_sort_names properties_for_sort)

lemma resolve_entries_Inr:
  "resolve_entries reg rules ns acc = Inr es \<longleftrightarrow>
   (\<forall>n \<in> set ns. reg n \<noteq> None) \<and>
   es = acc @ map (\<lambda>n. entry_of (the (rules n)) (the (reg n))) ns"
  by (induction ns arbitrary: acc) (auto simp: lookup_rule_def split: option.splits)

lemma resolve_entries_Inl:
  "(\<exists>e. resolve_entries reg rules ns acc = Inl e) \<longleftrightarrow> (\<exists>n \<in> set ns. reg n = None)"
  by (induction ns arbitrary: acc) (auto simp: lookup_rule_def split: option.splits)

lemma resolve_Inr:
  "resolve cfg reg = Inr eng \<longleftrightarrow>
   (\<forall>n \<in> set (enabled_names cfg). reg n \<noteq> None) \<and>
   eng = \<lparr>e_mode = pc_mode cfg,
          e_entries = map (\<lambda>n. entry_of (the (map_of (pc_rules cfg) n)) (the (reg n)))
                          (sort (enabled_names cfg))\<rparr>"
  using resolve_entries_Inl [of reg "map_of (pc_rules cfg)" "sort (enabled_names cfg)" "[]"]
  by (fastforce simp: resolve_def sort_names_sort resolve_entries_Inr split: sum.splits)

lemma enabled_names_iff:
  "distinct (map fst (pc_rules cfg)) \<Longrightarrow>
   n \<in> set (enabled_names cfg) \<longleftrightarrow> (\<exists>rc. map_of (pc_rules cfg) n = Some rc \<and> rc_enabled rc)"
  by (force simp: enabled_names_def)

end
