(* ===== verification/Gitx.thy ===== *)
theory Gitx
  imports Port
begin

text \<open>
  The inspection mirror (\<open>internal/gitx\<close>): the argument vectors the program gives to the git
  binary, the standard input it feeds it, and what it makes of the output. The git binary and
  the file system are not in the repository: they are the record \<open>env\<close> of functions over a
  disk state \<open>'r\<close>. A mirror is its directory, its upstream URL and the disk; the ghost field
  \<open>m_calls\<close> logs the argument vectors in order.

  Every method takes the mirror's mutex for its whole duration (\<open>PackObjectsStream\<close> until its
  command has ended), so a method is one step: a function from the mirror to the mirror and
  its result.
\<close>

section \<open>git and the file system\<close>

text \<open>
  The result of a git command: its output, and when \<open>Run\<close> reports an error, the exit code (if
  it is an \<open>ExitError\<close>) and the error text.
\<close>

record git_result =
  gr_stdout :: string
  gr_stderr :: string
  gr_error :: "(int option \<times> go_error) option"

datatype removal = Removed | NotExist | RemoveFailed go_error

record 'r env =
  x_git :: "'r \<Rightarrow> string list \<Rightarrow> string \<Rightarrow> 'r \<times> git_result"
  x_remove_all :: "'r \<Rightarrow> string \<Rightarrow> 'r \<times> go_error option"
  x_remove :: "'r \<Rightarrow> string \<Rightarrow> 'r \<times> removal"
  x_open :: "'r \<Rightarrow> string \<Rightarrow> go_error + string"
  x_stat :: "'r \<Rightarrow> string \<Rightarrow> bool"

record 'r mirror =
  m_dir :: string
  m_url :: string
  m_disk :: 'r
  m_calls :: "string list list"

type_synonym ('r, 'a) mop = "'r mirror \<Rightarrow> 'r mirror \<times> (go_error + 'a)"

definition ret_op :: "'a \<Rightarrow> ('r, 'a) mop" where
  [go_state]: "ret_op a m = (m, Inr a)"

definition fail_op :: "go_error \<Rightarrow> ('r, 'a) mop" where
  [go_state]: "fail_op e m = (m, Inl e)"

definition bind_op :: "('r, 'a) mop \<Rightarrow> ('a \<Rightarrow> ('r, 'b) mop) \<Rightarrow> ('r, 'b) mop" where
  [go_state]: "bind_op f k m = (case f m of (m', Inl e) \<Rightarrow> (m', Inl e) | (m', Inr a) \<Rightarrow> k a m')"

text \<open>\<open>fmt.Errorf("what: %w", err)\<close>.\<close>

definition wrap_op :: "string \<Rightarrow> ('r, 'a) mop \<Rightarrow> ('r, 'a) mop" where
  [go_state]: "wrap_op what f m =
     (case f m of (m', Inl e) \<Rightarrow> (m', Inl (what @ '': '' @ e)) | (m', Inr a) \<Rightarrow> (m', Inr a))"

section \<open>Redaction and error classes (git.go)\<close>

definition is_ws :: "char \<Rightarrow> bool" where
  "is_ws c \<longleftrightarrow> c \<in> {SP, TAB, NL, CHR 0x0C, CHR 0x0D}"

definition scheme_start :: "char \<Rightarrow> bool" where
  "scheme_start c \<longleftrightarrow> (let n = (of_char c :: nat) in (97 \<le> n \<and> n \<le> 122) \<or> (65 \<le> n \<and> n \<le> 90))"

definition scheme_char :: "char \<Rightarrow> bool" where
  "scheme_char c \<longleftrightarrow> scheme_start c \<or> (let n = (of_char c :: nat) in 48 \<le> n \<and> n \<le> 57)
     \<or> c \<in> {CHR ''+'', CHR ''.'', CHR ''-''}"

definition user_char :: "char \<Rightarrow> bool" where
  "user_char c \<longleftrightarrow> \<not> is_ws c \<and> c \<noteq> CHR ''/'' \<and> c \<noteq> CHR ''@'' \<and> c \<noteq> CHR '':''"

definition pass_char :: "char \<Rightarrow> bool" where
  "pass_char c \<longleftrightarrow> \<not> is_ws c \<and> c \<noteq> CHR ''/'' \<and> c \<noteq> CHR ''@''"

text \<open>
  The expression \<open>credURLRe\<close> at the start of a text: the scheme with its \<open>://\<close> and what
  follows the \<open>@\<close>. Each repetition of the expression ends at a byte outside its class, so the
  match is the one with maximal runs.
\<close>

definition cred_match :: "string \<Rightarrow> (string \<times> string) option" where
  "cred_match s =
     (let scheme = takeWhile scheme_char s; r1 = dropWhile scheme_char s in
      if scheme = [] \<or> \<not> scheme_start (hd scheme) \<or> \<not> has_prefix r1 ''://'' then None
      else
        (let r2 = drop 3 r1; user = takeWhile user_char r2; r3 = dropWhile user_char r2 in
         if user = [] then None
         else
           (case r3 of
              [] \<Rightarrow> None
            | c # r4 \<Rightarrow>
                if c = CHR ''@'' then Some (scheme @ ''://'', r4)
                else if c = CHR '':'' then
                  (case dropWhile pass_char r4 of
                     d # r5 \<Rightarrow> if d = CHR ''@'' \<and> takeWhile pass_char r4 \<noteq> []
                               then Some (scheme @ ''://'', r5) else None
                   | [] \<Rightarrow> None)
                else None)))"

lemma cred_match_shorter:
  assumes "cred_match s = Some (p, r)"
  shows "length r < length s"
proof -
  let ?r3 = "dropWhile user_char (drop 3 (dropWhile scheme_char s))"
  have sc: "takeWhile scheme_char s \<noteq> []"
    using assms by (cases "takeWhile scheme_char s = []") (simp_all add: cred_match_def)
  have "length s = length (takeWhile scheme_char s) + length (dropWhile scheme_char s)"
    by (metis length_append takeWhile_dropWhile_id)
  then have l1: "length (dropWhile scheme_char s) < length s" using sc by simp
  have l2: "length ?r3 \<le> length (dropWhile scheme_char s)"
    using length_dropWhile_le [of user_char "drop 3 (dropWhile scheme_char s)"] by simp
  have "r = tl ?r3 \<or> r = tl (dropWhile pass_char (tl ?r3))"
    using assms unfolding cred_match_def Let_def
    by (simp split: if_splits list.splits)
  then have l3: "length r \<le> length ?r3"
    using length_dropWhile_le [of pass_char "tl ?r3"] by auto
  show ?thesis using l1 l2 l3 by linarith
qed

function redact_creds :: "string \<Rightarrow> string" where
  "redact_creds s =
     (case cred_match s of
        Some (p, r) \<Rightarrow> p @ ''***@'' @ redact_creds r
      | None \<Rightarrow> (case s of [] \<Rightarrow> [] | c # t \<Rightarrow> c # redact_creds t))"
  by pat_completeness auto
termination
  by (relation "measure length") (auto dest: cred_match_shorter)

declare redact_creds.simps [simp del]

definition corruption_patterns :: "string list" where
  "corruption_patterns = [''missing object'', ''corrupt'', ''loose object'', ''unable to unpack'']"

text \<open>\<open>badObjectRe\<close>: the type and the space before \<open>object\<close> are both optional.\<close>

definition bad_object_forms :: "string list" where
  "bad_object_forms =
     concat (map (\<lambda>t. [''bad '' @ t @ '' object'', ''bad '' @ t @ ''object''])
                 [''commit'', ''tree'', ''blob'', ''tag'', ''''])"

definition is_corruption_error :: "go_error \<Rightarrow> bool" where
  "is_corruption_error msg \<longleftrightarrow>
     list_ex (contains msg) bad_object_forms \<or> list_ex (contains msg) corruption_patterns"

section \<open>Parsers of git's output\<close>

definition split_clean_lines :: "string \<Rightarrow> string list" where
  "split_clean_lines out = (let s = trim_right NL out in if s = [] then [] else split_on NL s)"

record object_path =
  op_oid :: string
  op_path :: string

definition parse_object_line :: "string \<Rightarrow> object_path" where
  "parse_object_line line =
     (case index_byte line SP of
        None \<Rightarrow> \<lparr>op_oid = line, op_path = []\<rparr>
      | Some sp \<Rightarrow> \<lparr>op_oid = take sp line, op_path = drop (Suc sp) line\<rparr>)"

definition parse_object_paths :: "string \<Rightarrow> object_path list" where
  "parse_object_paths out = map parse_object_line (split_clean_lines out)"

record commit_parents =
  cp_oid :: string
  cp_parents :: "string list"

definition parse_commit_parents :: "string \<Rightarrow> commit_parents list" where
  "parse_commit_parents out =
     List.map_filter
       (\<lambda>line. case go_fields line of [] \<Rightarrow> None | o1 # ps \<Rightarrow> Some \<lparr>cp_oid = o1, cp_parents = ps\<rparr>)
       (split_clean_lines out)"

fun pair_commits :: "string list \<Rightarrow> commit list" where
  "pair_commits (sha # msg # parts) =
     \<lparr>c_sha = trim_prefix sha [NL], c_message = trim_right NL msg\<rparr> # pair_commits parts"
| "pair_commits _ = []"

definition parse_commit_messages :: "string \<Rightarrow> commit list" where
  "parse_commit_messages out = (if out = [] then [] else pair_commits (split_on NUL out))"

definition is_zero_oid :: "string \<Rightarrow> bool" where
  "is_zero_oid s \<longleftrightarrow> length s = 40 \<and> list_all (\<lambda>c. c = CHR ''0'') s"

definition parse_diff_line :: "string \<Rightarrow> changed_file option" where
  "parse_diff_line line =
     (case index_byte line TAB of
        None \<Rightarrow> None
      | Some tab \<Rightarrow>
          (let path = drop (Suc tab) line; fs = go_fields (take tab line) in
           if path = [] \<or> length fs < 5 then None
           else
             (let status = fs ! 4; dst = (if is_zero_oid (fs ! 3) then [] else fs ! 3) in
              if status = ''A'' then Some \<lparr>f_path = path, f_status = ''A'', f_oid = dst, f_content = []\<rparr>
              else if status = ''M'' \<or> status = ''T''
                then Some \<lparr>f_path = path, f_status = ''M'', f_oid = dst, f_content = []\<rparr>
              else if status = ''D''
                then Some \<lparr>f_path = path, f_status = ''D'', f_oid = [], f_content = []\<rparr>
              else None)))"

definition parse_raw_diff :: "string \<Rightarrow> changed_file list" where
  "parse_raw_diff out = List.map_filter parse_diff_line (split_clean_lines out)"

definition dedup_strings :: "string list \<Rightarrow> string list" where
  "dedup_strings xs = dedup_from {} (filter (\<lambda>s. s \<noteq> []) xs)"

section \<open>Running git\<close>

definition full_args :: "string \<Rightarrow> string list \<Rightarrow> string list" where
  "full_args dir args = [''-C'', dir] @ args"

text \<open>One command: never fails as an operation, its result says how it ended.\<close>

definition git_exec :: "'r env \<Rightarrow> string list \<Rightarrow> string \<Rightarrow> ('r, git_result) mop" where
  "git_exec env argv stdin m =
     (let (d', r) = x_git env (m_disk m) argv stdin in
      (m\<lparr>m_disk := d', m_calls := m_calls m @ [argv]\<rparr>, Inr r))"

text \<open>\<open>cmd.Run()\<close> with captured output: \<open>what: err: stderr\<close> on failure.\<close>

definition checked :: "string \<Rightarrow> git_result \<Rightarrow> ('r, string) mop" where
  "checked what r =
     (case gr_error r of
        None \<Rightarrow> ret_op (gr_stdout r)
      | Some (_, e) \<Rightarrow> fail_op (what @ '': '' @ e @ '': '' @ redact_creds (trim_space (gr_stderr r))))"

definition run_git :: "'r env \<Rightarrow> string list \<Rightarrow> ('r, string) mop" where
  "run_git env args m =
     bind_op (git_exec env (full_args (m_dir m) args) []) (checked (''git '' @ hd args)) m"

text \<open>A command fed from standard input: one line per element.\<close>

definition lines_of :: "string list \<Rightarrow> string" where
  "lines_of xs = concat (map (\<lambda>x. x @ [NL]) xs)"

definition run_stdin :: "'r env \<Rightarrow> string \<Rightarrow> string list \<Rightarrow> string \<Rightarrow> ('r, string) mop" where
  "run_stdin env what args stdin m =
     bind_op (git_exec env (full_args (m_dir m) args) stdin) (checked what) m"

section \<open>The mirror's methods (mirror.go)\<close>

definition clone_mirror :: "'r env \<Rightarrow> ('r, unit) mop" where
  "clone_mirror env m =
     bind_op (git_exec env [''clone'', ''--mirror'', ''--quiet'', m_url m, m_dir m] [])
       (\<lambda>r. case gr_error r of
          None \<Rightarrow> ret_op ()
        | Some (_, e) \<Rightarrow>
            fail_op (''clone --mirror: '' @ e @ '': ''
                     @ redact_creds (trim_space (gr_stdout r @ gr_stderr r)))) m"

definition refresh :: "'r env \<Rightarrow> ('r, unit) mop" where
  "refresh env =
     bind_op (wrap_op ''gitx: refresh mirror'' (run_git env [''fetch'', ''--quiet'', ''origin'']))
       (\<lambda>_. ret_op ())"

definition repair :: "'r env \<Rightarrow> ('r, unit) mop" where
  "repair env m =
     (case x_remove_all env (m_disk m) (m_dir m) of
        (d, Some e) \<Rightarrow> (m\<lparr>m_disk := d\<rparr>, Inl (''gitx: repair mirror: remove: '' @ e))
      | (d, None) \<Rightarrow>
          bind_op (wrap_op ''gitx: repair mirror: clone'' (clone_mirror env))
            (\<lambda>_. bind_op (wrap_op ''gitx: repair mirror: gc.auto'' (run_git env [''config'', ''gc.auto'', ''0'']))
               (\<lambda>_. ret_op ())) (m\<lparr>m_disk := d\<rparr>))"

definition ingest_packfile :: "'r env \<Rightarrow> string \<Rightarrow> ('r, string) mop" where
  "ingest_packfile env pack =
     bind_op (run_stdin env ''gitx: index-pack --stdin --fix-thin''
                [''index-pack'', ''--stdin'', ''--fix-thin''] pack)
       (\<lambda>out. ret_op (case go_fields out of [] \<Rightarrow> [] | fs \<Rightarrow> last fs))"

definition pack_path :: "'r mirror \<Rightarrow> string \<Rightarrow> string \<Rightarrow> string" where
  "pack_path m pack_id ext = m_dir m @ ''/objects/pack/pack-'' @ pack_id @ ext"

definition pack_exts :: "string list" where
  "pack_exts = [''.pack'', ''.idx'', ''.bitmap'', ''.rev'', ''.mtimes'', ''.promisor'']"

fun remove_files :: "'r env \<Rightarrow> string \<Rightarrow> string list \<Rightarrow> ('r, unit) mop" where
  "remove_files env pack_id [] m = (m, Inr ())"
| "remove_files env pack_id (ext # exts) m =
     (case x_remove env (m_disk m) (pack_path m pack_id ext) of
        (d, RemoveFailed e) \<Rightarrow>
          (m\<lparr>m_disk := d\<rparr>, Inl (''gitx: remove pack pack-'' @ pack_id @ ext @ '': '' @ e))
      | (d, _) \<Rightarrow> remove_files env pack_id exts (m\<lparr>m_disk := d\<rparr>))"

definition remove_pack :: "'r env \<Rightarrow> string \<Rightarrow> ('r, unit) mop" where
  "remove_pack env pack_id =
     (if pack_id = [] then ret_op () else remove_files env pack_id pack_exts)"

definition is_ancestor :: "'r env \<Rightarrow> string \<Rightarrow> string \<Rightarrow> ('r, bool) mop" where
  "is_ancestor env old new m =
     (if old = [] \<or> new = [] then ret_op False m
      else
        bind_op (git_exec env (full_args (m_dir m) [''merge-base'', ''--is-ancestor'', old, new]) [])
          (\<lambda>r. case gr_error r of
             None \<Rightarrow> ret_op True
           | Some (code, e) \<Rightarrow>
               if code = Some 1 then ret_op False
               else fail_op (''gitx: merge-base --is-ancestor '' @ old @ '' '' @ new @ '': '' @ e)) m)"

text \<open>The present haves of a \<open>cat-file --batch-check\<close> output, or the first malformed line.\<close>

fun present_set :: "string list \<Rightarrow> string set \<Rightarrow> string + string set" where
  "present_set [] acc = Inr acc"
| "present_set (line # ls) acc =
     (case go_fields line of
        o1 # st # _ \<Rightarrow> present_set ls (if st = ''missing'' then acc else insert o1 acc)
      | _ \<Rightarrow> Inl line)"

definition filter_present_haves :: "'r env \<Rightarrow> string list \<Rightarrow> ('r, string list) mop" where
  "filter_present_haves env haves =
     (if haves = [] then ret_op []
      else
        bind_op (run_stdin env ''gitx: filter present haves'' [''cat-file'', ''--batch-check''] (lines_of haves))
          (\<lambda>out.
             let lines = split_clean_lines out in
             if length lines \<noteq> length haves then
               fail_op (''gitx: filter present haves: cat-file output line count ''
                        @ show_nat (length lines) @ '' != input '' @ show_nat (length haves))
             else
               (case present_set lines {} of
                  Inl line \<Rightarrow>
                    fail_op (''gitx: filter present haves: malformed cat-file line '' @ go_quote line)
                | Inr ps \<Rightarrow> ret_op (filter (\<lambda>h. h \<in> ps) haves))))"

definition wanted_objects :: "'r env \<Rightarrow> string list \<Rightarrow> string list \<Rightarrow> ('r, object_path list) mop" where
  "wanted_objects env wants haves =
     (if wants = [] then ret_op []
      else
        bind_op (filter_present_haves env haves)
          (\<lambda>present.
             bind_op (wrap_op ''gitx: wanted objects''
                        (run_git env ([''rev-list'', ''--objects''] @ wants
                           @ (if present = [] then [] else ''--not'' # present))))
               (\<lambda>out. ret_op (parse_object_paths out))))"

definition commit_parents_op :: "'r env \<Rightarrow> string list \<Rightarrow> ('r, commit_parents list) mop" where
  "commit_parents_op env wants =
     (if wants = [] then ret_op []
      else bind_op (wrap_op ''gitx: commit parents'' (run_git env ([''rev-list'', ''--parents''] @ wants)))
             (\<lambda>out. ret_op (parse_commit_parents out)))"

definition shallow_objects ::
  "'r env \<Rightarrow> string list \<Rightarrow> string list \<Rightarrow> string list \<Rightarrow> ('r, object_path list) mop" where
  "shallow_objects env wants excludes haves =
     (if wants = [] then ret_op []
      else
        bind_op (filter_present_haves env haves)
          (\<lambda>present.
             bind_op (wrap_op ''gitx: shallow objects''
                        (run_git env ([''rev-list'', ''--objects''] @ wants
                           @ (if excludes = [] then [] else ''--not'' # excludes)
                           @ (if present = [] then [] else ''--not'' # present))))
               (\<lambda>out. ret_op (parse_object_paths out))))"

definition ancestors :: "'r env \<Rightarrow> string list \<Rightarrow> ('r, string list) mop" where
  "ancestors env refs =
     (if refs = [] then ret_op []
      else bind_op (wrap_op ''gitx: ancestors'' (run_git env (''rev-list'' # refs)))
             (\<lambda>out. ret_op (split_clean_lines out)))"

definition read_enforce_thin :: bool where
  "read_enforce_thin = False"

definition pack_args :: "bool \<Rightarrow> string list" where
  "pack_args thin = [''pack-objects'', ''--stdout''] @ (if thin then [''--thin''] else [])"

definition pack_objects :: "'r env \<Rightarrow> string list \<Rightarrow> bool \<Rightarrow> ('r, string) mop" where
  "pack_objects env oids thin =
     (if oids = [] then ret_op []
      else run_stdin env ''gitx: pack-objects'' (pack_args thin) (lines_of oids))"

text \<open>
  \<open>PackObjectsStream\<close>: the bytes the reader delivers before its end of file, and what
  \<open>wait\<close> reports once the reader was drained. A caller that stops reading early (it does so only
  after its own write has failed, and it then returns that error and drops \<open>wait\<close>'s) may see a
  broken pipe or a killed process there instead of git's own result.
\<close>

record pack_stream =
  ps_bytes :: string
  ps_wait :: "go_error option"

definition pack_objects_stream :: "'r env \<Rightarrow> string list \<Rightarrow> bool \<Rightarrow> ('r, pack_stream) mop" where
  "pack_objects_stream env oids thin m =
     (if oids = [] then ret_op \<lparr>ps_bytes = [], ps_wait = None\<rparr> m
      else
        bind_op (git_exec env (full_args (m_dir m) (pack_args thin)) (lines_of oids))
          (\<lambda>r. ret_op \<lparr>ps_bytes = gr_stdout r,
                       ps_wait = map_option (\<lambda>(_, e). ''gitx: pack-objects: '' @ e @ '': ''
                                   @ redact_creds (trim_space (gr_stderr r))) (gr_error r)\<rparr>) m)"

definition type_entry :: "(string \<rightharpoonup> string) \<Rightarrow> string \<Rightarrow> (string \<rightharpoonup> string)" where
  "type_entry types line =
     (case go_fields line of o1 # t # _ \<Rightarrow> types(o1 \<mapsto> t) | _ \<Rightarrow> types)"

definition object_types :: "'r env \<Rightarrow> string list \<Rightarrow> ('r, string \<rightharpoonup> string) mop" where
  "object_types env oids =
     (if oids = [] then ret_op Map.empty
      else
        bind_op (run_stdin env ''gitx: object types'' [''cat-file'', ''--batch-check''] (lines_of oids))
          (\<lambda>out. ret_op (foldl type_entry Map.empty (split_clean_lines out))))"

definition pack_object_ids :: "'r env \<Rightarrow> string \<Rightarrow> ('r, string list) mop" where
  "pack_object_ids env pack_id m =
     (if pack_id = [] then ret_op [] m
      else
        (let idx = pack_path m pack_id ''.idx'' in
         case x_open env (m_disk m) idx of
           Inl e \<Rightarrow> fail_op (''gitx: pack object ids: open '' @ idx @ '': '' @ e) m
         | Inr content \<Rightarrow>
             bind_op (run_stdin env ''gitx: show-index'' [''show-index''] content)
               (\<lambda>out. ret_op (List.map_filter
                  (\<lambda>line. case go_fields line of _ # oid # _ \<Rightarrow> Some oid | _ \<Rightarrow> None)
                  (split_clean_lines out))) m))"

definition reachable_objects :: "'r env \<Rightarrow> string list \<Rightarrow> ('r, string set) mop" where
  "reachable_objects env tips =
     (if tips = [] then ret_op {}
      else
        bind_op (wrap_op ''gitx: reachable objects'' (run_git env ([''rev-list'', ''--objects''] @ tips)))
          (\<lambda>out. ret_op (set (map op_oid (parse_object_paths out)))))"

definition new_tips :: "ref_update list \<Rightarrow> string list" where
  "new_tips us = filter (\<lambda>s. s \<noteq> []) (map u_new us)"

definition new_commits :: "'r env \<Rightarrow> ref_update list \<Rightarrow> ('r, string list) mop" where
  "new_commits env us =
     (if new_tips us = [] then ret_op []
      else
        bind_op (wrap_op ''gitx: new commits''
                   (run_git env (''rev-list'' # new_tips us @ [''--not'', ''--all''])))
          (\<lambda>out. ret_op (split_clean_lines out)))"

definition commit_message_op :: "'r env \<Rightarrow> string \<Rightarrow> ('r, string) mop" where
  "commit_message_op env sha =
     bind_op (wrap_op (''gitx: commit message '' @ sha)
                (run_git env [''show'', ''-s'', ''--format=%B'', sha]))
       (\<lambda>out. ret_op (trim_right NL out))"

definition new_commit_messages :: "'r env \<Rightarrow> ref_update list \<Rightarrow> ('r, commit list) mop" where
  "new_commit_messages env us =
     (if new_tips us = [] then ret_op []
      else
        bind_op (wrap_op ''gitx: new commit messages''
                   (run_git env ([''log'', ''--format=%H%x00%B%x00''] @ new_tips us @ [''--not'', ''--all''])))
          (\<lambda>out. ret_op (parse_commit_messages out)))"

definition diff_tree_args :: "string list" where
  "diff_tree_args =
     [''diff-tree'', ''-r'', ''-m'', ''--no-commit-id'', ''--no-renames'', ''--root'', ''--stdin'']"

text \<open>The deduplication of \<open>ChangedFiles\<close> is by path, status and object id.\<close>

definition file_key :: "changed_file \<Rightarrow> string" where
  "file_key f = f_path f @ [NUL] @ f_status f @ [NUL] @ f_oid f"

fun dedup_files :: "string set \<Rightarrow> changed_file list \<Rightarrow> changed_file list" where
  "dedup_files seen [] = []"
| "dedup_files seen (f # fs) =
     (if file_key f \<in> seen then dedup_files seen fs
      else f # dedup_files (insert (file_key f) seen) fs)"

definition changed_files :: "'r env \<Rightarrow> ref_update list \<Rightarrow> ('r, changed_file list) mop" where
  "changed_files env us =
     (if new_tips us = [] then ret_op []
      else
        bind_op (wrap_op ''gitx: changed files: list new commits''
                   (run_git env (''rev-list'' # new_tips us @ [''--not'', ''--all''])))
          (\<lambda>commits_out.
             let new = split_clean_lines commits_out in
             if new = [] then ret_op []
             else
               bind_op (run_stdin env ''gitx: changed files: diff-tree --stdin'' diff_tree_args
                          (join [NL] new @ [NL]))
                 (\<lambda>out. ret_op (dedup_files {} (parse_raw_diff out)))))"

definition blob_content :: "'r env \<Rightarrow> string \<Rightarrow> ('r, string) mop" where
  "blob_content env oid =
     wrap_op (''gitx: blob content '' @ oid) (run_git env [''cat-file'', ''blob'', oid])"

section \<open>Paths of blobs (oidpath.go)\<close>

type_synonym path_index = "string \<Rightarrow> string list"

text \<open>
  The map \<open>seen\<close> of the code holds, for each object id, the paths the index already lists.
\<close>

definition index_line :: "path_index \<Rightarrow> string \<Rightarrow> path_index" where
  "index_line idx line =
     (case index_byte line SP of
        None \<Rightarrow> idx
      | Some sp \<Rightarrow>
          (let oid = take sp line; p = drop (Suc sp) line in
           if p \<in> set (idx oid) then idx else idx(oid := idx oid @ [p])))"

fun index_trees :: "'r env \<Rightarrow> string list \<Rightarrow> path_index \<Rightarrow> ('r, path_index) mop" where
  "index_trees env [] idx m = (m, Inr idx)"
| "index_trees env (tree # trees) idx m =
     bind_op (wrap_op (''ls-tree '' @ tree)
                (run_git env [''ls-tree'', ''-r'', ''--format=%(objectname) %(path)'', tree]))
       (\<lambda>out. index_trees env trees (foldl index_line idx (split_clean_lines out))) m"

definition build_blob_path_index :: "'r env \<Rightarrow> ('r, path_index) mop" where
  "build_blob_path_index env =
     bind_op (wrap_op ''enumerate root trees'' (run_git env [''log'', ''--all'', ''--format=%T'']))
       (\<lambda>out. index_trees env (dedup_strings (split_clean_lines out)) (\<lambda>_. []))"

definition resolve_oid :: "'r env \<Rightarrow> string \<Rightarrow> ('r, string list) mop" where
  "resolve_oid env oid =
     (if oid = [] then ret_op []
      else bind_op (wrap_op (''gitx: resolve '' @ oid) (build_blob_path_index env))
             (\<lambda>idx. ret_op (idx oid)))"

definition resolve_many :: "'r env \<Rightarrow> string list \<Rightarrow> ('r, path_index) mop" where
  "resolve_many env oids =
     (if oids = [] then ret_op (\<lambda>_. [])
      else bind_op (wrap_op ''gitx: resolve many'' (build_blob_path_index env))
             (\<lambda>idx. ret_op (\<lambda>o'. if o' \<in> set oids \<and> o' \<noteq> [] then idx o' else [])))"

section \<open>Laws of the operations\<close>

lemma bind_op_Inr:
  "bind_op f k m = (m', Inr b) \<longleftrightarrow> (\<exists>m1 a. f m = (m1, Inr a) \<and> k a m1 = (m', Inr b))"
  by (auto simp: bind_op_def split: prod.splits sum.splits)

lemma wrap_op_Inr: "wrap_op w f m = (m', Inr b) \<longleftrightarrow> f m = (m', Inr b)"
  by (auto simp: wrap_op_def split: prod.splits sum.splits)

lemma ret_op_Inr: "ret_op a m = (m', Inr b) \<longleftrightarrow> m' = m \<and> b = a"
  by (auto simp: ret_op_def)

lemma fail_op_Inr: "\<not> fail_op e m = (m', Inr b)"
  by (simp add: fail_op_def)

text \<open>
  \<open>logs P f\<close>: the operation keeps the mirror's directory, forgets no call, and every argument
  vector it adds satisfies \<open>P\<close>.
\<close>

named_theorems logs_rules "which argument vectors an operation runs"

definition logs :: "(string \<Rightarrow> string list \<Rightarrow> bool) \<Rightarrow> ('r, 'a) mop \<Rightarrow> bool" where
  "logs P f \<longleftrightarrow>
     (\<forall>m. m_dir (fst (f m)) = m_dir m \<and> m_url (fst (f m)) = m_url m \<and>
        (\<exists>l. m_calls (fst (f m)) = m_calls m @ l \<and> (\<forall>a \<in> set l. P (m_dir m) a)))"

lemma logsI:
  assumes "\<And>m. m_dir (fst (f m)) = m_dir m" and "\<And>m. m_url (fst (f m)) = m_url m"
    and "\<And>m. \<exists>l. m_calls (fst (f m)) = m_calls m @ l \<and> (\<forall>a \<in> set l. P (m_dir m) a)"
  shows "logs P f"
  using assms by (simp add: logs_def)

lemma logs_ret [logs_rules]: "logs P (ret_op a)"
  by (simp add: logs_def ret_op_def)

lemma logs_fail [logs_rules]: "logs P (fail_op e)"
  by (simp add: logs_def fail_op_def)

lemma logs_bind [logs_rules]:
  assumes "logs P f" and "\<And>a. logs P (k a)"
  shows "logs P (bind_op f k)"
  unfolding logs_def
proof
  fix m
  obtain m1 r where f: "f m = (m1, r)" by fastforce
  obtain l where l: "m_dir m1 = m_dir m" "m_url m1 = m_url m" "m_calls m1 = m_calls m @ l"
    "\<forall>a \<in> set l. P (m_dir m) a"
    using assms(1) [unfolded logs_def, rule_format, of m] unfolding f fst_conv by blast
  show "m_dir (fst (bind_op f k m)) = m_dir m \<and> m_url (fst (bind_op f k m)) = m_url m \<and>
      (\<exists>l. m_calls (fst (bind_op f k m)) = m_calls m @ l \<and> (\<forall>a \<in> set l. P (m_dir m) a))"
  proof (cases r)
    case (Inl e)
    then show ?thesis using f l by (auto simp: bind_op_def)
  next
    case (Inr a)
    obtain l2 where l2: "m_dir (fst (k a m1)) = m_dir m1" "m_url (fst (k a m1)) = m_url m1"
      "m_calls (fst (k a m1)) = m_calls m1 @ l2" "\<forall>x \<in> set l2. P (m_dir m1) x"
      using assms(2) [of a, unfolded logs_def, rule_format, of m1] by blast
    have "bind_op f k m = k a m1" using f Inr by (simp add: bind_op_def)
    moreover have "\<forall>x \<in> set (l @ l2). P (m_dir m) x" using l l2 by auto
    ultimately show ?thesis using l l2 by (metis append.assoc)
  qed
qed

lemma logs_wrap [logs_rules]: "logs P f \<Longrightarrow> logs P (wrap_op w f)"
proof -
  have "fst (wrap_op w f m) = fst (f m)" for m
    by (simp add: wrap_op_def split: prod.splits sum.splits)
  then show "logs P f \<Longrightarrow> logs P (wrap_op w f)" by (simp add: logs_def)
qed

lemma logs_checked [logs_rules]: "logs P (checked what r)"
  by (auto simp: checked_def logs_rules split: option.splits prod.splits)

lemma logs_git:
  fixes argv :: "'r mirror \<Rightarrow> string list"
  assumes "\<And>m. P (m_dir m) (argv m)"
    and "\<And>r. logs P (k r)"
  shows "logs P (\<lambda>m. bind_op (git_exec env (argv m) stdin) k m)"
proof -
  have g: "logs (\<lambda>dir a. a = x) (git_exec env x stdin)" for x
    by (simp add: logs_def git_exec_def split: prod.splits)
  show ?thesis
    unfolding logs_def
  proof
    fix m :: "'r mirror"
    let ?P = "\<lambda>dir a. dir = m_dir m \<longrightarrow> P dir a"
    have "logs ?P (git_exec env (argv m) stdin)"
      using assms(1) [of m] by (simp add: logs_def git_exec_def split: prod.splits)
    moreover have "logs ?P (k r)" for r
      using assms(2) [of r] unfolding logs_def by metis
    ultimately have "logs ?P (bind_op (git_exec env (argv m) stdin) k)" by (rule logs_bind)
    then show "m_dir (fst (bind_op (git_exec env (argv m) stdin) k m)) = m_dir m \<and>
        m_url (fst (bind_op (git_exec env (argv m) stdin) k m)) = m_url m \<and>
        (\<exists>l. m_calls (fst (bind_op (git_exec env (argv m) stdin) k m)) = m_calls m @ l \<and>
          (\<forall>a \<in> set l. P (m_dir m) a))"
      unfolding logs_def by metis
  qed
qed

lemma logs_run_git [logs_rules]:
  "(\<And>dir. P dir (full_args dir args)) \<Longrightarrow> logs P (run_git env args)"
  unfolding run_git_def by (rule logs_git) (auto intro: logs_checked)

lemma logs_run_stdin [logs_rules]:
  "(\<And>dir. P dir (full_args dir args)) \<Longrightarrow> logs P (run_stdin env what args stdin)"
  unfolding run_stdin_def by (rule logs_git) (auto intro: logs_checked)

lemma logs_if: "(c \<Longrightarrow> logs P f) \<Longrightarrow> (\<not> c \<Longrightarrow> logs P g) \<Longrightarrow> logs P (if c then f else g)"
  by simp

text \<open>An operation may pick its commands by looking at the mirror.\<close>

lemma logs_local: "(\<And>m. \<exists>g. logs P g \<and> f m = g m) \<Longrightarrow> logs P f"
  unfolding logs_def by metis

text \<open>\<open>extends P m m'\<close>: the calls from \<open>m\<close> to \<open>m'\<close> all satisfy \<open>P\<close>.\<close>

definition extends :: "(string \<Rightarrow> string list \<Rightarrow> bool) \<Rightarrow> 'r mirror \<Rightarrow> 'r mirror \<Rightarrow> bool" where
  "extends P m m' \<longleftrightarrow>
     m_dir m' = m_dir m \<and> (\<exists>l. m_calls m' = m_calls m @ l \<and> (\<forall>a \<in> set l. P (m_dir m) a))"

lemma extends_refl: "extends P m m"
  by (simp add: extends_def)

lemma extends_trans: "extends P m m1 \<Longrightarrow> extends P m1 m2 \<Longrightarrow> extends P m m2"
proof -
  assume "extends P m m1" and "extends P m1 m2"
  then obtain l1 l2 where "m_dir m1 = m_dir m" "m_dir m2 = m_dir m1" "m_calls m1 = m_calls m @ l1"
    "m_calls m2 = m_calls m1 @ l2" "\<forall>a \<in> set l1. P (m_dir m) a" "\<forall>a \<in> set l2. P (m_dir m1) a"
    unfolding extends_def by blast
  then have "m_dir m2 = m_dir m \<and> m_calls m2 = m_calls m @ (l1 @ l2)
      \<and> (\<forall>a \<in> set (l1 @ l2). P (m_dir m) a)" by auto
  then show ?thesis unfolding extends_def by blast
qed

lemma logs_extends: "logs P f \<Longrightarrow> f m = (m', r) \<Longrightarrow> extends P m m'"
  unfolding logs_def extends_def by (metis fst_conv)

section \<open>The path index is complete\<close>

text \<open>
  A security filter must not miss a path: the index lists, for every object id, exactly the
  paths of the \<open>ls-tree\<close> lines that name it.
\<close>

lemma index_byte_split: "index_byte s c = Some i \<longleftrightarrow> (\<exists>a b. s = a @ c # b \<and> c \<notin> set a \<and> i = length a)"
proof
  assume i: "index_byte s c = Some i"
  then have "s ! i = c" "c \<notin> set (take i s)" "i < length s"
    using index_byte_nth index_byte_less by blast+
  then show "\<exists>a b. s = a @ c # b \<and> c \<notin> set a \<and> i = length a"
    by (metis id_take_nth_drop length_take min.absorb4)
next
  assume "\<exists>a b. s = a @ c # b \<and> c \<notin> set a \<and> i = length a"
  moreover have "c \<notin> set a \<Longrightarrow> index_byte (a @ c # b) c = Some (length a)" for a b
    by (induction a) auto
  ultimately show "index_byte s c = Some i" by blast
qed

lemma index_line_iff:
  "p \<in> set (index_line idx line oid) \<longleftrightarrow> p \<in> set (idx oid) \<or> (line = oid @ SP # p \<and> SP \<notin> set oid)"
proof (cases "index_byte line SP")
  case None
  then have "SP \<notin> set line" by (simp add: index_byte_None)
  then show ?thesis using None by (auto simp: index_line_def)
next
  case (Some i)
  then obtain a b where ab: "line = a @ SP # b" "SP \<notin> set a" "i = length a"
    by (auto simp: index_byte_split)
  have "line = oid @ SP # p \<and> SP \<notin> set oid \<longleftrightarrow> a = oid \<and> b = p"
    using ab by (metis append_eq_conv_conj index_byte_split Some list.inject option.inject
        same_append_eq append_eq_append_conv)
  then show ?thesis using Some ab by (auto simp: index_line_def Let_def)
qed

lemma index_lines_iff:
  "p \<in> set (foldl index_line idx lines oid) \<longleftrightarrow>
   p \<in> set (idx oid) \<or> (oid @ SP # p \<in> set lines \<and> SP \<notin> set oid)"
  by (induction lines arbitrary: idx) (auto simp: index_line_iff)

text \<open>The documented behaviour the resolver relies on: \<open>log\<close> and \<open>ls-tree\<close> only read.\<close>

definition reads_only :: "'r env \<Rightarrow> bool" where
  "reads_only env \<longleftrightarrow>
     (\<forall>d dir tree. fst (x_git env d (full_args dir [''log'', ''--all'', ''--format=%T'']) []) = d \<and>
        fst (x_git env d (full_args dir [''ls-tree'', ''-r'', ''--format=%(objectname) %(path)'', tree]) []) = d)"

definition git_out :: "'r env \<Rightarrow> 'r mirror \<Rightarrow> string list \<Rightarrow> string" where
  "git_out env m args = gr_stdout (snd (x_git env (m_disk m) (full_args (m_dir m) args) []))"

definition root_trees :: "'r env \<Rightarrow> 'r mirror \<Rightarrow> string list" where
  "root_trees env m =
     dedup_strings (split_clean_lines (git_out env m [''log'', ''--all'', ''--format=%T'']))"

definition tree_lines :: "'r env \<Rightarrow> 'r mirror \<Rightarrow> string \<Rightarrow> string list" where
  "tree_lines env m tree =
     split_clean_lines (git_out env m [''ls-tree'', ''-r'', ''--format=%(objectname) %(path)'', tree])"

lemma run_git_Inr:
  assumes "run_git env args m = (m', Inr out)"
    and "fst (x_git env (m_disk m) (full_args (m_dir m) args) []) = m_disk m"
  shows "m_disk m' = m_disk m \<and> m_dir m' = m_dir m \<and> out = git_out env m args"
  using assms
  by (auto simp: run_git_def bind_op_Inr git_exec_def checked_def git_out_def ret_op_def fail_op_def
      split: prod.splits option.splits)

lemma same_mirror_out:
  "m_disk m' = m_disk m \<Longrightarrow> m_dir m' = m_dir m \<Longrightarrow> tree_lines env m' = tree_lines env m"
  by (simp add: tree_lines_def git_out_def fun_eq_iff)

lemma index_trees_iff:
  assumes "reads_only env"
  shows "index_trees env trees idx m = (m', Inr idx') \<Longrightarrow>
    p \<in> set (idx' oid) \<longleftrightarrow>
      p \<in> set (idx oid) \<or> (SP \<notin> set oid \<and> (\<exists>t \<in> set trees. oid @ SP # p \<in> set (tree_lines env m t)))"
proof (induction trees arbitrary: idx m)
  case Nil
  then show ?case by simp
next
  case (Cons t trees)
  let ?args = "[''ls-tree'', ''-r'', ''--format=%(objectname) %(path)'', t]"
  obtain m1 out where o1: "run_git env ?args m = (m1, Inr out)"
    and rest: "index_trees env trees (foldl index_line idx (split_clean_lines out)) m1 = (m', Inr idx')"
    using Cons.prems by (auto simp: bind_op_Inr wrap_op_Inr)
  have "fst (x_git env (m_disk m) (full_args (m_dir m) ?args) []) = m_disk m"
    using assms unfolding reads_only_def by blast
  note same = run_git_Inr [OF o1 this]
  have lines: "split_clean_lines out = tree_lines env m t" using same by (simp add: tree_lines_def)
  have "tree_lines env m1 = tree_lines env m" using same same_mirror_out by blast
  then show ?case using Cons.IH [OF rest] by (auto simp: index_lines_iff lines)
qed

lemma build_index_iff:
  assumes "reads_only env" and "build_blob_path_index env m = (m', Inr idx)"
  shows "p \<in> set (idx oid) \<longleftrightarrow>
    SP \<notin> set oid \<and> (\<exists>t \<in> set (root_trees env m). oid @ SP # p \<in> set (tree_lines env m t))"
proof -
  let ?args = "[''log'', ''--all'', ''--format=%T'']"
  obtain m1 out where o1: "run_git env ?args m = (m1, Inr out)"
    and rest: "index_trees env (dedup_strings (split_clean_lines out)) (\<lambda>_. []) m1 = (m', Inr idx)"
    using assms(2) by (auto simp: build_blob_path_index_def bind_op_Inr wrap_op_Inr)
  have "fst (x_git env (m_disk m) (full_args (m_dir m) ?args) []) = m_disk m"
    using assms(1) unfolding reads_only_def by blast
  note same = run_git_Inr [OF o1 this]
  have "dedup_strings (split_clean_lines out) = root_trees env m"
    using same by (simp add: root_trees_def)
  moreover have "tree_lines env m1 = tree_lines env m" using same same_mirror_out by blast
  ultimately show ?thesis using index_trees_iff [OF assms(1) rest] by simp
qed

lemma resolve_oid_iff:
  assumes "reads_only env" and "resolve_oid env oid m = (m', Inr ps)" and "oid \<noteq> []"
  shows "p \<in> set ps \<longleftrightarrow>
    SP \<notin> set oid \<and> (\<exists>t \<in> set (root_trees env m). oid @ SP # p \<in> set (tree_lines env m t))"
  using assms(2,3) build_index_iff [OF assms(1)]
  by (auto simp: resolve_oid_def bind_op_Inr wrap_op_Inr ret_op_Inr)

lemma resolve_many_iff:
  assumes "reads_only env" and "resolve_many env oids m = (m', Inr idx)" and "oid \<in> set oids" and "oid \<noteq> []"
  shows "p \<in> set (idx oid) \<longleftrightarrow>
    SP \<notin> set oid \<and> (\<exists>t \<in> set (root_trees env m). oid @ SP # p \<in> set (tree_lines env m t))"
  using assms(2-4) build_index_iff [OF assms(1), of m]
  by (auto simp: resolve_many_def bind_op_Inr wrap_op_Inr ret_op_Inr split: if_splits)

end
