(* ===== verification/PktLine.thy ===== *)
theory PktLine
  imports Prelude
begin

text \<open>
  The pkt-line codec (\<open>internal/gitproto/pktline/codec.go\<close>) and the output stream the
  protocol code writes to.

  The scanner is modelled in full: its state is the record \<open>scanner\<close> and \<open>scan\<close> is one
  call of \<open>Scanner.Scan\<close>. The encoder of the Go code is a wrapper of go-git's encoder,
  and the side-band muxer is go-git's as well; neither is in this repository, so they are
  the fields of the record \<open>gogit\<close>, and \<open>gogit_ok\<close> states what go-git documents of
  them. \<open>wire_gogit\<close> is an instance that writes the documented format.
\<close>

section \<open>Output streams\<close>

text \<open>
  An \<open>io.Writer\<close>: the bytes written so far and the outcomes of the next calls. \<open>None\<close>
  is a successful write; \<open>Some k\<close> fails after \<open>k\<close> bytes (a client that went away); an
  exhausted schedule succeeds forever.
\<close>

record writer =
  wout :: string
  wsched :: "nat option list"

definition fresh_writer :: writer where
  "fresh_writer = \<lparr>wout = [], wsched = []\<rparr>"

fun wwrite :: "writer \<Rightarrow> string \<Rightarrow> writer \<times> go_error option" where
  "wwrite w p =
     (case wsched w of
        [] \<Rightarrow> (w\<lparr>wout := wout w @ p\<rparr>, None)
      | None # r \<Rightarrow> (w\<lparr>wout := wout w @ p, wsched := r\<rparr>, None)
      | Some k # r \<Rightarrow> (w\<lparr>wout := wout w @ take k p, wsched := r\<rparr>, Some ''write failed''))"

section \<open>go-git\<close>

datatype sideband = Sideband64k | Sideband | NoSideband

record gogit =
  g_enc :: "string \<Rightarrow> string option" \<comment> \<open>\<open>pktline.Encoder.Encode\<close> of one payload\<close>
  g_flush :: string                  \<comment> \<open>\<open>pktline.Encoder.Flush\<close>\<close>
  g_mux :: "sideband \<Rightarrow> string \<Rightarrow> string" \<comment> \<open>\<open>sideband.Muxer.Write\<close> of one chunk\<close>
  g_omax :: nat                      \<comment> \<open>\<open>pktline.OversizePayloadMax\<close>\<close>

definition hex_char :: "nat \<Rightarrow> char" where
  "hex_char d = char_of (if d < 10 then 48 + d else 87 + d)"

definition hex4 :: "nat \<Rightarrow> string" where
  "hex4 n = map (\<lambda>k. hex_char (n div 16 ^ k mod 16)) [3, 2, 1, 0]"

definition pkt :: "string \<Rightarrow> string" where
  "pkt p = hex4 (length p + 4) @ p"

definition max_payload :: nat where
  "max_payload = 65516"

text \<open>
  What go-git documents: a payload of at most \<open>MaxPayloadSize\<close> bytes is written as its
  length in four hexadecimal digits and the payload, a longer one is refused, an empty one
  is a flush-pkt, and readers accept at least \<open>MaxPayloadSize\<close>.
\<close>

definition gogit_ok :: "gogit \<Rightarrow> bool" where
  "gogit_ok G \<longleftrightarrow>
     g_flush G = ''0000'' \<and> max_payload \<le> g_omax G \<and> g_omax G \<le> 65531 \<and>
     (\<forall>p. g_enc G p =
        (if length p > max_payload then None
         else if p = [] then Some ''0000'' else Some (pkt p)))"

text \<open>The muxer cuts what it is given into frames of channel 1.\<close>

function chunks :: "nat \<Rightarrow> 'a list \<Rightarrow> 'a list list" where
  "chunks n b = (if b = [] \<or> n = 0 then [] else take n b # chunks n (drop n b))"
  by pat_completeness auto
termination
  by (relation "measure (length \<circ> snd)") auto

declare chunks.simps [simp del]

lemma chunks_concat: "0 < n \<Longrightarrow> concat (chunks n b) = b"
  by (induction n b rule: chunks.induct) (subst chunks.simps, simp)

lemma chunks_length: "c \<in> set (chunks n b) \<Longrightarrow> c \<noteq> [] \<and> length c \<le> n"
proof (induction n b rule: chunks.induct)
  case (1 n b)
  then show ?case by (subst (asm) (2) chunks.simps) (auto split: if_splits)
qed

definition mux_frames :: "string list \<Rightarrow> string" where
  "mux_frames cs = concat (map (\<lambda>c. pkt (CHR 0x01 # c)) cs)"

definition mux_ok :: "gogit \<Rightarrow> bool" where
  "mux_ok G \<longleftrightarrow>
     (\<forall>t p. t \<noteq> NoSideband \<longrightarrow>
        (\<exists>cs. g_mux G t p = mux_frames cs \<and> concat cs = p \<and> (\<forall>c \<in> set cs. length c < max_payload)))"

definition wire_gogit :: gogit where
  "wire_gogit =
     \<lparr>g_enc = (\<lambda>p. if length p > max_payload then None
                   else if p = [] then Some ''0000'' else Some (pkt p)),
      g_flush = ''0000'',
      g_mux = (\<lambda>t p. mux_frames (chunks (if t = Sideband then 995 else 65515) p)),
      g_omax = 65520\<rparr>"

lemma wire_mux_ok: "mux_ok wire_gogit"
proof -
  have "\<exists>cs. g_mux wire_gogit t p = mux_frames cs \<and> concat cs = p \<and> (\<forall>c \<in> set cs. length c < max_payload)"
    for t p
    using chunks_length chunks_concat [of "if t = Sideband then 995 else 65515" p]
    by (intro exI [of _ "chunks (if t = Sideband then 995 else 65515) p"])
       (fastforce simp: wire_gogit_def max_payload_def split: if_splits)
  then show ?thesis by (auto simp: mux_ok_def)
qed

lemma wire_gogit_ok: "gogit_ok wire_gogit"
  by (simp add: gogit_ok_def wire_gogit_def max_payload_def)

section \<open>Encoder\<close>

fun encode_string :: "gogit \<Rightarrow> writer \<Rightarrow> string \<Rightarrow> writer \<times> go_error option" where
  "encode_string G w p =
     (case g_enc G p of
        None \<Rightarrow> (w, Some ''payload is too long'')
      | Some b \<Rightarrow> wwrite w b)"

text \<open>\<open>Encode(payloads...)\<close> and \<open>EncodeString\<close>: stop at the first payload that fails.\<close>

fun encode_strings :: "gogit \<Rightarrow> writer \<Rightarrow> string list \<Rightarrow> writer \<times> go_error option" where
  "encode_strings G w [] = (w, None)"
| "encode_strings G w (p # ps) =
     (case encode_string G w p of
        (w', None) \<Rightarrow> encode_strings G w' ps
      | (w', Some e) \<Rightarrow> (w', Some e))"

definition enc_flush :: "gogit \<Rightarrow> writer \<Rightarrow> writer \<times> go_error option" where
  "enc_flush G w = wwrite w (g_flush G)"

definition enc_delim :: "writer \<Rightarrow> writer \<times> go_error option" where
  "enc_delim w = wwrite w ''0001''"

definition enc_response_end :: "writer \<Rightarrow> writer \<times> go_error option" where
  "enc_response_end w = wwrite w ''0002''"

section \<open>Scanner\<close>

datatype marker = Data | Flush | Delim | ResponseEnd | Raw

definition hex_digit :: "char \<Rightarrow> nat option" where
  "hex_digit b =
     (let n = (of_char b :: nat) in
      if 48 \<le> n \<and> n \<le> 57 then Some (n - 48)
      else if 97 \<le> n \<and> n \<le> 102 then Some (n - 97 + 10)
      else if 65 \<le> n \<and> n \<le> 70 then Some (n - 65 + 10)
      else None)"

fun decode_len :: "nat \<Rightarrow> string \<Rightarrow> nat option" where
  "decode_len n [] = Some n"
| "decode_len n (b # bs) =
     (case hex_digit b of None \<Rightarrow> None | Some d \<Rightarrow> decode_len (n * 16 + d) bs)"

text \<open>
  \<open>sc_in\<close> is what the reader has not delivered yet and \<open>sc_fail\<close> the error it reports
  when that is used up (\<open>None\<close> for a clean end of file).
\<close>

record scanner =
  sc_in :: string
  sc_fail :: "go_error option"
  sc_payload :: string
  sc_raw :: string
  sc_pending :: string
  sc_marker :: marker
  sc_err :: "go_error option"

definition new_scanner :: "string \<Rightarrow> go_error option \<Rightarrow> scanner" where
  "new_scanner inp fl =
     \<lparr>sc_in = inp, sc_fail = fl, sc_payload = [], sc_raw = [], sc_pending = [],
      sc_marker = Data, sc_err = None\<rparr>"

definition err_invalid_pkt_len :: go_error where
  "err_invalid_pkt_len = ''invalid pkt-len''"

definition scan :: "nat \<Rightarrow> scanner \<Rightarrow> bool \<times> scanner" where
  "scan omax s =
     (if length (sc_in s) < 4 then
        (False, s\<lparr>sc_in := [],
                  sc_err := (case sc_fail s of
                               Some e \<Rightarrow> Some e
                             | None \<Rightarrow> if sc_in s = [] then None else Some err_invalid_pkt_len)\<rparr>)
      else
        (let pre = take 4 (sc_in s); rest = drop 4 (sc_in s) in
         case decode_len 0 pre of
           None \<Rightarrow> (False, s\<lparr>sc_in := rest, sc_marker := Raw, sc_pending := pre, sc_err := None\<rparr>)
         | Some n \<Rightarrow>
             if n = 0 then
               (True, s\<lparr>sc_in := rest, sc_marker := Flush, sc_raw := pre, sc_payload := []\<rparr>)
             else if n = 1 then
               (True, s\<lparr>sc_in := rest, sc_marker := Delim, sc_raw := pre, sc_payload := []\<rparr>)
             else if n = 2 then
               (True, s\<lparr>sc_in := rest, sc_marker := ResponseEnd, sc_raw := pre, sc_payload := []\<rparr>)
             else if n < 4 \<or> n > omax + 4 then
               (False, s\<lparr>sc_in := rest, sc_err := Some (err_invalid_pkt_len @ '': '' @ show_nat n)\<rparr>)
             else if length rest < n - 4 then
               (False, s\<lparr>sc_in := [], sc_payload := rest,
                         sc_err := Some (case sc_fail s of Some e \<Rightarrow> e
                                         | None \<Rightarrow> if rest = [] then ''EOF''
                                                  else ''unexpected EOF'')\<rparr>)
             else
               (True, s\<lparr>sc_in := drop (n - 4) rest, sc_marker := Data,
                        sc_payload := take (n - 4) rest,
                        sc_raw := pre @ take (n - 4) rest\<rparr>)))"

definition is_flush :: "string \<Rightarrow> bool" where
  "is_flush b \<longleftrightarrow> length b = 0"

section \<open>Properties of the scanner\<close>

text \<open>
  A scan that succeeds takes exactly the raw bytes it reports off the input, and at least
  four: the loops over a scanner end, and what a forwarder copies is what was read.
\<close>

lemma take_drop_split3:
  "k \<le> n \<Longrightarrow> take k xs @ take (n - k) (drop k xs) @ drop n xs = xs"
  by (metis append.assoc append_take_drop_id le_add_diff_inverse take_add)

lemma scan_cases:
  assumes "scan omax s = (True, s')"
  shows "sc_in s = sc_raw s' @ sc_in s' \<and> 4 \<le> length (sc_raw s')"
  using assms take_drop_split3 [of 4 _ "sc_in s"]
  by (auto simp: scan_def Let_def split: if_splits option.splits)

lemma scan_raw: "scan omax s = (True, s') \<Longrightarrow> sc_in s = sc_raw s' @ sc_in s'"
  using scan_cases by blast

lemma scan_shorter: "scan omax s = (True, s') \<Longrightarrow> length (sc_in s') < length (sc_in s)"
  using scan_cases by fastforce

text \<open>The bytes of a scan that stops: none are lost before the raw section.\<close>

lemma scan_stop:
  assumes "scan omax s = (False, s')" and "sc_err s' = None"
  shows "sc_in s = (if 4 \<le> length (sc_in s) then sc_pending s' else []) @ sc_in s'"
    and "sc_marker s' = (if 4 \<le> length (sc_in s) then Raw else sc_marker s)"
  using assms by (auto simp: scan_def Let_def split: if_splits option.splits)

lemma hex_digit_char: "d < 16 \<Longrightarrow> hex_digit (hex_char d) = Some d"
  by (auto simp: hex_digit_def hex_char_def Let_def)

lemma decode_hex4:
  assumes n: "n < 65536"
  shows "decode_len 0 (hex4 n) = Some n"
proof -
  have top: "n div 4096 < 16" using n by (simp add: less_mult_imp_div_less)
  have d: "n div 16 div 16 = n div 256" "n div 256 div 16 = n div 4096"
    by (simp_all flip: div_mult2_eq)
  have "n div 4096 * 16 + n div 256 mod 16 = n div 256"
    using div_mult_mod_eq [of "n div 256" 16] d by simp
  moreover have "n div 256 * 16 + n div 16 mod 16 = n div 16"
    using div_mult_mod_eq [of "n div 16" 16] d by simp
  moreover have "n div 16 * 16 + n mod 16 = n"
    by simp
  ultimately show ?thesis
    using top by (simp add: hex4_def hex_digit_char)
qed

lemma length_hex4 [simp]: "length (hex4 n) = 4"
  by (simp add: hex4_def)

lemma scan_pkt:
  assumes "sc_in s = pkt p @ rest" and "length p \<le> max_payload"
    and "max_payload \<le> omax"
  shows "scan omax s =
    (True, s\<lparr>sc_in := rest, sc_marker := Data, sc_payload := p, sc_raw := pkt p\<rparr>)"
proof -
  have "decode_len 0 (hex4 (length p + 4)) = Some (length p + 4)"
    using assms(2) by (intro decode_hex4) (simp add: max_payload_def)
  then show ?thesis
    using assms by (simp add: scan_def pkt_def Let_def)
qed

lemma scan_flush:
  assumes "sc_in s = ''0000'' @ rest"
  shows "scan omax s =
    (True, s\<lparr>sc_in := rest, sc_marker := Flush, sc_raw := ''0000'', sc_payload := []\<rparr>)"
  using assms by (simp add: scan_def hex_digit_def Let_def)

lemma scan_eof:
  "sc_in s = [] \<Longrightarrow> sc_fail s = None \<Longrightarrow>
   scan omax s = (False, s\<lparr>sc_in := [], sc_err := None\<rparr>)"
  by (simp add: scan_def)

text \<open>The encoder against go-git's documented behaviour.\<close>

lemma encode_string_ok:
  "gogit_ok G \<Longrightarrow> p \<noteq> [] \<Longrightarrow> length p \<le> max_payload \<Longrightarrow>
   encode_string G w p = wwrite w (pkt p)"
  by (simp add: gogit_ok_def)

lemma enc_flush_ok: "gogit_ok G \<Longrightarrow> enc_flush G w = wwrite w ''0000''"
  by (simp add: gogit_ok_def enc_flush_def)

lemma gogit_omax: "gogit_ok G \<Longrightarrow> max_payload \<le> g_omax G"
  by (simp add: gogit_ok_def)

lemma wwrite_good: "wsched w = [] \<Longrightarrow> wwrite w p = (w\<lparr>wout := wout w @ p\<rparr>, None)"
  by simp

text \<open>Nothing that is written is ever taken back.\<close>

lemma wwrite_extends: "\<exists>t. wout (fst (wwrite w p)) = wout w @ t"
  by (auto split: list.splits option.splits)

lemma encode_strings_good:
  assumes "gogit_ok G" and "wsched w = []"
    and "\<forall>p \<in> set ps. p \<noteq> [] \<and> length p \<le> max_payload"
  shows "encode_strings G w ps = (w\<lparr>wout := wout w @ concat (map pkt ps)\<rparr>, None)"
  using assms
proof (induction ps arbitrary: w)
  case Nil
  then show ?case by simp
next
  case (Cons p ps)
  then show ?case
    by (simp add: encode_string_ok wwrite_good del: encode_string.simps wwrite.simps)
qed

section \<open>Reading a whole stream\<close>

text \<open>
  The loop \<open>for s.Scan() { ... }\<close>, collecting the marker and payload of every
  pkt-line up to the end, an error or a raw section.
\<close>

function scan_all :: "nat \<Rightarrow> scanner \<Rightarrow> (marker \<times> string) list \<times> scanner" where
  "scan_all omax s =
     (case scan omax s of
        (False, s') \<Rightarrow> ([], s')
      | (True, s') \<Rightarrow>
          (let (xs, s'') = scan_all omax s' in ((sc_marker s', sc_payload s') # xs, s'')))"
  by pat_completeness auto
termination
  by (relation "measure (\<lambda>(omax, s). length (sc_in s))")
     (auto dest: scan_shorter [OF sym])

declare scan_all.simps [simp del]

text \<open>C-lemma: what the encoder writes, the scanner reads back, payload by payload.\<close>

lemma scan_all_pkts:
  assumes "max_payload \<le> omax" and "\<forall>p \<in> set ps. length p \<le> max_payload"
    and "sc_in s = concat (map pkt ps) @ rest"
  shows "\<exists>s'. scan_all omax s = (let (xs, s'') = scan_all omax s' in (map (Pair Data) ps @ xs, s''))
             \<and> sc_in s' = rest \<and> sc_fail s' = sc_fail s"
  using assms
proof (induction ps arbitrary: s)
  case Nil
  then show ?case by (intro exI [of _ s]) (auto split: prod.split)
next
  case (Cons p ps)
  let ?s1 = "s\<lparr>sc_in := concat (map pkt ps) @ rest, sc_marker := Data,
               sc_payload := p, sc_raw := pkt p\<rparr>"
  have "scan omax s = (True, ?s1)"
    using Cons.prems by (intro scan_pkt) auto
  then have step: "scan_all omax s = (let (xs, s'') = scan_all omax ?s1 in ((Data, p) # xs, s''))"
    by (simp add: scan_all.simps [of omax s])
  obtain s' where "scan_all omax ?s1 = (let (xs, s'') = scan_all omax s' in (map (Pair Data) ps @ xs, s''))"
    and "sc_in s' = rest" and "sc_fail s' = sc_fail s"
    using Cons.IH [of ?s1] Cons.prems by auto
  then show ?case
    using step by (intro exI [of _ s']) (auto split: prod.split)
qed

text \<open>A stream of pkt-lines, and that the scanner reads back what was written.\<close>

fun unit_bytes :: "marker \<times> string \<Rightarrow> string" where
  "unit_bytes (Flush, p) = ''0000''"
| "unit_bytes (m, p) = pkt p"

definition unit_ok :: "marker \<times> string \<Rightarrow> bool" where
  "unit_ok u \<longleftrightarrow> (fst u = Data \<and> length (snd u) \<le> max_payload) \<or> u = (Flush, [])"

lemma scan_all_units:
  assumes "max_payload \<le> omax" and "\<forall>u \<in> set us. unit_ok u"
    and "sc_in s = concat (map unit_bytes us)" and "sc_fail s = None"
  shows "fst (scan_all omax s) = us"
  using assms
proof (induction us arbitrary: s)
  case Nil
  then show ?case using scan_eof [of s omax] by (subst scan_all.simps) simp
next
  case (Cons u us)
  let ?m = "fst u" and ?p = "snd u"
  let ?s = "s\<lparr>sc_in := concat (map unit_bytes us), sc_marker := ?m,
             sc_raw := unit_bytes u, sc_payload := ?p\<rparr>"
  consider "u = (Flush, [])" | "u = (Data, ?p)" "length ?p \<le> max_payload"
    using Cons.prems(2) by (cases u) (auto simp: unit_ok_def)
  then have "scan omax s = (True, ?s)"
  proof cases
    case 1
    then show ?thesis using Cons.prems(3) scan_flush [of s _ omax] by simp
  next
    case 2
    have ub: "unit_bytes u = pkt ?p" by (subst 2(1)) simp
    have m: "?m = Data" using 2(1) by (metis fst_conv)
    have "sc_in s = pkt ?p @ concat (map unit_bytes us)" using Cons.prems(3) ub by simp
    from scan_pkt [OF this 2(2) Cons.prems(1)] show ?thesis unfolding ub m by simp
  qed
  moreover have "fst (scan_all omax ?s) = us" using Cons by simp
  ultimately show ?case by (subst scan_all.simps) (auto split: prod.splits)
qed

end
