(* ===== verification/Wire.thy ===== *)
theory Wire
  imports PktLine Port
begin

text \<open>
  The messages of the git wire protocol: receive-pack requests (\<open>receivepack.go\<close>), the
  report-status reply of a denied push (\<open>reportstatus.go\<close>), ref advertisements
  (\<open>uploadpack.go\<close>, \<open>refadvertisement.go\<close>, \<open>refadvertisement_raw.go\<close>), upload-pack requests
  (\<open>uploadpack.go\<close>), the byte-exact forwarding of an upstream's response
  (\<open>forwardStream\<close> of \<open>proxy.go\<close>) and the framing of an upload-pack request on an SSH channel
  (\<open>internal/transport/ssh/uploadpack_body.go\<close>). A nil and an empty slice are both \<open>[]\<close>:
  of all callers only the JSON of an event tells them apart (\<open>AuditFile\<close>).
\<close>

section \<open>Readers\<close>

text \<open>An \<open>io.Reader\<close>: the bytes it delivers, and the error it then reports, if any.\<close>

record source =
  src_bytes :: string
  src_fail :: "go_error option"

definition bytes_source :: "string \<Rightarrow> source" where
  "bytes_source b = \<lparr>src_bytes = b, src_fail = None\<rparr>"

lemma bytes_source_sel: "src_bytes (bytes_source b) = b" "src_fail (bytes_source b) = None"
  by (simp_all add: bytes_source_def)

definition scanner_on :: "source \<Rightarrow> scanner" where
  "scanner_on src = new_scanner (src_bytes src) (src_fail src)"

definition read_all :: "source \<Rightarrow> go_error + string" where
  "read_all src = (case src_fail src of None \<Rightarrow> Inr (src_bytes src) | Some e \<Rightarrow> Inl e)"

text \<open>
  \<open>io.ReadAll(&io.LimitedReader{R, N})\<close>. The limit is an \<open>int64\<close> in the code; the model's is an
  unbounded integer, which is the same for every limit below \<open>2\<^sup>6\<^sup>3 - 1\<close> (a cap of exactly
  \<open>2\<^sup>6\<^sup>3 - 1\<close> bytes, whose \<open>cap + 1\<close> wraps in the code, is outside the model).
\<close>

definition read_limited :: "int \<Rightarrow> source \<Rightarrow> go_error + string" where
  "read_limited n src =
     (if n \<le> int (length (src_bytes src)) then Inr (take (nat n) (src_bytes src)) else read_all src)"

lemma read_limited_bound:
  "read_limited (m + 1) src = Inr b \<Longrightarrow> int (length b) \<le> max 0 (m + 1) \<and> (\<exists>t. src_bytes src = b @ t)"
  by (auto simp: read_limited_def read_all_def split: if_splits option.splits)
     (metis append_take_drop_id)

lemma scanner_on_sel [simp]:
  "sc_in (scanner_on src) = src_bytes src" "sc_fail (scanner_on src) = src_fail src"
  "sc_err (scanner_on src) = None" "sc_marker (scanner_on src) = Data"
  by (simp_all add: scanner_on_def new_scanner_def)

section \<open>Capabilities\<close>

definition split_caps :: "string \<Rightarrow> string list" where
  "split_caps s = (let t = trim_space s in if t = [] then [] else go_fields t)"

section \<open>Receive-pack requests\<close>

record rp_command =
  rp_old :: string
  rp_new :: string
  rp_ref :: string
  rp_caps :: "string list"

text \<open>\<open>rp_offset\<close> is -1 when no packfile follows the commands.\<close>

record rp_request =
  rp_commands :: "rp_command list"
  rp_offset :: int

text \<open>The line without its capabilities, and the capabilities, if there is a NUL byte.\<close>

definition cut_nul :: "string \<Rightarrow> string \<times> string option" where
  "cut_nul b =
     (case index_byte b NUL of
        None \<Rightarrow> (b, None)
      | Some i \<Rightarrow> (take i b, Some (drop (Suc i) b)))"

definition caps_of :: "string option \<Rightarrow> string list" where
  "caps_of part = (case part of None \<Rightarrow> [] | Some c \<Rightarrow> split_caps (trim_right NL c))"

definition parse_command :: "string \<Rightarrow> (rp_command \<times> string list) option" where
  "parse_command b =
     (let (line, part) = cut_nul b in
      case split_n SP 3 (trim_right NL line) of
        [old, new, ref] \<Rightarrow>
          Some (\<lparr>rp_old = old, rp_new = new, rp_ref = ref, rp_caps = []\<rparr>, caps_of part)
      | _ \<Rightarrow> None)"

function command_loop ::
  "nat \<Rightarrow> scanner \<Rightarrow> rp_command list \<Rightarrow> go_error + (rp_command list \<times> scanner)" where
  "command_loop omax s cmds =
     (case scan omax s of
        (False, s') \<Rightarrow> Inr (cmds, s')
      | (True, s') \<Rightarrow>
          if sc_marker s' = Flush then Inr (cmds, s')
          else if sc_marker s' \<noteq> Data then command_loop omax s' cmds
          else
            (case parse_command (sc_payload s') of
               None \<Rightarrow> Inl (''gitproto: receive-pack: malformed command '' @ go_quote (sc_payload s'))
             | Some (c, caps) \<Rightarrow>
                 command_loop omax s'
                   (cmds @ [if caps \<noteq> [] \<and> cmds = [] then c\<lparr>rp_caps := caps\<rparr> else c])))"
  by pat_completeness auto
termination
  by (relation "measure (\<lambda>(omax, s, cmds). length (sc_in s))") (auto dest: scan_shorter [OF sym])

declare command_loop.simps [simp del]

definition parse_receive_pack :: "nat \<Rightarrow> source \<Rightarrow> go_error + rp_request" where
  "parse_receive_pack omax src =
     (case command_loop omax (scanner_on src) [] of
        Inl e \<Rightarrow> Inl e
      | Inr (cmds, s) \<Rightarrow>
          (case sc_err s of
             Some e \<Rightarrow> Inl (''gitproto: receive-pack: '' @ e)
           | None \<Rightarrow>
               if cmds = [] then Inl ''gitproto: receive-pack: no commands''
               else Inr \<lparr>rp_commands = cmds,
                         rp_offset = (if has_prefix (sc_in s) ''PACK''
                                      then int (length (src_bytes src)) - int (length (sc_in s))
                                      else -1)\<rparr>))"

section \<open>Report status\<close>

definition reason_text :: "reason \<Rightarrow> string" where
  "reason_text r =
     (let msg = trim_space (r_message r) in if msg = [] then ''denied by '' @ r_rule r else msg)"

definition flat_byte :: "char \<Rightarrow> char" where
  "flat_byte c = (if c = NL \<or> c = CHR 0x0D then SP else c)"

definition aggregate_reasons :: "decision \<Rightarrow> string" where
  "aggregate_reasons dec =
     (if d_reasons dec = [] then ''push denied by policy''
      else map flat_byte (join ''; '' (map reason_text (d_reasons dec))))"

definition wrap_error :: "string \<Rightarrow> writer \<times> go_error option \<Rightarrow> writer \<times> go_error option" where
  "wrap_error what r = (fst r, map_option (\<lambda>e. what @ '': '' @ e) (snd r))"

fun encode_ngs :: "gogit \<Rightarrow> writer \<Rightarrow> string list \<Rightarrow> string \<Rightarrow> writer \<times> go_error option" where
  "encode_ngs G w [] reason = (w, None)"
| "encode_ngs G w (ref # refs) reason =
     (case encode_string G w (''ng '' @ ref @ '' '' @ reason @ [NL]) of
        (w', Some e) \<Rightarrow> (w', Some (''gitproto: encode report-status ng '' @ ref @ '': '' @ e))
      | (w', None) \<Rightarrow> encode_ngs G w' refs reason)"

definition encode_report_status_deny ::
  "gogit \<Rightarrow> writer \<Rightarrow> string list \<Rightarrow> decision \<Rightarrow> writer \<times> go_error option" where
  "encode_report_status_deny G w refs dec =
     (case encode_string G w (''unpack ok'' @ [NL]) of
        (w1, Some e) \<Rightarrow> (w1, Some (''gitproto: encode report-status unpack: '' @ e))
      | (w1, None) \<Rightarrow>
          (case encode_ngs G w1 refs (aggregate_reasons dec) of
             (w2, Some e) \<Rightarrow> (w2, Some e)
           | (w2, None) \<Rightarrow> wrap_error ''gitproto: encode report-status flush'' (enc_flush G w2)))"

section \<open>Ref advertisements\<close>

record advertised_ref =
  ad_hash :: string
  ad_name :: string

record ref_advertisement =
  ad_service :: string
  ad_refs :: "advertised_ref list"
  ad_caps :: "string list"

definition parse_service_line :: "string \<Rightarrow> string option" where
  "parse_service_line b =
     (let s = trim_right NL b in
      if \<not> has_prefix s ''# service='' then None
      else (let service = trim_space (trim_prefix s ''# service='') in
            if service = [] then None else Some service))"

definition parse_ref_line :: "string \<Rightarrow> (advertised_ref \<times> string list) option" where
  "parse_ref_line b =
     (let (line, part) = cut_nul b; trimmed = trim_right NL line in
      case index_byte trimmed SP of
        None \<Rightarrow> None
      | Some sp \<Rightarrow>
          Some (\<lparr>ad_hash = take sp trimmed, ad_name = drop (Suc sp) trimmed\<rparr>, caps_of part))"

definition marker_num :: "marker \<Rightarrow> nat" where
  "marker_num m =
     (case m of Data \<Rightarrow> 0 | Flush \<Rightarrow> 1 | Delim \<Rightarrow> 2 | ResponseEnd \<Rightarrow> 3 | Raw \<Rightarrow> 4)"

function ref_loop ::
  "nat \<Rightarrow> scanner \<Rightarrow> ref_advertisement \<Rightarrow> go_error + (ref_advertisement \<times> scanner)" where
  "ref_loop omax s adv =
     (case scan omax s of
        (False, s') \<Rightarrow> Inr (adv, s')
      | (True, s') \<Rightarrow>
          if sc_marker s' = Flush then Inr (adv, s')
          else if sc_marker s' \<noteq> Data then ref_loop omax s' adv
          else
            (case parse_ref_line (sc_payload s') of
               None \<Rightarrow> Inl (''gitproto: ref advertisement: malformed ref line ''
                            @ go_quote (sc_payload s'))
             | Some (ref, caps) \<Rightarrow>
                 ref_loop omax s'
                   (adv\<lparr>ad_refs := ad_refs adv @ [ref],
                        ad_caps := (if caps \<noteq> [] then caps else ad_caps adv)\<rparr>)))"
  by pat_completeness auto
termination
  by (relation "measure (\<lambda>(omax, s, adv). length (sc_in s))") (auto dest: scan_shorter [OF sym])

declare ref_loop.simps [simp del]

definition parse_ref_advertisement :: "nat \<Rightarrow> source \<Rightarrow> go_error + ref_advertisement" where
  "parse_ref_advertisement omax src =
     (let (ok1, s1) = scan omax (scanner_on src) in
      if \<not> ok1 then Inl ''gitproto: ref advertisement: empty stream''
      else if sc_marker s1 \<noteq> Data
        then Inl (''gitproto: ref advertisement: expected service line, got ''
                  @ show_nat (marker_num (sc_marker s1)))
      else
        (case parse_service_line (sc_payload s1) of
           None \<Rightarrow> Inl (''gitproto: ref advertisement: malformed service line ''
                        @ go_quote (sc_payload s1))
         | Some service \<Rightarrow>
             (let (ok2, s2) = scan omax s1 in
              if \<not> ok2 \<or> sc_marker s2 \<noteq> Flush
              then Inl ''gitproto: ref advertisement: expected flush after service banner''
              else
                (case ref_loop omax s2 \<lparr>ad_service = service, ad_refs = [], ad_caps = []\<rparr> of
                   Inl e \<Rightarrow> Inl e
                 | Inr (adv, s3) \<Rightarrow>
                     (case sc_err s3 of
                        Some e \<Rightarrow> Inl (''gitproto: ref advertisement: '' @ e)
                      | None \<Rightarrow> Inr adv)))))"

definition build_v0_caps :: "string list \<Rightarrow> string list \<Rightarrow> string list" where
  "build_v0_caps upstream extra =
     (let kept = filter (\<lambda>c. c \<noteq> ''version 2'' \<and> c \<noteq> ''no-done'') upstream in
      dedup_from {} (kept @ extra))"

definition ref_line :: "string list \<Rightarrow> bool \<Rightarrow> advertised_ref \<Rightarrow> string" where
  "ref_line caps first ref =
     (if first then ad_hash ref @ '' '' @ ad_name ref @ [NUL] @ join '' '' caps @ [NL]
      else ad_hash ref @ '' '' @ ad_name ref @ [NL])"

fun emit_refs ::
  "gogit \<Rightarrow> writer \<Rightarrow> string \<Rightarrow> string list \<Rightarrow> bool \<Rightarrow> advertised_ref list \<Rightarrow>
   writer \<times> go_error option" where
  "emit_refs G w what caps first [] = (w, None)"
| "emit_refs G w what caps first (ref # refs) =
     (case encode_string G w (ref_line caps first ref) of
        (w', Some e) \<Rightarrow> (w', Some (what @ '': ref '' @ ad_name ref @ '': '' @ e))
      | (w', None) \<Rightarrow> emit_refs G w' what caps False refs)"

definition zero_oid :: string where
  "zero_oid = replicate 40 (CHR ''0'')"

text \<open>The ref lines and the terminating flush, common to both forms.\<close>

definition emit_body ::
  "gogit \<Rightarrow> writer \<Rightarrow> string \<Rightarrow> ref_advertisement \<Rightarrow> string list \<Rightarrow> writer \<times> go_error option" where
  "emit_body G w what adv extra =
     (let caps = build_v0_caps (ad_caps adv) extra;
          r = (if ad_refs adv = []
               then wrap_error (what @ '': empty cap line'')
                      (encode_string G w
                        (zero_oid @ '' capabilities^{}'' @ [NUL] @ join '' '' caps @ [NL]))
               else emit_refs G w what caps True (ad_refs adv)) in
      case r of
        (w', Some e) \<Rightarrow> (w', Some e)
      | (w', None) \<Rightarrow> wrap_error (what @ '': terminating flush'') (enc_flush G w'))"

definition emit_ref_advertisement_v0 ::
  "gogit \<Rightarrow> writer \<Rightarrow> ref_advertisement \<Rightarrow> string list \<Rightarrow> writer \<times> go_error option" where
  "emit_ref_advertisement_v0 G w adv extra =
     (case encode_string G w (''# service='' @ ad_service adv @ [NL]) of
        (w1, Some e) \<Rightarrow> (w1, Some (''gitproto: emit ref advertisement: service: '' @ e))
      | (w1, None) \<Rightarrow>
          (case enc_flush G w1 of
             (w2, Some e) \<Rightarrow> (w2, Some (''gitproto: emit ref advertisement: flush: '' @ e))
           | (w2, None) \<Rightarrow> emit_body G w2 ''gitproto: emit ref advertisement'' adv extra))"

definition emit_ref_advertisement_raw ::
  "gogit \<Rightarrow> writer \<Rightarrow> ref_advertisement \<Rightarrow> string list \<Rightarrow> writer \<times> go_error option" where
  "emit_ref_advertisement_raw G w adv extra =
     emit_body G w ''gitproto: emit raw ref advertisement'' adv extra"

section \<open>Upload-pack requests\<close>

record up_request =
  up_wants :: "string list"
  up_haves :: "string list"
  up_done :: bool
  up_caps :: "string list"
  up_deepen :: int
  up_deepen_not :: "string list"
  up_deepen_since :: string
  up_shallows :: "string list"

definition empty_request :: up_request where
  "empty_request =
     \<lparr>up_wants = [], up_haves = [], up_done = False, up_caps = [], up_deepen = 0,
      up_deepen_not = [], up_deepen_since = [], up_shallows = []\<rparr>"

definition shallow_requested :: "up_request \<Rightarrow> bool" where
  "shallow_requested r \<longleftrightarrow>
     up_deepen r > 0 \<or> up_deepen_not r \<noteq> [] \<or> up_deepen_since r \<noteq> [] \<or> up_shallows r \<noteq> []"

definition split_want :: "string \<Rightarrow> string \<times> string list" where
  "split_want rest0 =
     (let rest = trim_right NL rest0 in
      case index_byte rest SP of
        None \<Rightarrow> (trim_space rest, [])
      | Some sp \<Rightarrow>
          (let cap_str = trim_space (drop (Suc sp) rest) in
           (take sp rest, if cap_str = [] then [] else split_caps cap_str)))"

definition atoi_error :: "string \<Rightarrow> go_error" where
  "atoi_error s =
     ''strconv.Atoi: parsing '' @ go_quote s
     @ (if digits_val 0 (dropWhile (\<lambda>c. c = CHR ''-'' \<or> c = CHR ''+'') (take 1 s) @ drop 1 s) = None
           \<or> drop 1 s = [] then '': invalid syntax'' else '': value out of range'')"

text \<open>The effect of one data line; lines of no known form are ignored.\<close>

definition request_line :: "up_request \<Rightarrow> string \<Rightarrow> go_error + up_request" where
  "request_line req line =
     (if has_prefix line ''want '' then
        (let (sha, caps) = split_want (trim_prefix line ''want '') in
         Inr (req\<lparr>up_wants := up_wants req @ [sha],
                  up_caps := (if caps \<noteq> [] \<and> up_caps req = [] then caps else up_caps req)\<rparr>))
      else if has_prefix line ''have '' then
        Inr (req\<lparr>up_haves := up_haves req @ [trim_space (trim_prefix line ''have '')]\<rparr>)
      else if has_prefix line ''deepen '' then
        (let v = trim_space (trim_prefix line ''deepen '') in
         case atoi v of
           None \<Rightarrow> Inl (''gitproto: upload-pack request: malformed deepen '' @ go_quote line
                        @ '': '' @ atoi_error v)
         | Some n \<Rightarrow> Inr (req\<lparr>up_deepen := n\<rparr>))
      else if has_prefix line ''deepen-not '' then
        Inr (req\<lparr>up_deepen_not := up_deepen_not req @ [trim_space (trim_prefix line ''deepen-not '')]\<rparr>)
      else if has_prefix line ''deepen-since '' then
        Inr (req\<lparr>up_deepen_since := trim_space (trim_prefix line ''deepen-since '')\<rparr>)
      else if has_prefix line ''shallow '' then
        Inr (req\<lparr>up_shallows := up_shallows req @ [trim_space (trim_prefix line ''shallow '')]\<rparr>)
      else if line = ''done'' then Inr (req\<lparr>up_done := True\<rparr>)
      else Inr req)"

function request_loop :: "nat \<Rightarrow> scanner \<Rightarrow> up_request \<Rightarrow> go_error + (up_request \<times> scanner)" where
  "request_loop omax s req =
     (case scan omax s of
        (False, s') \<Rightarrow> Inr (req, s')
      | (True, s') \<Rightarrow>
          if sc_marker s' = Data then
            (case request_line req (trim_right NL (sc_payload s')) of
               Inl e \<Rightarrow> Inl e
             | Inr req' \<Rightarrow> request_loop omax s' req')
          else request_loop omax s' req)"
  by pat_completeness auto
termination
  by (relation "measure (\<lambda>(omax, s, req). length (sc_in s))") (auto dest: scan_shorter [OF sym])

declare request_loop.simps [simp del]

definition parse_upload_pack_request :: "nat \<Rightarrow> source \<Rightarrow> go_error + up_request" where
  "parse_upload_pack_request omax src =
     (case request_loop omax (scanner_on src) empty_request of
        Inl e \<Rightarrow> Inl e
      | Inr (req, s) \<Rightarrow>
          (case sc_err s of
             Some e \<Rightarrow> Inl (''gitproto: upload-pack request: '' @ e)
           | None \<Rightarrow>
               if up_wants req = [] then Inl ''gitproto: upload-pack request: no wants''
               else Inr req))"

section \<open>Forwarding a response\<close>

text \<open>
  \<open>forwardStream\<close>. The raw tail is copied with \<open>io.Copy\<close>: what the reader still delivers is
  written, then the reader's error, if any, is reported.
\<close>

definition forward_tail :: "scanner \<Rightarrow> writer \<Rightarrow> writer \<times> go_error option" where
  "forward_tail s w =
     (case wwrite w (sc_pending s) of
        (w1, Some e) \<Rightarrow> (w1, Some (''gitproto: forward raw head: '' @ e))
      | (w1, None) \<Rightarrow>
          (case wwrite w1 (sc_in s) of
             (w2, Some e) \<Rightarrow> (w2, Some (''gitproto: forward raw body: '' @ e))
           | (w2, None) \<Rightarrow>
               (w2, map_option (\<lambda>e. ''gitproto: forward raw body: '' @ e) (sc_fail s))))"

function forward_loop :: "nat \<Rightarrow> scanner \<Rightarrow> writer \<Rightarrow> writer \<times> go_error option" where
  "forward_loop omax s w =
     (case scan omax s of
        (True, s') \<Rightarrow>
          (case wwrite w (sc_raw s') of
             (w', Some e) \<Rightarrow> (w', Some (''gitproto: forward pkt-line: '' @ e))
           | (w', None) \<Rightarrow> forward_loop omax s' w')
      | (False, s') \<Rightarrow>
          (case sc_err s' of
             Some e \<Rightarrow> (w, Some (''gitproto: scan response: '' @ e))
           | None \<Rightarrow> if sc_marker s' = Raw then forward_tail s' w else (w, None)))"
  by pat_completeness auto
termination
  by (relation "measure (\<lambda>(omax, s, w). length (sc_in s))") (auto dest: scan_shorter [OF sym])

declare forward_loop.simps [simp del]

definition forward_stream :: "nat \<Rightarrow> source \<Rightarrow> writer \<Rightarrow> writer \<times> go_error option" where
  "forward_stream omax src w = forward_loop omax (scanner_on src) w"

section \<open>Framing on an SSH channel\<close>

definition max_request_bytes :: nat where
  "max_request_bytes = 1048576"

text \<open>
  \<open>readUploadPackRequest\<close>: the raw bytes up to the \<open>done\<close> line. The scanner is returned as
  well: its input is what is left on the channel.
\<close>

function frame_loop :: "nat \<Rightarrow> scanner \<Rightarrow> string \<Rightarrow> (go_error + string) \<times> scanner" where
  "frame_loop omax s buf =
     (case scan omax s of
        (True, s') \<Rightarrow>
          (let buf' = buf @ sc_raw s' in
           if length buf' > max_request_bytes then
             (Inl (''sshfront: upload-pack request exceeds '' @ show_nat max_request_bytes
                   @ '' bytes (no done)''), s')
           else if sc_marker s' = Data \<and> trim_right NL (sc_payload s') = ''done'' then (Inr buf', s')
           else frame_loop omax s' buf')
      | (False, s') \<Rightarrow>
          (case sc_err s' of
             Some e \<Rightarrow> (Inl (''sshfront: read upload-pack request: '' @ e), s')
           | None \<Rightarrow> (Inr buf, s')))"
  by pat_completeness auto
termination
  by (relation "measure (\<lambda>(omax, s, buf). length (sc_in s))") (auto dest: scan_shorter [OF sym])

declare frame_loop.simps [simp del]

definition read_upload_pack_request :: "nat \<Rightarrow> source \<Rightarrow> go_error + string" where
  "read_upload_pack_request omax src = fst (frame_loop omax (scanner_on src) [])"

section \<open>Properties of forwarding and framing\<close>

text \<open>Whatever the writer does, the client receives a prefix of the upstream's bytes.\<close>

lemma wwrite_prefix:
  "wwrite w p = (w', e) \<Longrightarrow>
   \<exists>a b. p = a @ b \<and> wout w' = wout w @ a \<and> (e = None \<longrightarrow> b = [])"
  by (auto split: list.splits option.splits) (metis append_take_drop_id)+

lemma forward_tail_prefix:
  "forward_tail s w = (w', e) \<Longrightarrow>
   \<exists>a b. sc_pending s @ sc_in s = a @ b \<and> wout w' = wout w @ a \<and> (e = None \<longrightarrow> b = [])"
proof -
  assume t: "forward_tail s w = (w', e)"
  obtain w1 e1 where w1: "wwrite w (sc_pending s) = (w1, e1)" by fastforce
  obtain a1 b1 where a1: "sc_pending s = a1 @ b1" "wout w1 = wout w @ a1" "e1 = None \<longrightarrow> b1 = []"
    using wwrite_prefix [OF w1] by blast
  obtain w2 e2 where w2: "wwrite w1 (sc_in s) = (w2, e2)" by fastforce
  obtain a2 b2 where a2: "sc_in s = a2 @ b2" "wout w2 = wout w1 @ a2" "e2 = None \<longrightarrow> b2 = []"
    using wwrite_prefix [OF w2] by blast
  show ?thesis
  proof (cases e1)
    case None
    then have "wout w' = wout w @ (a1 @ a2) \<and> (e = None \<longrightarrow> b2 = [])"
      using t w1 w2 a1 a2 by (auto simp: forward_tail_def split: option.splits)
    then show ?thesis using a1 a2 None by (intro exI [of _ "a1 @ a2"] exI [of _ b2]) simp
  next
    case (Some x)
    then have "wout w' = wout w @ a1 \<and> e \<noteq> None"
      using t w1 a1 by (auto simp: forward_tail_def)
    moreover have "sc_pending s @ sc_in s = a1 @ (b1 @ sc_in s)" using a1 by simp
    ultimately show ?thesis by blast
  qed
qed

lemma forward_loop_prefix:
  "forward_loop omax s w = (w', e) \<Longrightarrow> sc_marker s \<noteq> Raw \<Longrightarrow>
   \<exists>a b. sc_in s = a @ b \<and> wout w' = wout w @ a \<and> (e = None \<longrightarrow> b = [])"
proof (induction omax s w arbitrary: w' e rule: forward_loop.induct)
  case (1 omax s w)
  obtain ok s' where sc: "scan omax s = (ok, s')" by fastforce
  show ?case
  proof (cases ok)
    case True
    then have raw: "sc_in s = sc_raw s' @ sc_in s'" using scan_raw sc by simp
    have nr: "sc_marker s' \<noteq> Raw" using sc True
      by (auto simp: scan_def Let_def split: if_splits option.splits)
    obtain w1 e1 where w1: "wwrite w (sc_raw s') = (w1, e1)" by fastforce
    obtain a1 b1 where a1: "sc_raw s' = a1 @ b1" "wout w1 = wout w @ a1" "e1 = None \<longrightarrow> b1 = []"
      using wwrite_prefix [OF w1] by blast
    show ?thesis
    proof (cases e1)
      case None
      then have f: "forward_loop omax s' w1 = (w', e)"
        using "1.prems" sc True w1 by (simp add: forward_loop.simps [of omax s])
      obtain a b where "sc_in s' = a @ b" "wout w' = wout w1 @ a" "e = None \<longrightarrow> b = []"
        using "1.IH" [OF sc [symmetric] _ w1 [symmetric] None f nr] True by auto
      then show ?thesis using raw a1 None by (intro exI [of _ "a1 @ a"] exI [of _ b]) simp
    next
      case (Some x)
      then have "w' = w1 \<and> e \<noteq> None"
        using "1.prems" sc True w1 by (auto simp: forward_loop.simps [of omax s])
      then have "wout w' = wout w @ a1 \<and> e \<noteq> None" using a1 by simp
      moreover have "sc_in s = a1 @ (b1 @ sc_in s')" using raw a1 by simp
      ultimately show ?thesis by blast
    qed
  next
    case False
    show ?thesis
    proof (cases "sc_err s'")
      case None
      have sc': "scan omax s = (False, s')" using sc False by simp
      show ?thesis
      proof (cases "sc_marker s' = Raw")
        case True
        then have "sc_in s = sc_pending s' @ sc_in s'"
          using scan_stop [OF sc' None] "1.prems"(2) by (auto split: if_splits)
        moreover have "forward_tail s' w = (w', e)"
          using "1.prems"(1) sc' None True by (simp add: forward_loop.simps [of omax s])
        ultimately show ?thesis using forward_tail_prefix by metis
      next
        case no: False
        then have "w' = w" using "1.prems"(1) sc' None by (simp add: forward_loop.simps [of omax s])
        moreover have "sc_in s = []"
          using sc' None no by (auto simp: scan_def Let_def split: if_splits option.splits)
        ultimately show ?thesis by simp
      qed
    next
      case (Some x)
      then have "w' = w \<and> e \<noteq> None"
        using "1.prems" sc False by (auto simp: forward_loop.simps [of omax s])
      then show ?thesis by auto
    qed
  qed
qed

lemma forward_stream_prefix:
  "forward_stream omax src w = (w', e) \<Longrightarrow>
   \<exists>a b. src_bytes src = a @ b \<and> wout w' = wout w @ a \<and> (e = None \<longrightarrow> b = [])"
  using forward_loop_prefix [of omax "scanner_on src" w w' e] by (simp add: forward_stream_def)

text \<open>A frame is a prefix of the channel's bytes, and never more than the cap.\<close>

lemma frame_loop_prefix:
  "frame_loop omax s buf = (Inr b, s'') \<Longrightarrow> length buf \<le> max_request_bytes \<Longrightarrow>
   length b \<le> max_request_bytes \<and> (\<exists>a t. b = buf @ a \<and> sc_in s = a @ t)"
proof (induction omax s buf rule: frame_loop.induct)
  case (1 omax s buf)
  obtain ok s' where sc: "scan omax s = (ok, s')" by fastforce
  show ?case
  proof (cases ok)
    case False
    then have "b = buf" using "1.prems" sc
      by (auto simp: frame_loop.simps [of omax s] split: option.splits)
    then show ?thesis using "1.prems" by simp
  next
    case True
    then have raw: "sc_in s = sc_raw s' @ sc_in s'" using scan_raw sc by simp
    have sc': "(True, s') = scan omax s" using sc True by simp
    let ?buf = "buf @ sc_raw s'"
    have small: "length ?buf \<le> max_request_bytes"
      using "1.prems" sc True by (auto simp: frame_loop.simps [of omax s] Let_def split: if_splits)
    show ?thesis
    proof (cases "sc_marker s' = Data \<and> trim_right NL (sc_payload s') = ''done''")
      case d: True
      then have "b = ?buf" using "1.prems" sc True small
        by (auto simp: frame_loop.simps [of omax s] Let_def)
      then show ?thesis using raw small by auto
    next
      case nd: False
      then have "frame_loop omax s' ?buf = (Inr b, s'')"
        using "1.prems" sc True small
        by (auto simp: frame_loop.simps [of omax s] Let_def split: if_splits)
      then have "length b \<le> max_request_bytes \<and> (\<exists>a t. b = ?buf @ a \<and> sc_in s' = a @ t)"
        using "1.IH" [OF sc' refl, of ?buf] nd small by fastforce
      then obtain a t where "length b \<le> max_request_bytes" "b = ?buf @ a" "sc_in s' = a @ t" by blast
      then show ?thesis using raw by auto
    qed
  qed
qed

section \<open>Properties of parsing\<close>

lemma trim_right_id: "s = [] \<or> last s \<noteq> c \<Longrightarrow> trim_right c s = s"
  by (cases s rule: rev_cases) (auto simp: trim_right_def)

lemma trim_right_snoc: "trim_right c (s @ [c]) = trim_right c s"
  by (simp add: trim_right_def)

lemma cut_nul_none: "NUL \<notin> set b \<Longrightarrow> cut_nul b = (b, None)"
  using index_byte_None [of b NUL] by (auto simp: cut_nul_def split: option.splits)

lemma index_byte_append: "c \<notin> set a \<Longrightarrow> index_byte (a @ c # b) c = Some (length a)"
  by (induction a) auto

lemma cut_nul_some: "NUL \<notin> set a \<Longrightarrow> cut_nul (a @ NUL # b) = (a, Some b)"
  by (simp add: cut_nul_def index_byte_append)

text \<open>A word is a non-empty string without white space bytes, as capabilities are.\<close>

definition word_str :: "string \<Rightarrow> bool" where
  "word_str s \<longleftrightarrow> s \<noteq> [] \<and> (\<forall>c \<in> set s. text_char c)"

lemma space_len_SP: "space_len (SP # s) = 1"
  by (simp add: space_len_def space_runes_def has_prefix_def)

lemma trim_space_ends:
  assumes "text_char c"
    and "text_char d" and "s = c # t" and "s = u @ [d]"
  shows "trim_space s = s"
proof -
  have "trim_left_space s = s"
    using assms by (subst trim_left_space.simps) (simp add: space_len_word)
  moreover have "trim_right_space s = s"
    using assms(2,4) by (subst trim_right_space.simps) (simp add: space_len_right_word)
  ultimately show ?thesis by (simp add: trim_space_def)
qed

lemma word_ends: "word_str s \<Longrightarrow> \<exists>c t d u. s = c # t \<and> s = u @ [d] \<and>
   text_char c \<and> text_char d"
proof -
  assume w: "word_str s"
  then have "s = hd s # tl s" "s = butlast s @ [last s]" "text_char (hd s)" "text_char (last s)"
    by (auto simp: word_str_def)
  then show ?thesis by blast
qed

lemma word_trim: "word_str s \<Longrightarrow> trim_space s = s"
  using word_ends [of s] trim_space_ends by metis

lemma fields_from_word:
  "\<forall>c \<in> set s. text_char c \<Longrightarrow>
   fields_from acc (s @ t) = fields_from (rev s @ acc) t"
proof (induction s arbitrary: acc)
  case Nil
  then show ?case by simp
next
  case (Cons c s)
  then show ?case by (subst fields_from.simps) (simp add: space_len_word)
qed

lemma fields_from_join:
  "\<forall>w \<in> set ws. word_str w \<Longrightarrow> ws \<noteq> [] \<Longrightarrow> fields_from [] (join '' '' ws) = ws"
proof (induction ws)
  case Nil
  then show ?case by simp
next
  case (Cons w ws)
  have w: "w \<noteq> []" "\<forall>c \<in> set w. text_char c"
    using Cons.prems by (auto simp: word_str_def)
  show ?case
  proof (cases ws)
    case Nil
    then show ?thesis
      using fields_from_word [OF w(2), of "[]" "[]"] w(1) by (simp add: fields_from.simps)
  next
    case (Cons v vs)
    have "fields_from [] (w @ SP # join '' '' ws) = fields_from (rev w) (SP # join '' '' ws)"
      using fields_from_word [OF w(2)] by simp
    also have "\<dots> = w # fields_from [] (join '' '' ws)"
      using w(1) by (subst fields_from.simps) (simp add: space_len_SP)
    finally show ?thesis using Cons.IH Cons.prems Cons by simp
  qed
qed

lemma join_ends:
  "\<forall>w \<in> set ws. word_str w \<Longrightarrow> ws \<noteq> [] \<Longrightarrow>
   \<exists>c t d u. join '' '' ws = c # t \<and> join '' '' ws = u @ [d] \<and>
   text_char c \<and> text_char d"
proof (induction ws)
  case Nil
  then show ?case by simp
next
  case (Cons w ws)
  obtain c t d u where w: "w = c # t" "w = u @ [d]" "text_char c"
    "text_char d"
    using word_ends [of w] Cons.prems by (metis list.set_intros(1))
  show ?case
  proof (cases ws)
    case Nil
    then have "join '' '' (w # ws) = w" by simp
    then show ?thesis using w by metis
  next
    case (Cons v vs)
    then obtain d' u' where "join '' '' ws = u' @ [d']" "text_char d'"
      using Cons.IH Cons.prems by auto
    then have "join '' '' (w # ws) = c # (t @ SP # u' @ [d'])"
      "join '' '' (w # ws) = (w @ SP # u') @ [d']" using Cons w by auto
    then show ?thesis using w \<open>text_char d'\<close> by blast
  qed
qed

lemma join_trim: "\<forall>w \<in> set ws. word_str w \<Longrightarrow> ws \<noteq> [] \<Longrightarrow> trim_space (join '' '' ws) = join '' '' ws"
  using join_ends [of ws] trim_space_ends by metis

lemma split_caps_join: "\<forall>w \<in> set ws. word_str w \<Longrightarrow> split_caps (join '' '' ws) = ws"
proof (cases "ws = []")
  case True
  then show ?thesis by (simp add: split_caps_def trim_space_def trim_left_space.simps trim_right_space.simps)
next
  case False
  assume w: "\<forall>w \<in> set ws. word_str w"
  then have "join '' '' ws \<noteq> []" using join_ends [OF w False] by auto
  then show ?thesis
    using w False by (simp add: split_caps_def join_trim fields_from_join go_fields_def Let_def)
qed

lemma caps_of_line:
  assumes "\<forall>w \<in> set ws. word_str w"
  shows "caps_of (Some (join '' '' ws @ [NL])) = ws"
proof -
  have "\<not> text_char NL" by (simp add: text_char_def)
  then have "join '' '' ws = [] \<or> last (join '' '' ws) \<noteq> NL"
    using join_ends [OF assms] by (metis join.simps(1) last_snoc)
  then show ?thesis
    using assms by (simp add: caps_of_def trim_right_snoc trim_right_id split_caps_join)
qed

end
