(* ===== verification/PushEnforce.thy ===== *)
theory PushEnforce
  imports Engine Gitx Wire
begin

text \<open>
  The push decision (\<open>internal/gitproto/receivepack_enforce.go\<close>): object ids are validated,
  force flags come from ancestry walks, the packed objects must be reachable from the declared
  tips, and the new commits and changed files are extracted from the mirror before the engine
  is asked. Each step ends with an inspection failure (a deny decision and an error) or with
  its value; the function returns a decision and, for an inspection failure, the error.
\<close>

section \<open>Object ids\<close>

definition normalize_oid :: "string \<Rightarrow> string" where
  "normalize_oid oid = (if oid = zero_oid then [] else oid)"

definition hex_byte :: "char \<Rightarrow> bool" where
  "hex_byte c \<longleftrightarrow> (let n = (of_char c :: nat) in (48 \<le> n \<and> n \<le> 57) \<or> (97 \<le> n \<and> n \<le> 102))"

definition is_hex_sha :: "string \<Rightarrow> bool" where
  "is_hex_sha s \<longleftrightarrow> length s = 40 \<and> list_all hex_byte s"

section \<open>The steps\<close>

type_synonym failure = "decision \<times> go_error"

definition enforcement :: "string \<Rightarrow> decision" where
  "enforcement msg = policy_deny ''enforcement'' msg"

definition inspection_failed :: decision where
  "inspection_failed = enforcement ''push rejected: inspection failed''"

definition bad_oid :: "string \<Rightarrow> bool" where
  "bad_oid s \<longleftrightarrow> s \<noteq> [] \<and> \<not> is_hex_sha s"

fun classify_updates ::
  "'r env \<Rightarrow> rp_command list \<Rightarrow> ref_update list \<Rightarrow> 'r mirror \<Rightarrow>
   'r mirror \<times> (failure + ref_update list)" where
  "classify_updates env [] acc m = (m, Inr acc)"
| "classify_updates env (cmd # cmds) acc m =
     (let old = normalize_oid (rp_old cmd); new = normalize_oid (rp_new cmd);
          u = \<lparr>u_ref = rp_ref cmd, u_old = old, u_new = new, u_force = False\<rparr> in
      if bad_oid old \<or> bad_oid new then
        (m, Inl (enforcement (''push rejected: malformed object id for ref '' @ rp_ref cmd),
                 ''malformed object id for ref '' @ rp_ref cmd))
      else if is_create u \<or> is_delete u then classify_updates env cmds (acc @ [u]) m
      else
        (case is_ancestor env old new m of
           (m', Inl e) \<Rightarrow>
             (m', Inl (enforcement (''ancestry check failed for '' @ rp_ref cmd @ '': '' @ e), e))
         | (m', Inr ok) \<Rightarrow> classify_updates env cmds (acc @ [u\<lparr>u_force := \<not> ok\<rparr>]) m'))"

definition unreachable_decision :: decision where
  "unreachable_decision = enforcement
     ''push rejected: packfile contains an object not reachable from the declared ref updates''"

definition check_pack ::
  "'r env \<Rightarrow> string \<Rightarrow> ref_update list \<Rightarrow> 'r mirror \<Rightarrow> 'r mirror \<times> (failure + unit)" where
  "check_pack env pack_id updates m =
     (let tips = new_tips updates in
      if pack_id = [] \<or> tips = [] then (m, Inr ())
      else
        (case pack_object_ids env pack_id m of
           (m1, Inl e) \<Rightarrow> (m1, Inl (inspection_failed, e))
         | (m1, Inr objs) \<Rightarrow>
             (case reachable_objects env tips m1 of
                (m2, Inl e) \<Rightarrow> (m2, Inl (inspection_failed, e))
              | (m2, Inr reach) \<Rightarrow>
                  (case find (\<lambda>oid. oid \<notin> reach) objs of
                     Some oid \<Rightarrow>
                       (m2, Inl (unreachable_decision,
                          ''packfile contains object '' @ oid
                          @ '' not reachable from any declared ref update''))
                   | None \<Rightarrow> (m2, Inr ())))))"

fun load_blobs ::
  "'r env \<Rightarrow> changed_file list \<Rightarrow> changed_file list \<Rightarrow> 'r mirror \<Rightarrow>
   'r mirror \<times> (failure + changed_file list)" where
  "load_blobs env [] acc m = (m, Inr acc)"
| "load_blobs env (f # fs) acc m =
     (if f_status f = ''D'' \<or> f_oid f = [] then load_blobs env fs (acc @ [f]) m
      else
        (case blob_content env (f_oid f) m of
           (m', Inl e) \<Rightarrow>
             (m', Inl (enforcement (''blob-content extraction failed for '' @ f_path f @ '': '' @ e), e))
         | (m', Inr b) \<Rightarrow> load_blobs env fs (acc @ [f\<lparr>f_content := b\<rparr>]) m'))"

text \<open>The request the engine is asked about, once the updates are known.\<close>

definition inspect_push ::
  "'r env \<Rightarrow> string \<Rightarrow> string \<Rightarrow> ref_update list \<Rightarrow> 'r mirror \<Rightarrow>
   'r mirror \<times> (failure + push_request)" where
  "inspect_push env agent repo updates m =
     (case new_commit_messages env updates m of
        (m1, Inl e) \<Rightarrow> (m1, Inl (enforcement (''commit extraction failed: '' @ e), e))
      | (m1, Inr commits) \<Rightarrow>
          (case changed_files env updates m1 of
             (m2, Inl e) \<Rightarrow> (m2, Inl (enforcement (''changed-files extraction failed: '' @ e), e))
           | (m2, Inr files) \<Rightarrow>
               (case load_blobs env files [] m2 of
                  (m3, Inl f) \<Rightarrow> (m3, Inl f)
                | (m3, Inr files') \<Rightarrow>
                    (m3, Inr \<lparr>q_agent = agent, q_repo = repo, q_updates = updates,
                              q_commits = commits, q_files = files'\<rparr>))))"

definition prepare_push ::
  "'r env \<Rightarrow> rp_command list \<Rightarrow> string \<Rightarrow> string \<Rightarrow> string \<Rightarrow> 'r mirror \<Rightarrow>
   'r mirror \<times> (failure + push_request)" where
  "prepare_push env cmds agent repo pack_id m =
     (case classify_updates env cmds [] m of
        (m1, Inl f) \<Rightarrow> (m1, Inl f)
      | (m1, Inr updates) \<Rightarrow>
          (case check_pack env pack_id updates m1 of
             (m2, Inl f) \<Rightarrow> (m2, Inl f)
           | (m2, Inr _) \<Rightarrow> inspect_push env agent repo updates m2))"

definition enforce_receive_pack ::
  "'r env \<Rightarrow> engine \<Rightarrow> rp_request \<Rightarrow> string \<Rightarrow> string \<Rightarrow> string \<Rightarrow> 'r mirror \<Rightarrow>
   'r mirror \<times> decision \<times> go_error option" where
  "enforce_receive_pack env eng req agent repo pack_id m =
     (case prepare_push env (rp_commands req) agent repo pack_id m of
        (m', Inl (dec, e)) \<Rightarrow> (m', dec, Some e)
      | (m', Inr q) \<Rightarrow> (m', evaluate_push eng q, None))"

section \<open>Properties\<close>

lemma enforcement_deny [simp]: "d_verdict (enforcement msg) = VerdictDeny"
  by (simp add: enforcement_def)

lemma inspection_failed_deny [simp]: "d_verdict inspection_failed = VerdictDeny"
  by (simp add: inspection_failed_def)

lemma unreachable_deny [simp]: "d_verdict unreachable_decision = VerdictDeny"
  by (simp add: unreachable_decision_def)

text \<open>An inspection failure always carries a deny.\<close>

lemma classify_failure:
  "classify_updates env cmds acc m = (m', Inl (dec, e)) \<Longrightarrow> d_verdict dec = VerdictDeny"
  by (induction cmds arbitrary: acc m)
     (auto simp: Let_def split: if_splits prod.splits sum.splits)

lemma check_pack_failure:
  "check_pack env pid us m = (m', Inl (dec, e)) \<Longrightarrow> d_verdict dec = VerdictDeny"
  by (auto simp: check_pack_def Let_def split: if_splits prod.splits sum.splits option.splits)

lemma load_blobs_failure:
  "load_blobs env fs acc m = (m', Inl (dec, e)) \<Longrightarrow> d_verdict dec = VerdictDeny"
  by (induction fs arbitrary: acc m) (auto split: if_splits prod.splits sum.splits)

lemma inspect_failure:
  "inspect_push env a r us m = (m', Inl (dec, e)) \<Longrightarrow> d_verdict dec = VerdictDeny"
  by (auto simp: inspect_push_def dest: load_blobs_failure split: prod.splits sum.splits)

lemma prepare_failure:
  "prepare_push env cmds a r pid m = (m', Inl (dec, e)) \<Longrightarrow> d_verdict dec = VerdictDeny"
  by (auto simp: prepare_push_def dest: classify_failure check_pack_failure inspect_failure
      split: prod.splits sum.splits)

lemma enforce_error_denies:
  "enforce_receive_pack env eng req a r pid m = (m', dec, Some e) \<Longrightarrow> d_verdict dec = VerdictDeny"
  by (auto simp: enforce_receive_pack_def dest: prepare_failure split: prod.splits sum.splits)

lemma enforce_allow:
  assumes "enforce_receive_pack env eng req a r pid m = (m', dec, e)" and "d_verdict dec = VerdictAllow"
  shows "e = None \<and> (\<exists>q. prepare_push env (rp_commands req) a r pid m = (m', Inr q) \<and>
           dec = evaluate_push eng q)"
proof -
  have "e = None"
    using assms enforce_error_denies [of env eng req a r pid m m' dec] by (cases e) auto
  then show ?thesis
    using assms by (auto simp: enforce_receive_pack_def split: prod.splits sum.splits)
qed

text \<open>The updates a successful classification yields.\<close>

definition valid_update :: "ref_update \<Rightarrow> bool" where
  "valid_update u \<longleftrightarrow> \<not> bad_oid (u_old u) \<and> \<not> bad_oid (u_new u)"

definition mirrors :: "rp_command \<Rightarrow> ref_update \<Rightarrow> bool" where
  "mirrors c u \<longleftrightarrow> u_ref u = rp_ref c \<and> u_old u = normalize_oid (rp_old c)
     \<and> u_new u = normalize_oid (rp_new c) \<and> ((is_create u \<or> is_delete u) \<longrightarrow> \<not> u_force u)"

lemma classify_updates_Inr:
  "classify_updates env cmds acc m = (m', Inr us) \<Longrightarrow>
   \<exists>vs. us = acc @ vs \<and> list_all2 mirrors cmds vs \<and> (\<forall>u \<in> set vs. valid_update u)"
proof (induction cmds arbitrary: acc m)
  case Nil
  then show ?case by simp
next
  case (Cons cmd cmds)
  let ?old = "normalize_oid (rp_old cmd)" and ?new = "normalize_oid (rp_new cmd)"
  let ?u = "\<lparr>u_ref = rp_ref cmd, u_old = ?old, u_new = ?new, u_force = False\<rparr>"
  have ok: "\<not> bad_oid ?old" "\<not> bad_oid ?new"
    using Cons.prems by (auto simp: Let_def split: if_splits)
  obtain b m1 where u: "classify_updates env cmds (acc @ [?u\<lparr>u_force := b\<rparr>]) m1 = (m', Inr us)"
    "is_create ?u \<or> is_delete ?u \<longrightarrow> \<not> b"
  proof (cases "is_create ?u \<or> is_delete ?u")
    case True
    then show ?thesis
      using Cons.prems ok that [of False m] by (simp add: Let_def)
  next
    case False
    then show ?thesis
      using Cons.prems ok that by (auto simp: Let_def split: prod.splits sum.splits)
  qed
  let ?v = "?u\<lparr>u_force := b\<rparr>"
  have "mirrors cmd ?v" "valid_update ?v"
    using ok u(2) by (simp_all add: mirrors_def valid_update_def is_create_def is_delete_def)
  moreover obtain vs where "us = (acc @ [?v]) @ vs" "list_all2 mirrors cmds vs" "\<forall>u \<in> set vs. valid_update u"
    using Cons.IH [OF u(1)] by blast
  ultimately show ?case by (intro exI [of _ "?v # vs"]) simp
qed

lemma check_pack_Inr:
  assumes "check_pack env pid us m = (m', Inr ())" and "pid \<noteq> []" and "new_tips us \<noteq> []"
  shows "\<exists>m1 objs reach. pack_object_ids env pid m = (m1, Inr objs) \<and>
    reachable_objects env (new_tips us) m1 = (m', Inr reach) \<and> set objs \<subseteq> reach"
  using assms
  by (auto simp: check_pack_def Let_def find_None_iff split: prod.splits sum.splits option.splits)

lemma prepare_push_Inr:
  assumes "prepare_push env cmds a r pid m = (m', Inr q)"
  obtains m1 m2 where "classify_updates env cmds [] m = (m1, Inr (q_updates q))"
    and "check_pack env pid (q_updates q) m1 = (m2, Inr ())"
    and "inspect_push env a r (q_updates q) m2 = (m', Inr q)"
    and "q_agent q = a" and "q_repo q = r"
  using assms
  by (auto simp: prepare_push_def inspect_push_def split: prod.splits sum.splits)

section \<open>The ids diff-tree prints\<close>

text \<open>
  What the push path relies on of \<open>git diff-tree\<close>: every line it prints has git's documented
  raw format, \<open>:mode mode oid oid status\<close>, a tab and the path, with full object ids
  (\<open>parseRawDiff\<close> in \<open>mirror.go\<close> states the same format).
\<close>

definition raw_diff_line :: "string \<Rightarrow> bool" where
  "raw_diff_line line \<longleftrightarrow>
     (\<exists>mode1 mode2 oid1 oid2 st path.
        line = join '' '' [mode1, mode2, oid1, oid2, st] @ TAB # path \<and>
        word_str mode1 \<and> word_str mode2 \<and> is_hex_sha oid1 \<and> is_hex_sha oid2 \<and> word_str st)"

lemma raw_diff_lineI:
  "word_str m1 \<Longrightarrow> word_str m2 \<Longrightarrow> is_hex_sha o1 \<Longrightarrow> is_hex_sha o2 \<Longrightarrow> word_str st \<Longrightarrow>
   raw_diff_line (join '' '' [m1, m2, o1, o2, st] @ TAB # path)"
  unfolding raw_diff_line_def by blast

definition prints_raw_diff :: "'r env \<Rightarrow> bool" where
  "prints_raw_diff env \<longleftrightarrow>
     (\<forall>d dir stdin. gr_error (snd (x_git env d (full_args dir diff_tree_args) stdin)) = None \<longrightarrow>
        (\<forall>line \<in> set (split_clean_lines (gr_stdout (snd (x_git env d (full_args dir diff_tree_args) stdin)))).
           raw_diff_line line))"

lemma hex_word: "is_hex_sha s \<Longrightarrow> word_str s"
  by (auto simp: is_hex_sha_def word_str_def text_char_def hex_byte_def Let_def list_all_iff)

lemma word_TAB: "word_str w \<Longrightarrow> TAB \<notin> set w"
  by (auto simp: word_str_def text_char_def)

lemma parse_diff_line_oid:
  assumes "raw_diff_line line" and "parse_diff_line line = Some f"
  shows "f_oid f = [] \<or> is_hex_sha (f_oid f)"
proof -
  obtain a b o1 o2 st path where l: "line = join '' '' [a, b, o1, o2, st] @ TAB # path"
    and v: "word_str a" "word_str b" "is_hex_sha o1" "is_hex_sha o2" "word_str st"
    using assms(1) unfolding raw_diff_line_def by blast
  let ?meta = "join '' '' [a, b, o1, o2, st]"
  have "TAB \<notin> set ?meta" using v by (auto dest: word_TAB hex_word)
  then have i: "index_byte line TAB = Some (length ?meta)" unfolding index_byte_split l by blast
  have "take (length ?meta) line = ?meta"
    unfolding l by (rule append_eq_conv_conj [THEN iffD1, OF refl, THEN conjunct1, symmetric])
  moreover have "go_fields ?meta = [a, b, o1, o2, st]"
    unfolding go_fields_def by (rule fields_from_join) (use v in \<open>auto intro: hex_word\<close>)
  ultimately show ?thesis
    using assms(2) v(4) i by (auto simp: parse_diff_line_def Let_def split: if_splits)
qed

lemma dedup_files_subset: "set (dedup_files seen fs) \<subseteq> set fs"
  by (induction seen fs rule: dedup_files.induct) auto

definition listed_ids :: "changed_file list \<Rightarrow> bool" where
  "listed_ids fs \<longleftrightarrow> (\<forall>f \<in> set fs. f_oid f = [] \<or> is_hex_sha (f_oid f))"

lemma changed_files_ids:
  assumes "prints_raw_diff env" and "changed_files env us m = (m', Inr fs)"
  shows "listed_ids fs"
proof (cases "fs = []")
  case False
  obtain m1 sin out where r: "run_stdin env ''gitx: changed files: diff-tree --stdin'' diff_tree_args sin m1 = (m', Inr out)"
    and fs: "fs = dedup_files {} (parse_raw_diff out)"
    using assms(2) False
    by (auto simp: changed_files_def bind_op_Inr ret_op_Inr wrap_op_Inr Let_def split: if_splits)
  let ?r = "snd (x_git env (m_disk m1) (full_args (m_dir m1) diff_tree_args) sin)"
  have "gr_error ?r = None \<and> out = gr_stdout ?r"
    using r by (auto simp: run_stdin_def bind_op_Inr git_exec_def checked_def ret_op_Inr fail_op_Inr
        split: prod.splits option.splits)
  then have "\<forall>line \<in> set (split_clean_lines out). raw_diff_line line"
    using assms(1) unfolding prints_raw_diff_def by blast
  then have "\<forall>f \<in> set (parse_raw_diff out). f_oid f = [] \<or> is_hex_sha (f_oid f)"
    by (auto simp: parse_raw_diff_def map_filter_def) (metis parse_diff_line_oid)
  then show ?thesis using dedup_files_subset [of "{}" "parse_raw_diff out"] by (auto simp: fs listed_ids_def)
qed (simp add: listed_ids_def)

section \<open>What reaches git's command line\<close>

text \<open>
  The seven commands the enforcement step runs. Every argument that is not one of the program's own words
  or the mirror's directory is a 40-digit hexadecimal id.
\<close>

definition push_command :: "string list \<Rightarrow> bool" where
  "push_command args \<longleftrightarrow>
     (\<exists>old new. is_hex_sha old \<and> is_hex_sha new \<and> args = [''merge-base'', ''--is-ancestor'', old, new]) \<or>
     (\<exists>tips. list_all is_hex_sha tips \<and>
        (args = [''rev-list'', ''--objects''] @ tips \<or>
         args = ''rev-list'' # tips @ [''--not'', ''--all''] \<or>
         args = [''log'', ''--format=%H%x00%B%x00''] @ tips @ [''--not'', ''--all''])) \<or>
     args = diff_tree_args \<or> args = [''show-index''] \<or>
     (\<exists>oid. is_hex_sha oid \<and> args = [''cat-file'', ''blob'', oid])"

definition safe_argv :: "string \<Rightarrow> string list \<Rightarrow> bool" where
  "safe_argv dir argv \<longleftrightarrow> (\<exists>args. argv = full_args dir args \<and> push_command args)"

lemma safe_full_args [simp]: "safe_argv dir (full_args dir args) \<longleftrightarrow> push_command args"
  by (auto simp: safe_argv_def full_args_def)

lemma logs_is_ancestor:
  "\<not> bad_oid old \<Longrightarrow> \<not> bad_oid new \<Longrightarrow> logs safe_argv (is_ancestor env old new)"
proof -
  assume ok: "\<not> bad_oid old" "\<not> bad_oid new"
  show ?thesis
  proof (cases "old = [] \<or> new = []")
    case True
    then have "is_ancestor env old new = ret_op False" by (auto simp: is_ancestor_def fun_eq_iff)
    then show ?thesis by (simp add: logs_ret)
  next
    case False
    then have eq: "is_ancestor env old new = (\<lambda>m. bind_op (git_exec env (full_args (m_dir m)
        [''merge-base'', ''--is-ancestor'', old, new]) [])
          (\<lambda>r. case gr_error r of None \<Rightarrow> ret_op True
           | Some (code, e) \<Rightarrow> if code = Some 1 then ret_op False
               else fail_op (''gitx: merge-base --is-ancestor '' @ old @ '' '' @ new @ '': '' @ e)) m)"
      by (auto simp: is_ancestor_def fun_eq_iff)
    show ?thesis
      unfolding eq using False ok
      by (intro logs_git)
         (auto simp: push_command_def bad_oid_def logs_ret logs_fail split: option.splits prod.splits)
  qed
qed

lemma tips_hex: "\<forall>u \<in> set us. valid_update u \<Longrightarrow> list_all is_hex_sha (new_tips us)"
  by (auto simp: new_tips_def valid_update_def bad_oid_def list_all_iff)

lemma logs_reachable:
  "\<forall>u \<in> set us. valid_update u \<Longrightarrow> logs safe_argv (reachable_objects env (new_tips us))"
  unfolding reachable_objects_def using tips_hex [of us]
  by (auto intro!: logs_rules simp: push_command_def)

lemma logs_commit_messages:
  "\<forall>u \<in> set us. valid_update u \<Longrightarrow> logs safe_argv (new_commit_messages env us)"
  unfolding new_commit_messages_def using tips_hex [of us]
  by (auto intro!: logs_rules simp: push_command_def)

lemma logs_changed_files:
  "\<forall>u \<in> set us. valid_update u \<Longrightarrow> logs safe_argv (changed_files env us)"
  unfolding changed_files_def Let_def using tips_hex [of us]
  by (auto intro!: logs_rules logs_if simp: push_command_def)

lemma logs_blob: "is_hex_sha oid \<Longrightarrow> logs safe_argv (blob_content env oid)"
  unfolding blob_content_def
  by (intro logs_rules) (auto simp: push_command_def)

lemma logs_pack_ids: "logs safe_argv (pack_object_ids env pid)"
proof (rule logs_local)
  fix m :: "'a mirror"
  let ?k = "\<lambda>out. ret_op (List.map_filter
      (\<lambda>line. case go_fields line of _ # oid # _ \<Rightarrow> Some oid | _ \<Rightarrow> None) (split_clean_lines out))"
  have run: "logs safe_argv (bind_op (run_stdin env w [''show-index''] c) ?k)" for w c
    by (rule logs_bind [OF logs_run_stdin logs_ret])
       (simp add: push_command_def)
  show "\<exists>g. logs safe_argv g \<and> pack_object_ids env pid m = g m"
  proof (cases "pid = []")
    case True
    then have "pack_object_ids env pid m = ret_op [] m" by (simp add: pack_object_ids_def)
    then show ?thesis by (intro exI [of _ "ret_op []"] conjI logs_ret)
  next
    case False
    show ?thesis
    proof (cases "x_open env (m_disk m) (pack_path m pid ''.idx'')")
      case (Inl e)
      let ?msg = "''gitx: pack object ids: open '' @ pack_path m pid ''.idx'' @ '': '' @ e"
      have "pack_object_ids env pid m = fail_op ?msg m"
        using False Inl by (simp add: pack_object_ids_def Let_def)
      then show ?thesis by (intro exI [of _ "fail_op ?msg"] conjI logs_fail)
    next
      case (Inr c)
      then have "pack_object_ids env pid m = bind_op (run_stdin env ''gitx: show-index'' [''show-index''] c) ?k m"
        using False by (simp add: pack_object_ids_def Let_def)
      then show ?thesis
        by (intro exI [of _ "bind_op (run_stdin env ''gitx: show-index'' [''show-index''] c) ?k"] conjI run)
    qed
  qed
qed

lemma classify_extends:
  "classify_updates env cmds acc m = (m', r) \<Longrightarrow> extends safe_argv m m'"
proof (induction cmds arbitrary: acc m)
  case Nil
  then show ?case by (simp add: extends_refl)
next
  case (Cons cmd cmds)
  let ?old = "normalize_oid (rp_old cmd)" and ?new = "normalize_oid (rp_new cmd)"
  show ?case
  proof (cases "bad_oid ?old \<or> bad_oid ?new")
    case True
    then show ?thesis using Cons.prems by (auto simp: extends_refl Let_def)
  next
    case False
    obtain m1 a where anc: "is_ancestor env ?old ?new m = (m1, a)" by fastforce
    have "extends safe_argv m m1"
      using logs_extends [OF logs_is_ancestor anc] False by blast
    then show ?thesis
      using Cons.prems False anc extends_trans [of safe_argv m m1 m'] Cons.IH
      by (auto simp: Let_def extends_refl split: if_splits sum.splits)
  qed
qed

lemma check_pack_extends:
  assumes "check_pack env pid us m = (m', r)" and "\<forall>u \<in> set us. valid_update u"
  shows "extends safe_argv m m'"
proof (cases "pid = [] \<or> new_tips us = []")
  case True
  then show ?thesis using assms by (auto simp: check_pack_def Let_def extends_refl)
next
  case False
  obtain m1 a where p: "pack_object_ids env pid m = (m1, a)" by fastforce
  note e1 = logs_extends [OF logs_pack_ids p]
  obtain m2 b where q: "reachable_objects env (new_tips us) m1 = (m2, b)" by fastforce
  note e2 = logs_extends [OF logs_reachable [OF assms(2)] q]
  have "m' = m1 \<or> m' = m2"
    using assms(1) False p q by (auto simp: check_pack_def Let_def split: sum.splits option.splits)
  then show ?thesis using e1 extends_trans [OF e1 e2] by blast
qed

lemma load_blobs_extends:
  "listed_ids fs \<Longrightarrow> load_blobs env fs acc m = (m', r) \<Longrightarrow> extends safe_argv m m'"
proof (induction fs arbitrary: acc m)
  case Nil
  then show ?case by (simp add: extends_refl)
next
  case (Cons f fs)
  have rest: "listed_ids fs" using Cons.prems(1) by (simp add: listed_ids_def)
  show ?case
  proof (cases "f_status f = ''D'' \<or> f_oid f = []")
    case True
    then show ?thesis using Cons.prems Cons.IH [OF rest] by auto
  next
    case False
    then have "is_hex_sha (f_oid f)" using Cons.prems(1) by (simp add: listed_ids_def)
    note blob = logs_blob [OF this]
    obtain m1 a where b: "blob_content env (f_oid f) m = (m1, a)" by fastforce
    note e1 = logs_extends [OF blob b]
    show ?thesis
      using Cons.prems b False Cons.IH [OF rest] e1 extends_trans [OF e1] by (auto split: sum.splits)
  qed
qed

lemma inspect_extends:
  assumes "prints_raw_diff env" and "inspect_push env a r us m = (m', x)"
    and "\<forall>u \<in> set us. valid_update u"
  shows "extends safe_argv m m'"
proof -
  obtain m1 c where p: "new_commit_messages env us m = (m1, c)" by fastforce
  note e1 = logs_extends [OF logs_commit_messages [OF assms(3)] p]
  obtain m2 f where q: "changed_files env us m1 = (m2, f)" by fastforce
  note e2 = extends_trans [OF e1 logs_extends [OF logs_changed_files [OF assms(3)] q]]
  have "m' = m1 \<or> m' = m2 \<or> (\<exists>files y. f = Inr files \<and> load_blobs env files [] m2 = (m', y))"
    using assms(2) p q by (auto simp: inspect_push_def split: sum.splits prod.splits)
  moreover have "listed_ids files" if "f = Inr files" for files
    using changed_files_ids [OF assms(1)] q that by blast
  ultimately show ?thesis using e1 e2 extends_trans [OF e2 load_blobs_extends] by blast
qed

lemma prepare_extends:
  assumes "prints_raw_diff env" and "prepare_push env cmds a r pid m = (m', x)"
  shows "extends safe_argv m m'"
proof -
  obtain m1 c where p: "classify_updates env cmds [] m = (m1, c)" by fastforce
  note e1 = classify_extends [OF p]
  show ?thesis
  proof (cases c)
    case (Inl f)
    then show ?thesis using assms(2) p e1 by (simp add: prepare_push_def)
  next
    case (Inr us)
    have v: "\<forall>u \<in> set us. valid_update u"
      using classify_updates_Inr [OF p [unfolded Inr]] by auto
    obtain m2 d where q: "check_pack env pid us m1 = (m2, d)" by fastforce
    note e2 = extends_trans [OF e1 check_pack_extends [OF q v]]
    have "m' = m2 \<or> inspect_push env a r us m2 = (m', x)"
      using assms(2) p q Inr by (auto simp: prepare_push_def split: sum.splits)
    then show ?thesis using e2 extends_trans [OF e2 inspect_extends [OF assms(1) _ v]] by blast
  qed
qed

lemma enforce_extends:
  "prints_raw_diff env \<Longrightarrow> enforce_receive_pack env eng req a r pid m = (m', dec, e) \<Longrightarrow>
   extends safe_argv m m'"
  by (auto simp: enforce_receive_pack_def dest: prepare_extends split: prod.splits sum.splits)

text \<open>A 40-digit hexadecimal id is never an option.\<close>

lemma hex_sha_not_option: "is_hex_sha s \<Longrightarrow> \<not> has_prefix s ''-''"
  by (cases s) (auto simp: is_hex_sha_def has_prefix_def hex_byte_def Let_def)

end
