(* ===== verification/Pathmatch.thy ===== *)
theory Pathmatch
  imports Prelude
begin

text \<open>
  The gitignore-style path matcher shared by the push rule \<open>path_acl\<close>, the ignore list of
  \<open>secret_scan\<close> and fetch read protection (\<open>internal/pathmatch/pathmatch.go\<close>).

  An index into a Go string is represented by the suffix it points at. The loop of
  \<open>singleMatch\<close> has no evident bound, so it is a \<open>partial_function\<close>; that it always
  returns, and that it decides the documented glob semantics (the inductive predicate
  \<open>glob\<close>) on names without \<open>[\<close>, is proved below.
\<close>

section \<open>Patterns\<close>

datatype segment = DblStar | Lit string

record pattern =
  anchored :: bool
  dirOnly :: bool
  segs :: "segment list"

text \<open>
  \<open>classEnd\<close> on the text after the \<open>[\<close>: the inside of the class and what follows its \<open>]\<close>.
\<close>

definition class_end :: "string \<Rightarrow> (string \<times> string) option" where
  [go_str]: "class_end t =
     (let k = (if t \<noteq> [] \<and> (hd t = CHR '']'' \<or> hd t = CHR ''!'') then 1 else 0)
      in case index_byte (drop k t) (CHR '']'') of
           None \<Rightarrow> None
         | Some j \<Rightarrow> Some (take (k + j) t, drop (Suc (k + j)) t))"

fun valid_glob :: "string \<Rightarrow> bool" where
  "valid_glob [] = True"
| "valid_glob (c # r) = ((c = CHR ''['' \<longrightarrow> class_end r \<noteq> None) \<and> valid_glob r)"

definition compile :: "string \<Rightarrow> pattern option" where
  [go_str]: "compile p =
     (if trim_space p = [] then None
      else if has_prefix p ''!'' then None
      else
        (let dir = has_suffix p ''/''; work = trim_suffix p ''/'' in
         if work = [] then None
         else
           (let anch = (has_prefix work ''/'' \<or> contains work ''/'');
                raw = split_on (CHR ''/'') (trim_prefix work ''/'') in
            if list_all (\<lambda>rs. rs = ''**'' \<or> valid_glob rs) raw
            then Some \<lparr>anchored = anch, dirOnly = dir,
                       segs = map (\<lambda>rs. if rs = ''**'' then DblStar else Lit rs) raw\<rparr>
            else None)))"

text \<open>A matcher is its list of surviving patterns.\<close>

definition new_matcher :: "string list \<Rightarrow> pattern list" where
  [go_str]: "new_matcher ps = List.map_filter compile ps"

definition is_malformed :: "string \<Rightarrow> bool" where
  [go_str]: "is_malformed p = (if trim_space p = [] then False else compile p = None)"

section \<open>Matching one segment\<close>

fun class_ranges :: "string \<Rightarrow> char \<Rightarrow> bool" where
  "class_ranges (lo # d # hi # r) ch =
     (if d = CHR ''-''
      then (of_char lo \<le> (of_char ch :: nat) \<and> of_char ch \<le> (of_char hi :: nat)) \<or> class_ranges r ch
      else lo = ch \<or> class_ranges (d # hi # r) ch)"
| "class_ranges (c # r) ch = (c = ch \<or> class_ranges r ch)"
| "class_ranges [] ch = False"

definition class_match :: "string \<Rightarrow> char \<Rightarrow> bool" where
  [go_str]: "class_match inner ch =
     (if has_prefix inner ''!'' then \<not> class_ranges (tl inner) ch else class_ranges inner ch)"

text \<open>
  One turn of the loop that consumes \<open>ch\<close>, for a pattern position that is not a \<open>*\<close>: the
  position after it, or \<open>None\<close>. A class that does not match falls through to the
  comparison with the literal \<open>[\<close>, as in the source.
\<close>

definition seg_step :: "string \<Rightarrow> char \<Rightarrow> string option" where
  [go_str]: "seg_step p ch =
     (case p of
        [] \<Rightarrow> None
      | c # p' \<Rightarrow>
          if c = CHR ''?'' then Some p'
          else (case (if c = CHR ''['' then class_end p' else None) of
                  Some (inner, r) \<Rightarrow>
                    if class_match inner ch then Some r else if c = ch then Some p' else None
                | None \<Rightarrow> if c = ch then Some p' else None))"

partial_function (option) sm_loop ::
  "string \<Rightarrow> string \<Rightarrow> (string \<times> string) option \<Rightarrow> bool option" where
  "sm_loop p n st =
     (case n of
        [] \<Rightarrow> Some (dropWhile (\<lambda>c. c = CHR ''*'') p = [])
      | ch # n' \<Rightarrow>
          if p \<noteq> [] \<and> hd p = CHR ''*'' then sm_loop (tl p) n (Some (tl p, n))
          else (case seg_step p ch of
                  Some p' \<Rightarrow> sm_loop p' n' st
                | None \<Rightarrow>
                    (case st of
                       Some (sp, sn) \<Rightarrow> sm_loop sp (tl sn) (Some (sp, tl sn))
                     | None \<Rightarrow> Some False)))"

definition single_match :: "string \<Rightarrow> string \<Rightarrow> bool" where
  [go_str]: "single_match pat name \<longleftrightarrow> sm_loop pat name None = Some True"

section \<open>Matching a path\<close>

fun match_from :: "bool \<Rightarrow> segment list \<Rightarrow> string list \<Rightarrow> bool" where
  "match_from dir [] ps = (dir \<or> ps = [])"
| "match_from dir (DblStar # ss) ps =
     list_ex (\<lambda>k. match_from dir ss (drop k ps)) [0..<Suc (length ps)]"
| "match_from dir (Lit l # ss) ps =
     (case ps of [] \<Rightarrow> False | q # qs \<Rightarrow> single_match l q \<and> match_from dir ss qs)"

definition pat_match :: "pattern \<Rightarrow> string list \<Rightarrow> bool" where
  [go_str]: "pat_match p ps =
     (case segs p of
        [] \<Rightarrow> False
      | s # _ \<Rightarrow>
          if \<not> anchored p
          then (case s of DblStar \<Rightarrow> True | Lit l \<Rightarrow> list_ex (single_match l) ps)
          else match_from (dirOnly p) (segs p) ps)"

definition matcher_match :: "pattern list \<Rightarrow> string \<Rightarrow> bool" where
  [go_str]: "matcher_match m path =
     (if m = [] then False
      else (let path' = trim_prefix path ''/'' in
            if path' = [] then False
            else list_ex (\<lambda>p. pat_match p (split_on (CHR ''/'') path')) m))"

section \<open>The loop returns\<close>

lemma class_end_shorter: "class_end t = Some (i, r) \<Longrightarrow> length r < length t"
  by (auto simp: class_end_def Let_def split: option.splits dest!: index_byte_less)

lemma seg_step_shorter: "seg_step p ch = Some p' \<Longrightarrow> length p' < length p"
  by (auto simp: seg_step_def split: list.splits option.splits if_splits prod.splits
           dest: class_end_shorter)

text \<open>One equation per turn of the loop.\<close>

abbreviation at_star :: "string \<Rightarrow> bool" where
  "at_star p \<equiv> p \<noteq> [] \<and> hd p = CHR ''*''"

declare sm_loop.simps [code]

lemma sm_loop_nil: "sm_loop p [] st = Some (dropWhile (\<lambda>c. c = CHR ''*'') p = [])"
  by (simp add: sm_loop.simps)

lemma sm_loop_star:
  "sm_loop (CHR ''*'' # p) (c # n) st = sm_loop p (c # n) (Some (p, c # n))"
  by (subst sm_loop.simps) simp

lemma sm_loop_step:
  "\<not> at_star p \<Longrightarrow> seg_step p c = Some p' \<Longrightarrow> sm_loop p (c # n) st = sm_loop p' n st"
  by (subst sm_loop.simps, cases p) auto

lemma sm_loop_retry:
  "\<not> at_star p \<Longrightarrow> seg_step p c = None \<Longrightarrow>
   sm_loop p (c # n) (Some (sp, sn)) = sm_loop sp (tl sn) (Some (sp, tl sn))"
  by (subst sm_loop.simps, cases p) auto

lemma sm_loop_fail:
  "\<not> at_star p \<Longrightarrow> seg_step p c = None \<Longrightarrow> sm_loop p (c # n) None = Some False"
  by (subst sm_loop.simps, cases p) auto

text \<open>
  The measure of the loop: a new star shortens the pattern that is retried, a retry
  shortens the name it starts from, and any other turn shortens the rest of the name.
  \<open>sm_induct\<close> is the induction along the turns for a loop state in which the pattern and
  the name are no longer than those remembered with the star.
\<close>

definition sm_wf :: "string \<Rightarrow> string \<Rightarrow> (string \<times> string) option \<Rightarrow> bool" where
  "sm_wf p n st \<longleftrightarrow>
     (case st of None \<Rightarrow> True
      | Some (sp, sn) \<Rightarrow> length p \<le> length sp \<and> length n \<le> length sn)"

lemma sm_induct [consumes 1, case_names nil star step retry fail]:
  assumes wf: "sm_wf p n st"
    and nil: "\<And>p st. sm_wf p [] st \<Longrightarrow> P p [] st"
    and star: "\<And>p c n st. sm_wf (CHR ''*'' # p) (c # n) st \<Longrightarrow>
        P p (c # n) (Some (p, c # n)) \<Longrightarrow> P (CHR ''*'' # p) (c # n) st"
    and step: "\<And>p c n st p'. sm_wf p (c # n) st \<Longrightarrow> \<not> at_star p \<Longrightarrow>
        seg_step p c = Some p' \<Longrightarrow> P p' n st \<Longrightarrow> P p (c # n) st"
    and retry: "\<And>p c n sp d sn. sm_wf p (c # n) (Some (sp, d # sn)) \<Longrightarrow> \<not> at_star p \<Longrightarrow>
        seg_step p c = None \<Longrightarrow> P sp sn (Some (sp, sn)) \<Longrightarrow> P p (c # n) (Some (sp, d # sn))"
    and fail: "\<And>p c n. \<not> at_star p \<Longrightarrow> seg_step p c = None \<Longrightarrow> P p (c # n) None"
  shows "P p n st"
  using wf
proof (induction "(p, n, st)" arbitrary: p n st rule: wf_induct_rule [OF wf_measures, of
    "[\<lambda>(p, n, st). (case st of None \<Rightarrow> Suc (length p) | Some (sp, sn) \<Rightarrow> length sp),
      \<lambda>(p, n, st). (case st of None \<Rightarrow> 0 | Some (sp, sn) \<Rightarrow> length sn),
      \<lambda>(p, n, st). length n]", case_names less])
  case (less p n st)
  show ?case
  proof (cases n)
    case Nil
    then show ?thesis using nil less.prems by simp
  next
    case n: (Cons c n')
    show ?thesis
    proof (cases "at_star p")
      case True
      then obtain p' where p: "p = CHR ''*'' # p'" by (cases p) auto
      have "P p' n (Some (p', n))"
        using less.hyps [of p' n "Some (p', n)"] less.prems p
        by (auto simp: sm_wf_def split: option.splits)
      then show ?thesis using star less.prems p n by simp
    next
      case False
      show ?thesis
      proof (cases "seg_step p c")
        case (Some p')
        have "P p' n' st"
          using less.hyps [of p' n' st] less.prems n seg_step_shorter [OF Some]
          by (auto simp: sm_wf_def split: option.splits)
        then show ?thesis using step Some False less.prems n by blast
      next
        case None
        show ?thesis
        proof (cases st)
          case None
          then show ?thesis using fail \<open>seg_step p c = None\<close> False n by blast
        next
          case st: (Some s)
          then obtain sp d sn where s: "s = (sp, d # sn)"
            using less.prems n by (cases s; cases "snd s") (auto simp: sm_wf_def)
          have "P sp sn (Some (sp, sn))"
            using less.hyps [of sp sn "Some (sp, sn)"] st s by (auto simp: sm_wf_def)
          then show ?thesis
            using retry None False less.prems n st s by blast
        qed
      qed
    qed
  qed
qed

lemma sm_wf_None [simp]: "sm_wf p n None"
  by (simp add: sm_wf_def)

lemma sm_loop_returns: "sm_wf p n st \<Longrightarrow> \<exists>b. sm_loop p n st = Some b"
  by (induction rule: sm_induct)
     (auto simp: sm_loop_nil sm_loop_star sm_loop_step sm_loop_retry sm_loop_fail)

section \<open>The documented glob semantics\<close>

text \<open>
  What the header of the Go file promises of one segment: \<open>*\<close> is any run, \<open>?\<close> one
  character, a class one character of (or outside) its set, anything else itself.
\<close>

inductive glob :: "string \<Rightarrow> string \<Rightarrow> bool" where
  nil: "glob [] []"
| star_skip: "glob p n \<Longrightarrow> glob (CHR ''*'' # p) n"
| star_take: "glob (CHR ''*'' # p) n \<Longrightarrow> glob (CHR ''*'' # p) (c # n)"
| any: "glob p n \<Longrightarrow> glob (CHR ''?'' # p) (c # n)"
| cls: "class_end p = Some (inner, r) \<Longrightarrow> class_match inner c \<Longrightarrow> glob r n \<Longrightarrow>
        glob (CHR ''['' # p) (c # n)"
| lit: "c \<notin> set ''*?['' \<Longrightarrow> glob p n \<Longrightarrow> glob (c # p) (c # n)"

inductive_cases glob_nilE: "glob [] n"
inductive_cases glob_starE: "glob (CHR ''*'' # p) n"
inductive_cases glob_to_nilE: "glob p []"
inductive_simps glob_any: "glob (CHR ''?'' # p) n"
inductive_simps glob_cls: "glob (CHR ''['' # p) n"

lemma glob_nil_iff: "glob [] n \<longleftrightarrow> n = []"
  by (auto elim: glob_nilE intro: glob.nil)

lemma glob_to_nil: "glob p [] \<longleftrightarrow> dropWhile (\<lambda>c. c = CHR ''*'') p = []"
proof (induction p)
  case Nil
  show ?case by (simp add: glob.nil)
next
  case (Cons c p)
  then show ?case
    by (cases "c = CHR ''*''") (auto elim: glob_to_nilE intro: glob.star_skip)
qed

text \<open>A star takes any number of characters of the name.\<close>

lemma glob_star_drop:
  assumes "glob (CHR ''*'' # p) n"
  shows "\<exists>k \<le> length n. glob p (drop k n)"
proof -
  have "glob q n \<Longrightarrow> q = CHR ''*'' # p \<Longrightarrow> \<exists>k \<le> length n. glob p (drop k n)" for q
  proof (induction q n rule: glob.induct)
    case (star_skip p' n)
    then show ?case by (intro exI [of _ 0]) simp
  next
    case (star_take p' n c)
    then obtain k where "k \<le> length n" "glob p (drop k n)" by blast
    then show ?case by (intro exI [of _ "Suc k"]) simp
  qed simp_all
  then show ?thesis using assms by blast
qed

lemma glob_star_absorb: "glob (CHR ''*'' # p) (drop k n) \<Longrightarrow> glob (CHR ''*'' # p) n"
proof (induction k arbitrary: n)
  case (Suc k)
  then show ?case by (cases n) (auto intro: glob.star_take)
qed simp

lemma glob_star_iff: "glob (CHR ''*'' # p) n \<longleftrightarrow> (\<exists>k \<le> length n. glob p (drop k n))"
  using glob_star_drop glob_star_absorb glob.star_skip by blast

lemma glob_star_Nil: "glob (CHR ''*'' # p) [] \<longleftrightarrow> glob p []"
  by (simp add: glob_to_nil)

lemma glob_star_Cons: "glob (CHR ''*'' # p) (c # n) \<longleftrightarrow> glob p (c # n) \<or> glob (CHR ''*'' # p) n"
  by (auto elim: glob_starE intro: glob.star_skip glob.star_take)

text \<open>
  Away from a star, on a name character other than \<open>[\<close>, a turn of the loop and the glob
  rules agree, and the pattern position after the turn does not depend on the character.
\<close>

definition unit_rest :: "string \<Rightarrow> string option" where
  "unit_rest p =
     (case p of [] \<Rightarrow> None
      | c # p' \<Rightarrow> if c = CHR ''['' then map_option snd (class_end p') else Some p')"

lemma seg_step_rest: "seg_step p c = Some p' \<Longrightarrow> c \<noteq> CHR ''['' \<Longrightarrow> unit_rest p = Some p'"
  by (auto simp: seg_step_def unit_rest_def split: list.splits option.splits if_splits prod.splits)

lemma glob_step:
  assumes "\<not> at_star p" and "c \<noteq> CHR ''[''"
  shows "glob p (c # n) \<longleftrightarrow> (\<exists>p'. seg_step p c = Some p' \<and> glob p' n)"
proof (cases p)
  case Nil
  then show ?thesis by (simp add: glob_nil_iff seg_step_def)
next
  case (Cons d p')
  show ?thesis
  proof (cases "d = CHR ''?'' \<or> d = CHR ''[''")
    case True
    then show ?thesis
      using Cons assms
      by (auto simp: seg_step_def glob_any glob_cls split: option.splits prod.splits)
  next
    case False
    then show ?thesis
      using Cons assms by (auto simp: seg_step_def intro: glob.lit elim: glob.cases)
  qed
qed

text \<open>
  Any way of matching from the remembered star that starts \<open>k\<close> characters later passes,
  after as many turns, the same pattern position \<open>k\<close> characters later.
\<close>

inductive reach :: "string \<Rightarrow> string \<Rightarrow> string \<Rightarrow> string \<Rightarrow> bool" for sp sn where
  start: "reach sp sn sp sn"
| turn: "reach sp sn p (c # n) \<Longrightarrow> \<not> at_star p \<Longrightarrow> seg_step p c = Some p' \<Longrightarrow> reach sp sn p' n"

lemma reach_name: "reach sp sn p n \<Longrightarrow> set n \<subseteq> set sn \<and> length n \<le> length sn"
  by (induction rule: reach.induct) auto

lemma reach_pattern: "reach sp sn p n \<Longrightarrow> length p \<le> length sp"
  by (induction rule: reach.induct) (auto dest: seg_step_shorter)

lemma reach_later:
  assumes "reach sp sn p n" and "glob sp (drop k sn)" and "k \<le> length sn"
    and "CHR ''['' \<notin> set sn"
  shows "glob p (drop k n) \<and> k \<le> length n"
  using assms
proof (induction rule: reach.induct)
  case start
  then show ?case by simp
next
  case (turn p c n p')
  then have g: "glob p (drop k (c # n))" and k: "k \<le> Suc (length n)" by auto
  have "c \<noteq> CHR ''[''" using reach_name [OF turn.hyps(1)] turn.prems by auto
  then have rest: "unit_rest p = Some p'" using turn.hyps seg_step_rest by blast
  have "drop k (c # n) \<noteq> []"
  proof
    assume "drop k (c # n) = []"
    with g have "dropWhile (\<lambda>c. c = CHR ''*'') p = []" by (simp add: glob_to_nil)
    then have "p = []" using turn.hyps(2) by (cases p) auto
    with turn.hyps(3) show False by (simp add: seg_step_def)
  qed
  then obtain d n' where d: "drop k (c # n) = d # n'" by (cases "drop k (c # n)") auto
  then have n': "n' = drop k n" by (metis drop_Suc drop_Suc_Cons list.sel(3) drop_tl tl_drop)
  have "d \<noteq> CHR ''[''"
    using d reach_name [OF turn.hyps(1)] turn.prems
    by (metis in_set_dropD list.set_intros(1) subsetD)
  then obtain q where "seg_step p d = Some q" and "glob q n'"
    using g d glob_step [OF turn.hyps(2)] by auto
  then have "glob p' n'" using rest seg_step_rest \<open>d \<noteq> CHR ''[''\<close> by fastforce
  moreover have "k \<le> length n" using d by (metis Suc_le_mono diff_is_0_eq drop_eq_Nil
      k le_Suc_eq length_Cons list.distinct(1))
  ultimately show ?case using n' by simp
qed

lemma sm_loop_glob:
  assumes "sm_wf p n st"
    and "case st of None \<Rightarrow> True | Some (sp, sn) \<Rightarrow> reach sp sn p n"
    and "CHR ''['' \<notin> set n \<union> (case st of None \<Rightarrow> {} | Some (sp, sn) \<Rightarrow> set sn)"
  shows "sm_loop p n st =
    Some (glob p n \<or> (case st of None \<Rightarrow> False
                      | Some (sp, sn) \<Rightarrow> sn \<noteq> [] \<and> glob (CHR ''*'' # sp) (tl sn)))"
  using assms
proof (induction rule: sm_induct)
  case (nil p st)
  have "glob p []" if h: "st = Some (sp, sn)" "sn \<noteq> []" "glob (CHR ''*'' # sp) (tl sn)" for sp sn
  proof -
    obtain k where "k \<le> length (tl sn)" "glob sp (drop k (tl sn))"
      using glob_star_drop h(3) by blast
    then have "glob sp (drop (Suc k) sn)" "Suc k \<le> length sn"
      using h(2) by (auto simp: drop_Suc) (cases sn, auto)
    then show ?thesis using reach_later [of sp sn p "[]" "Suc k"] nil.prems h(1) by auto
  qed
  then show ?case by (auto simp: sm_loop_nil glob_to_nil split: option.splits)
next
  case (star p c n st)
  have "glob (CHR ''*'' # p) (c # n)"
    if h: "st = Some (sp, sn)" "sn \<noteq> []" "glob (CHR ''*'' # sp) (tl sn)" for sp sn
  proof -
    obtain k where "k \<le> length (tl sn)" "glob sp (drop k (tl sn))"
      using glob_star_drop h(3) by blast
    then have "glob sp (drop (Suc k) sn)" "Suc k \<le> length sn"
      using h(2) by (auto simp: drop_Suc) (cases sn, auto)
    then have "glob (CHR ''*'' # p) (drop (Suc k) (c # n))"
      using reach_later [of sp sn "CHR ''*'' # p" "c # n" "Suc k"] star.prems h(1) by auto
    then show ?thesis by (rule glob_star_absorb)
  qed
  moreover have "sm_loop p (c # n) (Some (p, c # n)) = Some (glob (CHR ''*'' # p) (c # n))"
    using star.IH star.prems by (auto simp: reach.start glob_star_Cons)
  ultimately show ?case by (auto simp: sm_loop_star split: option.splits)
next
  case (step p c n st p')
  then have "glob p (c # n) = glob p' n" using glob_step [of p c n] by auto
  moreover have "case st of None \<Rightarrow> True | Some (sp, sn) \<Rightarrow> reach sp sn p' n"
    using step by (auto split: option.splits intro: reach.turn)
  ultimately show ?case
    using step by (simp add: sm_loop_step)
next
  case (retry p c n sp d sn)
  have "\<not> glob p (c # n)" using glob_step [of p c n] retry by auto
  moreover have "sm_loop sp sn (Some (sp, sn)) = Some (glob (CHR ''*'' # sp) sn)"
    using retry.IH retry.prems by (cases sn) (auto simp: reach.start glob_star_Cons glob_star_Nil)
  ultimately show ?case using retry by (simp add: sm_loop_retry)
next
  case (fail p c n)
  then have "\<not> glob p (c # n)" using glob_step [of p c n] by auto
  then show ?case using fail by (simp add: sm_loop_fail)
qed

lemma single_match_glob: "CHR ''['' \<notin> set name \<Longrightarrow> single_match pat name \<longleftrightarrow> glob pat name"
  using sm_loop_glob [of pat name None] by (simp add: single_match_def)

section \<open>Patterns without metacharacters\<close>

definition plain :: "string \<Rightarrow> bool" where
  "plain s \<longleftrightarrow> set s \<inter> set ''*?['' = {}"

lemma sm_loop_plain: "plain p \<Longrightarrow> sm_loop p n None = Some (p = n)"
proof (induction n arbitrary: p)
  case Nil
  then show ?case by (cases p) (auto simp: sm_loop_nil plain_def)
next
  case (Cons c n)
  then show ?case
  proof (cases p)
    case Nil
    then show ?thesis by (subst sm_loop.simps) (simp add: seg_step_def)
  next
    case p: (Cons d p')
    then have d: "\<not> at_star p" "d \<noteq> CHR ''?''" "d \<noteq> CHR ''[''"
      using Cons.prems by (auto simp: plain_def)
    show ?thesis
    proof (cases "d = c")
      case True
      then have "seg_step p c = Some p'" using p d by (simp add: seg_step_def)
      moreover have "plain p'" using Cons.prems p by (auto simp: plain_def)
      ultimately show ?thesis using Cons.IH d p True by (simp add: sm_loop_step)
    next
      case False
      then have "seg_step p c = None" using p d by (simp add: seg_step_def)
      then show ?thesis using d p False by (simp add: sm_loop_fail)
    qed
  qed
qed

lemma single_match_plain: "plain p \<Longrightarrow> single_match p n \<longleftrightarrow> p = n"
  by (simp add: single_match_def sm_loop_plain)

lemma plain_valid: "plain s \<Longrightarrow> valid_glob s"
  by (induction s) (auto simp: plain_def)

lemma plain_not_DblStar: "plain s \<Longrightarrow> s \<noteq> ''**''"
  by (auto simp: plain_def)

section \<open>Compiled patterns\<close>

lemma compile_anchored:
  assumes "compile p = Some c"
  shows "segs c \<noteq> []" and "\<not> anchored c \<Longrightarrow> length (segs c) = 1"
proof -
  obtain work where c: "segs c = map (\<lambda>rs. if rs = ''**'' then DblStar else Lit rs)
        (split_on (CHR ''/'') (trim_prefix work ''/''))"
    and a: "anchored c \<longleftrightarrow> has_prefix work ''/'' \<or> contains work ''/''"
    using assms by (auto simp: compile_def Let_def split: if_splits)
  show "segs c \<noteq> []" by (simp add: c)
  assume "\<not> anchored c"
  then have "CHR ''/'' \<notin> set (trim_prefix work ''/'')"
    using a by (auto simp: contains_single trim_prefix_def)
  then show "length (segs c) = 1" by (simp add: c split_on_none)
qed

lemma compile_valid:
  "compile p = Some c \<Longrightarrow> Lit l \<in> set (segs c) \<Longrightarrow> valid_glob l"
  by (auto simp: compile_def Let_def list_all_iff split: if_splits)

lemma matcher_append:
  "matcher_match (new_matcher (ps @ qs)) path \<longleftrightarrow>
   matcher_match (new_matcher ps) path \<or> matcher_match (new_matcher qs) path"
  by (auto simp: matcher_match_def new_matcher_def List.map_filter_def Let_def)

lemma matcher_single:
  "compile p = None \<Longrightarrow> \<not> matcher_match (new_matcher [p]) path"
  by (simp add: matcher_match_def new_matcher_def List.map_filter_def)

lemma matcher_in:
  "p \<in> set ps \<Longrightarrow> matcher_match (new_matcher [p]) path \<Longrightarrow> matcher_match (new_matcher ps) path"
  by (metis append_Cons append_Nil matcher_append split_list)

lemma slash_star_not_space: "CHR ''/'' \<notin> space_bytes" "CHR ''*'' \<notin> space_bytes"
  by (simp_all add: space_bytes_def space_runes_def)

lemma compile_dir:
  assumes "plain d" and "d \<noteq> []" and "CHR ''/'' \<notin> set d" and "hd d \<noteq> CHR ''!''"
  shows "compile (d @ ''/**'') = Some \<lparr>anchored = True, dirOnly = False, segs = [Lit d, DblStar]\<rparr>"
proof -
  have "CHR ''/'' \<in> set (trim_space (d @ ''/**''))"
    by (intro trim_space_keeps slash_star_not_space) simp
  then have ne: "trim_space (d @ ''/**'') \<noteq> []" by (metis empty_iff empty_set)
  have "\<not> has_prefix (d @ ''/**'') ''!''" and "\<not> has_prefix (d @ ''/**'') ''/''"
    using assms by (cases d; auto simp: has_prefix_def)+
  moreover have "\<not> has_suffix (d @ ''/**'') ''/''"
    by (auto simp: has_suffix_iff dest: arg_cong [of _ _ last])
  moreover have "split_on (CHR ''/'') (d @ ''/**'') = [d, ''**'']"
    using assms(3) split_on_append [of "CHR ''/''" d "''**''"] by simp
  moreover have "contains (d @ ''/**'') ''/''" by (simp add: contains_single)
  ultimately show ?thesis
    using ne assms plain_valid plain_not_DblStar
    by (simp add: compile_def trim_suffix_def trim_prefix_def Let_def)
qed

text \<open>The deny pattern the documentation uses, \<open>dir/**\<close>: everything below (and at) \<open>dir\<close>.\<close>

lemma match_dir:
  assumes "plain d" and "d \<noteq> []" and "CHR ''/'' \<notin> set d" and "hd d \<noteq> CHR ''!''"
    and "path \<noteq> []" and "hd path \<noteq> CHR ''/''"
  shows "matcher_match (new_matcher [d @ ''/**'']) path \<longleftrightarrow> hd (split_on (CHR ''/'') path) = d"
proof -
  have "trim_prefix path ''/'' = path"
    using assms(5,6) by (cases path) (auto simp: trim_prefix_def has_prefix_def)
  moreover have "match_from False [Lit d, DblStar] ps \<longleftrightarrow> hd ps = d" if "ps \<noteq> []" for ps
    using that assms(1) by (cases ps) (auto simp: single_match_plain list_ex_iff intro!: bexI [of _ "length (tl ps)"])
  ultimately show ?thesis
    using compile_dir [OF assms(1-4)] assms(5)
    by (simp add: matcher_match_def new_matcher_def List.map_filter_def pat_match_def)
qed

end
