(* ===== verification/PushProxy.thy ===== *)
theory PushProxy
  imports PushEnforce Pathmatch
begin

text \<open>
  The proxy's push path (\<open>internal/gitproto/proxy.go\<close>): reading and parsing the request,
  inspecting it against the mirror, forwarding it, or answering with a report-status deny and
  removing the ingested pack. The state a request works on is the record \<open>world\<close>: the
  repository's mirror, the stream to the agent, what was sent upstream, and the audit events
  and alerts that were recorded. The sinks, the upstream and the mirror opener are fields of
  the record \<open>proxy\<close>, as they are in the code.
\<close>

section \<open>State\<close>

record 'r world =
  w_mirror :: "'r mirror"
  w_client :: writer
  w_sent :: "(string \<times> string \<times> string) list"
  w_events :: "audit_event list"
  w_alerts :: "alert list"

record 'r proxy =
  px_env :: "'r env"
  px_gogit :: gogit
  px_engine :: "engine option"
  px_opener :: "(string \<Rightarrow> 'r mirror \<Rightarrow> 'r mirror \<times> go_error option) option"
  px_max :: int
  px_read_deny :: "pattern list option"
  px_audit :: "(audit_event \<Rightarrow> go_error option) option"
  px_alert :: "(alert \<Rightarrow> go_error option) option"
  px_transport :: string
  px_dry_run :: bool
  px_receive :: "string \<Rightarrow> string \<Rightarrow> go_error + source"
  px_upload :: "string \<Rightarrow> string \<Rightarrow> go_error + source"

definition on_mirror :: "('r mirror \<Rightarrow> 'r mirror \<times> 'b) \<Rightarrow> 'r world \<Rightarrow> 'r world \<times> 'b" where
  "on_mirror f w = (let (m', r) = f (w_mirror w) in (w\<lparr>w_mirror := m'\<rparr>, r))"

definition on_client :: "(writer \<Rightarrow> writer \<times> 'b) \<Rightarrow> 'r world \<Rightarrow> 'r world \<times> 'b" where
  "on_client f w = (let (c', r) = f (w_client w) in (w\<lparr>w_client := c'\<rparr>, r))"

text \<open>\<open>agentName\<close>: the identity in the context, or the empty name.\<close>

definition agent_name :: "string option \<Rightarrow> string" where
  "agent_name ctx = (case ctx of None \<Rightarrow> [] | Some a \<Rightarrow> a)"

section \<open>Audit and alerts\<close>

text \<open>A sink's error is logged and swallowed: the event counts as recorded, and nothing else changes.\<close>

definition record_alert ::
  "'r proxy \<Rightarrow> string \<Rightarrow> string \<Rightarrow> string \<Rightarrow> bool \<Rightarrow> string list \<Rightarrow> audit_ref list \<Rightarrow>
   string list \<Rightarrow> string list \<Rightarrow> 'r world \<Rightarrow> 'r world" where
  "record_alert px service agent repo dry reasons refs paths oids w =
     (case px_alert px of
        None \<Rightarrow> w
      | Some sink \<Rightarrow>
          w\<lparr>w_alerts := w_alerts w @
              [\<lparr>al_transport = px_transport px, al_agent = agent, al_repo = repo,
                al_service = service, al_verdict = ''deny'', al_dry_run = dry,
                al_reasons = reasons, al_refs = refs, al_denied_paths = paths,
                al_denied_oids = oids\<rparr>]\<rparr>)"

definition record_audit ::
  "'r proxy \<Rightarrow> string \<Rightarrow> string \<Rightarrow> string \<Rightarrow> string \<Rightarrow> string list \<Rightarrow> audit_ref list \<Rightarrow>
   string list \<Rightarrow> string list \<Rightarrow> bool \<Rightarrow> 'r world \<Rightarrow> 'r world" where
  "record_audit px service agent repo verdict reasons refs paths oids dry w =
     (let w1 =
        (case px_audit px of
           None \<Rightarrow> w
         | Some sink \<Rightarrow>
             w\<lparr>w_events := w_events w @
                 [\<lparr>ae_transport = px_transport px, ae_agent = agent, ae_repo = repo,
                   ae_service = service, ae_verdict = verdict, ae_reasons = reasons,
                   ae_refs = refs, ae_denied_paths = paths, ae_denied_oids = oids,
                   ae_dry_run = dry\<rparr>]\<rparr>)
      in if verdict = ''deny''
         then record_alert px service agent repo dry reasons refs paths oids w1 else w1)"

definition audit_refs :: "rp_request option \<Rightarrow> audit_ref list" where
  "audit_refs req =
     (case req of
        None \<Rightarrow> []
      | Some r \<Rightarrow>
          map (\<lambda>c. \<lparr>ar_ref = rp_ref c, ar_old = rp_old c, ar_new = rp_new c, ar_force = False\<rparr>)
              (rp_commands r))"

definition decision_reasons :: "decision \<Rightarrow> string list" where
  "decision_reasons dec = map r_message (d_reasons dec)"

definition verdict_string :: "verdict \<Rightarrow> string" where
  "verdict_string v = (if v = VerdictDeny then ''deny'' else ''allow'')"

definition record_push_audit ::
  "'r proxy \<Rightarrow> string option \<Rightarrow> string \<Rightarrow> rp_request option \<Rightarrow> decision \<Rightarrow> bool \<Rightarrow>
   'r world \<Rightarrow> 'r world" where
  "record_push_audit px ctx repo req dec dry =
     record_audit px ''git-receive-pack'' (agent_name ctx) repo (verdict_string (d_verdict dec))
       (decision_reasons dec) (audit_refs req) [] [] dry"

section \<open>The deny response\<close>

definition denied_refs :: "rp_request \<Rightarrow> string list" where
  "denied_refs req = map rp_ref (rp_commands req)"

definition all_caps :: "rp_request \<Rightarrow> string list" where
  "all_caps req = concat (map rp_caps (rp_commands req))"

definition has_report_status :: "rp_request \<Rightarrow> bool" where
  "has_report_status req \<longleftrightarrow>
     list_ex (\<lambda>c. c = ''report-status'' \<or> has_prefix c ''report-status='' \<or>
                  c = ''report-status-v2'' \<or> has_prefix c ''report-status-v2='') (all_caps req)"

definition sideband_type :: "rp_request \<Rightarrow> sideband" where
  "sideband_type req =
     (case find (\<lambda>c. c = ''side-band-64k'' \<or> has_prefix c ''side-band-64k='' \<or>
                     c = ''side-band'' \<or> has_prefix c ''side-band='') (all_caps req) of
        None \<Rightarrow> NoSideband
      | Some c \<Rightarrow>
          if c = ''side-band-64k'' \<or> has_prefix c ''side-band-64k='' then Sideband64k else Sideband)"

text \<open>The reply is encoded into a buffer first; an error of a write is logged.\<close>

definition write_deny_response :: "gogit \<Rightarrow> rp_request \<Rightarrow> decision \<Rightarrow> writer \<Rightarrow> writer" where
  "write_deny_response G req dec w =
     (if \<not> has_report_status req then w
      else
        (case encode_report_status_deny G fresh_writer (denied_refs req) dec of
           (_, Some e) \<Rightarrow> w
         | (buf, None) \<Rightarrow>
             (case sideband_type req of
                NoSideband \<Rightarrow> fst (wwrite w (wout buf))
              | t \<Rightarrow>
                  (case wwrite w (g_mux G t (wout buf)) of
                     (w', Some e) \<Rightarrow> w'
                   | (w', None) \<Rightarrow> fst (wwrite w' ''0000'')))))"

definition answer_deny ::
  "'r proxy \<Rightarrow> string option \<Rightarrow> string \<Rightarrow> rp_request \<Rightarrow> decision \<Rightarrow> 'r world \<Rightarrow> 'r world" where
  "answer_deny px ctx repo req dec w =
     record_push_audit px ctx repo (Some req) dec False
       (w\<lparr>w_client := write_deny_response (px_gogit px) req dec (w_client w)\<rparr>)"

section \<open>Receive-pack\<close>

definition forward_receive_pack ::
  "'r proxy \<Rightarrow> string \<Rightarrow> string \<Rightarrow> 'r world \<Rightarrow> 'r world \<times> go_error option" where
  "forward_receive_pack px repo buf w0 =
     (let w = w0\<lparr>w_sent := w_sent w0 @ [(''git-receive-pack'', repo, buf)]\<rparr> in
      case px_receive px repo buf of
        Inl e \<Rightarrow> (w, Some (''gitproto: receive-pack: '' @ e))
      | Inr rc \<Rightarrow> on_client (forward_stream (g_omax (px_gogit px)) rc) w)"

definition too_large :: decision where
  "too_large = enforcement ''push rejected: packfile too large''"

definition mirror_unavailable :: decision where
  "mirror_unavailable = enforcement ''push rejected: inspection mirror unavailable''"

text \<open>
  The last part of the enforced path, once the packfile is in the mirror: decide, then
  forward or deny.
\<close>

definition decide_push ::
  "'r proxy \<Rightarrow> engine \<Rightarrow> string option \<Rightarrow> string \<Rightarrow> string \<Rightarrow> rp_request \<Rightarrow> string \<Rightarrow>
   'r world \<Rightarrow> 'r world \<times> go_error option" where
  "decide_push px eng ctx repo buf req pack_id w0 =
     (let (w, dec, err) =
        on_mirror (enforce_receive_pack (px_env px) eng req (agent_name ctx) repo pack_id) w0 in
      if d_verdict dec = VerdictAllow then
        forward_receive_pack px repo buf (record_push_audit px ctx repo (Some req) dec False w)
      else if px_dry_run px \<and> err = None then
        forward_receive_pack px repo buf (record_push_audit px ctx repo (Some req) dec True w)
      else
        (let w' = answer_deny px ctx repo req dec w in
         (if pack_id \<noteq> [] then fst (on_mirror (remove_pack (px_env px) pack_id) w') else w', None)))"

definition packfile_of :: "rp_request \<Rightarrow> string \<Rightarrow> string option" where
  "packfile_of req buf =
     (if 0 \<le> rp_offset req \<and> rp_offset req < int (length buf)
      then Some (drop (nat (rp_offset req)) buf) else None)"

definition ingest_push ::
  "'r proxy \<Rightarrow> rp_request \<Rightarrow> string \<Rightarrow> 'r world \<Rightarrow> 'r world \<times> (go_error + string)" where
  "ingest_push px req buf w =
     (case packfile_of req buf of
        None \<Rightarrow> (w, Inr [])
      | Some pack \<Rightarrow> on_mirror (ingest_packfile (px_env px) pack) w)"

definition receive_enforced ::
  "'r proxy \<Rightarrow> engine \<Rightarrow> (string \<Rightarrow> 'r mirror \<Rightarrow> 'r mirror \<times> go_error option) \<Rightarrow>
   string option \<Rightarrow> string \<Rightarrow> string \<Rightarrow> go_error + rp_request \<Rightarrow> 'r world \<Rightarrow>
   'r world \<times> go_error option" where
  "receive_enforced px eng opener ctx repo buf parsed w =
     (if int (length buf) > px_max px then
        (case parsed of
           Inl _ \<Rightarrow> (record_push_audit px ctx repo None too_large False w, None)
         | Inr req \<Rightarrow> (answer_deny px ctx repo req too_large w, None))
      else
        (case parsed of
           Inl _ \<Rightarrow>
             (record_audit px ''git-receive-pack'' (agent_name ctx) repo ''deny''
                [''push rejected: unparseable request''] [] [] [] False w, None)
         | Inr req \<Rightarrow>
             (case on_mirror (opener repo) w of
                (w1, Some e) \<Rightarrow> (answer_deny px ctx repo req mirror_unavailable w1, None)
              | (w1, None) \<Rightarrow>
                  (case on_mirror (refresh (px_env px)) w1 of
                     (w2, Inl e) \<Rightarrow> (answer_deny px ctx repo req mirror_unavailable w2, None)
                   | (w2, Inr _) \<Rightarrow>
                       (case ingest_push px req buf w2 of
                          (w3, Inl e) \<Rightarrow> (answer_deny px ctx repo req inspection_failed w3, None)
                        | (w3, Inr pack_id) \<Rightarrow>
                            decide_push px eng ctx repo buf req pack_id w3)))))"

definition receive_pack ::
  "'r proxy \<Rightarrow> string option \<Rightarrow> string \<Rightarrow> source \<Rightarrow> 'r world \<Rightarrow> 'r world \<times> go_error option" where
  "receive_pack px ctx repo body w =
     (let enforce = (px_engine px \<noteq> None \<and> px_opener px \<noteq> None) in
      case (if enforce then read_limited (px_max px + 1) body else read_all body) of
        Inl e \<Rightarrow> (w, Some (''gitproto: read receive-pack request: '' @ e))
      | Inr buf \<Rightarrow>
          (let parsed = parse_receive_pack (g_omax (px_gogit px)) (bytes_source buf) in
           if \<not> enforce then
             forward_receive_pack px repo buf
               (record_audit px ''git-receive-pack'' (agent_name ctx) repo ''allow'' []
                  (audit_refs (case parsed of Inl _ \<Rightarrow> None | Inr r \<Rightarrow> Some r)) [] [] False w)
           else receive_enforced px (the (px_engine px)) (the (px_opener px)) ctx repo buf parsed w))"

section \<open>Frame laws\<close>

lemma on_mirror_sel [simp]:
  "on_mirror f w = (w', r) \<Longrightarrow> w_sent w' = w_sent w"
  "on_mirror f w = (w', r) \<Longrightarrow> w_client w' = w_client w"
  "on_mirror f w = (w', r) \<Longrightarrow> w_events w' = w_events w"
  "on_mirror f w = (w', r) \<Longrightarrow> w_alerts w' = w_alerts w"
  by (auto simp: on_mirror_def Let_def split: prod.splits)

lemma on_mirror_fst [simp]:
  "w_sent (fst (on_mirror f w)) = w_sent w" "w_client (fst (on_mirror f w)) = w_client w"
  "w_events (fst (on_mirror f w)) = w_events w" "w_alerts (fst (on_mirror f w)) = w_alerts w"
  by (simp_all add: on_mirror_def Let_def split: prod.splits)

lemma on_client_sel [simp]:
  "w_sent (fst (on_client f w)) = w_sent w" "w_mirror (fst (on_client f w)) = w_mirror w"
  "w_events (fst (on_client f w)) = w_events w" "w_alerts (fst (on_client f w)) = w_alerts w"
  by (simp_all add: on_client_def Let_def split: prod.splits)

lemma record_alert_sel [simp]:
  "w_sent (record_alert px s a r d rs refs ps os w) = w_sent w"
  "w_client (record_alert px s a r d rs refs ps os w) = w_client w"
  "w_mirror (record_alert px s a r d rs refs ps os w) = w_mirror w"
  "w_events (record_alert px s a r d rs refs ps os w) = w_events w"
  by (simp_all add: record_alert_def split: option.splits)

lemma record_audit_sel [simp]:
  "w_sent (record_audit px s a r v rs refs ps os d w) = w_sent w"
  "w_client (record_audit px s a r v rs refs ps os d w) = w_client w"
  "w_mirror (record_audit px s a r v rs refs ps os d w) = w_mirror w"
  by (simp_all add: record_audit_def Let_def split: option.splits)

lemma record_push_audit_sel [simp]:
  "w_sent (record_push_audit px c r q dec d w) = w_sent w"
  "w_client (record_push_audit px c r q dec d w) = w_client w"
  "w_mirror (record_push_audit px c r q dec d w) = w_mirror w"
  by (simp_all add: record_push_audit_def)

lemma answer_deny_sel [simp]:
  "w_sent (answer_deny px c r q dec w) = w_sent w"
  "w_mirror (answer_deny px c r q dec w) = w_mirror w"
  "w_client (answer_deny px c r q dec w) = write_deny_response (px_gogit px) q dec (w_client w)"
  by (simp_all add: answer_deny_def)

lemma forward_sent: "w_sent (fst (forward_receive_pack px repo buf w)) =
    w_sent w @ [(''git-receive-pack'', repo, buf)]"
  by (simp add: forward_receive_pack_def Let_def split: sum.splits)

lemma ingest_push_sel:
  "ingest_push px req buf w = (w', r) \<Longrightarrow> w_sent w' = w_sent w \<and> w_client w' = w_client w
     \<and> w_events w' = w_events w \<and> w_alerts w' = w_alerts w"
  by (auto simp: ingest_push_def split: option.splits)

section \<open>When a push reaches the upstream\<close>

text \<open>
  The inspection of a push up to the decision: the mirror is opened and refreshed and the pack
  ingested without an error, and the enforcement step returns the decision and its error.
\<close>

definition inspected ::
  "'r proxy \<Rightarrow> engine \<Rightarrow> (string \<Rightarrow> 'r mirror \<Rightarrow> 'r mirror \<times> go_error option) \<Rightarrow>
   string option \<Rightarrow> string \<Rightarrow> string \<Rightarrow> rp_request \<Rightarrow> 'r mirror \<Rightarrow>
   string \<Rightarrow> 'r mirror \<Rightarrow> decision \<Rightarrow> go_error option \<Rightarrow> bool" where
  "inspected px eng opener ctx repo buf req m pid m' dec err \<longleftrightarrow>
     (\<exists>m1 m2 m3. opener repo m = (m1, None) \<and> refresh (px_env px) m1 = (m2, Inr ()) \<and>
        (case packfile_of req buf of
           None \<Rightarrow> m3 = m2 \<and> pid = []
         | Some pack \<Rightarrow> ingest_packfile (px_env px) pack m2 = (m3, Inr pid)) \<and>
        enforce_receive_pack (px_env px) eng req (agent_name ctx) repo pid m3 = (m', dec, err))"

text \<open>The same inspection as a function, for evaluation.\<close>

definition inspect_run ::
  "'r proxy \<Rightarrow> engine \<Rightarrow> (string \<Rightarrow> 'r mirror \<Rightarrow> 'r mirror \<times> go_error option) \<Rightarrow>
   string option \<Rightarrow> string \<Rightarrow> string \<Rightarrow> rp_request \<Rightarrow> 'r mirror \<Rightarrow>
   (string \<times> 'r mirror \<times> decision \<times> go_error option) option" where
  "inspect_run px eng opener ctx repo buf req m =
     (case opener repo m of
        (m1, Some e) \<Rightarrow> None
      | (m1, None) \<Rightarrow>
          (case refresh (px_env px) m1 of
             (m2, Inl e) \<Rightarrow> None
           | (m2, Inr _) \<Rightarrow>
               (case (case packfile_of req buf of None \<Rightarrow> (m2, Inr [])
                      | Some pack \<Rightarrow> ingest_packfile (px_env px) pack m2) of
                  (m3, Inl e) \<Rightarrow> None
                | (m3, Inr pid) \<Rightarrow>
                    Some (pid, enforce_receive_pack (px_env px) eng req (agent_name ctx) repo pid m3))))"

lemma inspected_run:
  "inspect_run px eng opener ctx repo buf req m = Some (pid, m', dec, err) \<Longrightarrow>
   inspected px eng opener ctx repo buf req m pid m' dec err"
  by (auto simp: inspect_run_def inspected_def split: prod.splits option.splits sum.splits)

text \<open>
  The cases of the enforced path: the push is decided, or it is refused before a decision,
  and then nothing is sent.
\<close>

lemma decide_push_sent:
  assumes "decide_push px eng ctx repo buf req pid w = (w', e)"
    and "enforce_receive_pack (px_env px) eng req (agent_name ctx) repo pid (w_mirror w) = (m', dec, err)"
  shows "w_sent w' = w_sent w @
    (if d_verdict dec = VerdictAllow \<or> (px_dry_run px \<and> err = None)
     then [(''git-receive-pack'', repo, buf)] else [])"
proof -
  have o: "on_mirror (enforce_receive_pack (px_env px) eng req (agent_name ctx) repo pid) w =
      (w\<lparr>w_mirror := m'\<rparr>, dec, err)"
    using assms(2) by (simp add: on_mirror_def)
  then have "w' = fst (decide_push px eng ctx repo buf req pid w)" using assms(1) by simp
  then show ?thesis
    using o by (auto simp: decide_push_def Let_def forward_sent)
qed

lemma receive_enforced_cases:
  assumes "receive_enforced px eng opener ctx repo buf parsed w = (w', e)"
  shows "(w_sent w' = w_sent w \<and> e = None) \<or>
    (\<exists>req w3 pid m' dec err. parsed = Inr req \<and> int (length buf) \<le> px_max px \<and>
       inspected px eng opener ctx repo buf req (w_mirror w) pid m' dec err \<and>
       enforce_receive_pack (px_env px) eng req (agent_name ctx) repo pid (w_mirror w3) = (m', dec, err) \<and>
       w_sent w3 = w_sent w \<and> w_client w3 = w_client w \<and> w_events w3 = w_events w \<and>
       w_alerts w3 = w_alerts w \<and> decide_push px eng ctx repo buf req pid w3 = (w', e))"
proof (cases "int (length buf) > px_max px \<or> (\<exists>x. parsed = Inl x)")
  case True
  then show ?thesis
    using assms by (auto simp: receive_enforced_def split: sum.splits if_splits)
next
  case False
  then obtain req where req: "parsed = Inr req" and len: "int (length buf) \<le> px_max px"
    by (metis not_le obj_sumE)
  obtain m1 r1 where o1: "opener repo (w_mirror w) = (m1, r1)" by fastforce
  obtain m2 r2 where o2: "refresh (px_env px) m1 = (m2, r2)" by fastforce
  let ?w1 = "w\<lparr>w_mirror := m1\<rparr>" and ?w2 = "w\<lparr>w_mirror := m2\<rparr>"
  have w1: "on_mirror (opener repo) w = (?w1, r1)" and w2: "on_mirror (refresh (px_env px)) ?w1 = (?w2, r2)"
    using o1 o2 by (simp_all add: on_mirror_def)
  obtain w3 r3 where w3: "ingest_push px req buf ?w2 = (w3, r3)" by fastforce
  note same = ingest_push_sel [OF w3]
  show ?thesis
  proof (cases "r1 = None \<and> isl r2 = False \<and> isl r3 = False")
    case False
    then show ?thesis
      using assms req len w1 w2 w3 same
      by (auto simp: receive_enforced_def split: sum.splits option.splits)
  next
    case True
    then obtain pid where ok: "r1 = None" "r2 = Inr ()" "r3 = Inr pid"
      by (cases r2; cases r3) auto
    obtain m' dec err where en:
      "enforce_receive_pack (px_env px) eng req (agent_name ctx) repo pid (w_mirror w3) = (m', dec, err)"
      by (metis prod_cases3)
    have "inspected px eng opener ctx repo buf req (w_mirror w) pid m' dec err"
      unfolding inspected_def using o1 o2 w3 en ok
      by (intro exI [of _ m1] exI [of _ m2] exI [of _ "w_mirror w3"])
         (auto simp: ingest_push_def on_mirror_def Let_def split: option.splits prod.splits)
    moreover have "decide_push px eng ctx repo buf req pid w3 = (w', e)"
      using assms req len w1 w2 w3 ok by (simp add: receive_enforced_def)
    ultimately show ?thesis using req len same en by auto
  qed
qed

end
