(* ===== verification/GoPath.thy ===== *)
theory GoPath
  imports Prelude
begin

text \<open>
  \<open>path.Match\<close> of Go's standard library, which the branch rules and the repository
  allowlists use, byte for byte: the pattern is cut into chunks at its stars, a chunk is
  matched against the start of the name, and a star skips bytes other than the slash.
  \<open>None\<close> is \<open>ErrBadPattern\<close>.
\<close>

section \<open>UTF-8\<close>

definition cont_byte :: "char \<Rightarrow> nat \<Rightarrow> nat \<Rightarrow> bool" where
  "cont_byte c lo hi \<longleftrightarrow> lo \<le> of_char c \<and> of_char c \<le> (hi::nat)"

definition rune_error :: "nat \<times> nat" where
  "rune_error = (0xFFFD, 1)"

text \<open>\<open>utf8.DecodeRuneInString\<close>: the rune and its width.\<close>

definition decode_rune :: "string \<Rightarrow> nat \<times> nat" where
  "decode_rune s =
     (case s of
        [] \<Rightarrow> (0xFFFD, 0)
      | b0 # t \<Rightarrow>
          (let n0 = (of_char b0 :: nat) in
           if n0 < 0x80 then (n0, 1)
           else if 0xC2 \<le> n0 \<and> n0 \<le> 0xDF then
             (case t of
                b1 # _ \<Rightarrow> if cont_byte b1 0x80 0xBF
                          then ((n0 - 0xC0) * 64 + (of_char b1 - 0x80), 2) else rune_error
              | _ \<Rightarrow> rune_error)
           else if 0xE0 \<le> n0 \<and> n0 \<le> 0xEF then
             (case t of
                b1 # b2 # _ \<Rightarrow>
                  if cont_byte b1 (if n0 = 0xE0 then 0xA0 else 0x80) (if n0 = 0xED then 0x9F else 0xBF)
                     \<and> cont_byte b2 0x80 0xBF
                  then ((n0 - 0xE0) * 4096 + (of_char b1 - 0x80) * 64 + (of_char b2 - 0x80), 3)
                  else rune_error
              | _ \<Rightarrow> rune_error)
           else if 0xF0 \<le> n0 \<and> n0 \<le> 0xF4 then
             (case t of
                b1 # b2 # b3 # _ \<Rightarrow>
                  if cont_byte b1 (if n0 = 0xF0 then 0x90 else 0x80) (if n0 = 0xF4 then 0x8F else 0xBF)
                     \<and> cont_byte b2 0x80 0xBF \<and> cont_byte b3 0x80 0xBF
                  then ((n0 - 0xF0) * 262144 + (of_char b1 - 0x80) * 4096
                        + (of_char b2 - 0x80) * 64 + (of_char b3 - 0x80), 4)
                  else rune_error
              | _ \<Rightarrow> rune_error)
           else rune_error))"

lemma decode_rune_width: "s \<noteq> [] \<Longrightarrow> 0 < snd (decode_rune s)"
  by (auto simp: decode_rune_def rune_error_def Let_def split: list.splits)

section \<open>Chunks\<close>

fun scan_len :: "bool \<Rightarrow> string \<Rightarrow> nat" where
  "scan_len inr [] = 0"
| "scan_len inr (c # p) =
     (if c = CHR 0x5C then (case p of [] \<Rightarrow> 1 | _ # p' \<Rightarrow> 2 + scan_len inr p')
      else if c = CHR ''['' then 1 + scan_len True p
      else if c = CHR '']'' then 1 + scan_len False p
      else if c = CHR ''*'' \<and> \<not> inr then 0
      else 1 + scan_len inr p)"

definition scan_chunk :: "string \<Rightarrow> bool \<times> string \<times> string" where
  "scan_chunk p =
     (let p' = dropWhile (\<lambda>c. c = CHR ''*'') p; i = scan_len False p' in
      (p \<noteq> [] \<and> hd p = CHR ''*'', take i p', drop i p'))"

definition get_esc :: "string \<Rightarrow> (nat \<times> string) option" where
  "get_esc chunk =
     (if chunk = [] \<or> hd chunk = CHR ''-'' \<or> hd chunk = CHR '']'' then None
      else
        (let c = (if hd chunk = CHR 0x5C then tl chunk else chunk) in
         if c = [] then None
         else
           (let (r, w) = decode_rune c; rest = drop w c in
            if (r = 0xFFFD \<and> w = 1) \<or> rest = [] then None else Some (r, rest))))"

lemma get_esc_shorter: "get_esc c = Some (r, rest) \<Longrightarrow> length rest < length c"
  using decode_rune_width [of c] decode_rune_width [of "tl c"]
  by (auto simp: get_esc_def Let_def split: if_splits prod.splits)

text \<open>The ranges of a class up to its \<open>]\<close>: whether \<open>r\<close> is in one, and the rest.\<close>

function class_parse :: "nat \<Rightarrow> string \<Rightarrow> bool \<Rightarrow> nat \<Rightarrow> (bool \<times> string) option" where
  "class_parse r chunk m nrange =
     (if chunk \<noteq> [] \<and> hd chunk = CHR '']'' \<and> nrange > 0 then Some (m, tl chunk)
      else
        (case get_esc chunk of
           None \<Rightarrow> None
         | Some (lo, rest) \<Rightarrow>
             if hd rest = CHR ''-'' then
               (case get_esc (tl rest) of
                  None \<Rightarrow> None
                | Some (hi, rest') \<Rightarrow>
                    class_parse r rest' (m \<or> (lo \<le> r \<and> r \<le> hi)) (Suc nrange))
             else class_parse r rest (m \<or> lo = r) (Suc nrange)))"
  by pat_completeness auto
termination
  by (relation "measure (\<lambda>(r, chunk, m, nrange). length chunk)")
     (auto dest!: get_esc_shorter)

declare class_parse.simps [simp del]

lemma class_parse_shorter:
  "class_parse r chunk m k = Some (b, rest) \<Longrightarrow> length rest < length chunk"
proof (induction r chunk m k rule: class_parse.induct)
  case (1 r chunk m nrange)
  show ?case
  proof (cases "chunk \<noteq> [] \<and> hd chunk = CHR '']'' \<and> nrange > 0")
    case True
    then show ?thesis using "1.prems" by (subst (asm) class_parse.simps) auto
  next
    case False
    then obtain lo r1 where lo: "get_esc chunk = Some (lo, r1)"
      using "1.prems" by (subst (asm) class_parse.simps) (auto split: option.splits)
    show ?thesis
    proof (cases "hd r1 = CHR ''-''")
      case True
      then obtain hi r2 where hi: "get_esc (tl r1) = Some (hi, r2)"
        using "1.prems" False lo by (subst (asm) class_parse.simps) (auto split: option.splits)
      have "length rest < length r2"
        using "1.prems" by (intro "1.IH"(1) [OF False lo refl True hi refl])
          (simp add: class_parse.simps [of r chunk] False lo True hi)
      then show ?thesis using get_esc_shorter [OF lo] get_esc_shorter [OF hi] by simp
    next
      case no: False
      have "length rest < length r1"
        using "1.prems" by (intro "1.IH"(2) [OF False lo refl no])
          (simp add: class_parse.simps [of r chunk] False lo no)
      then show ?thesis using get_esc_shorter [OF lo] by simp
    qed
  qed
qed

text \<open>
  \<open>matchChunk\<close>: \<open>failed\<close> means the match has failed and only the syntax is still
  checked. The result is the rest of the name, if the chunk matches.
\<close>

function match_chunk :: "string \<Rightarrow> string \<Rightarrow> bool \<Rightarrow> string option option" where
  "match_chunk chunk s failed =
     (case chunk of
        [] \<Rightarrow> Some (if failed then None else Some s)
      | c # chunk' \<Rightarrow>
          (let failed' = (failed \<or> s = []) in
           if c = CHR ''['' then
             (let (r, w) = (if failed' then (0, 0) else decode_rune s);
                  s' = (if failed' then s else drop w s);
                  neg = (chunk' \<noteq> [] \<and> hd chunk' = CHR ''^'');
                  body = (if neg then tl chunk' else chunk') in
              case class_parse r body False 0 of
                None \<Rightarrow> None
              | Some (m, rest) \<Rightarrow> match_chunk rest s' (failed' \<or> m = neg))
           else if c = CHR ''?'' then
             match_chunk chunk' (if failed' then s else drop (snd (decode_rune s)) s)
                         (failed' \<or> hd s = CHR ''/'')
           else if c = CHR 0x5C then
             (case chunk' of
                [] \<Rightarrow> None
              | d # chunk'' \<Rightarrow>
                  match_chunk chunk'' (if failed' then s else tl s) (failed' \<or> d \<noteq> hd s))
           else match_chunk chunk' (if failed' then s else tl s) (failed' \<or> c \<noteq> hd s)))"
  by pat_completeness auto
termination
  by (relation "measure (\<lambda>(chunk, s, failed). length chunk)")
     (auto dest!: class_parse_shorter split: if_splits)

declare match_chunk.simps [simp del]

fun star_try :: "string \<Rightarrow> bool \<Rightarrow> string \<Rightarrow> string option option" where
  "star_try chunk fin [] = Some None"
| "star_try chunk fin (c # n) =
     (if c = CHR ''/'' then Some None
      else
        (case match_chunk chunk n False of
           None \<Rightarrow> None
         | Some None \<Rightarrow> star_try chunk fin n
         | Some (Some t) \<Rightarrow> if fin \<and> t \<noteq> [] then star_try chunk fin n else Some (Some t)))"

lemma scan_len_pos: "p \<noteq> [] \<Longrightarrow> hd p \<noteq> CHR ''*'' \<Longrightarrow> 0 < scan_len inr p"
  by (cases p) (auto split: list.splits)

lemma scan_chunk_shorter:
  "p \<noteq> [] \<Longrightarrow> scan_chunk p = (star, chunk, rest) \<Longrightarrow> length rest < length p"
proof -
  assume "p \<noteq> []" and sc: "scan_chunk p = (star, chunk, rest)"
  let ?p = "dropWhile (\<lambda>c. c = CHR ''*'') p"
  have rest: "rest = drop (scan_len False ?p) ?p" using sc by (auto simp: scan_chunk_def Let_def)
  show ?thesis
  proof (cases "?p = []")
    case True
    then show ?thesis using rest \<open>p \<noteq> []\<close> by (simp only: True drop_Nil) simp
  next
    case False
    then have "0 < scan_len False ?p" using hd_dropWhile scan_len_pos by blast
    then have "length rest < length ?p" using rest False by simp
    then show ?thesis using length_dropWhile_le order_less_le_trans by blast
  qed
qed

text \<open>The syntax check of what is left of the pattern once the match has failed.\<close>

function chunks_valid :: "string \<Rightarrow> bool" where
  "chunks_valid p =
     (if p = [] then True
      else (case scan_chunk p of (_, chunk, rest) \<Rightarrow>
              match_chunk chunk [] False \<noteq> None \<and> chunks_valid rest))"
  by pat_completeness auto
termination
  by (relation "measure length") (auto dest: scan_chunk_shorter [OF _ sym])

declare chunks_valid.simps [simp del]

definition no_match :: "string \<Rightarrow> bool option" where
  "no_match rest = (if chunks_valid rest then Some False else None)"

function path_match :: "string \<Rightarrow> string \<Rightarrow> bool option" where
  "path_match p name =
     (if p = [] then Some (name = [])
      else
        (case scan_chunk p of (star, chunk, rest) \<Rightarrow>
           if star \<and> chunk = [] then Some (CHR ''/'' \<notin> set name)
           else
             (case match_chunk chunk name False of
                None \<Rightarrow> None
              | Some mc \<Rightarrow>
                  (case mc of
                     Some t \<Rightarrow>
                       if t = [] \<or> rest \<noteq> [] then path_match rest t
                       else if star then
                         (case star_try chunk (rest = []) name of
                            None \<Rightarrow> None
                          | Some (Some t') \<Rightarrow> path_match rest t'
                          | Some None \<Rightarrow> no_match rest)
                       else no_match rest
                   | None \<Rightarrow>
                       if star then
                         (case star_try chunk (rest = []) name of
                            None \<Rightarrow> None
                          | Some (Some t') \<Rightarrow> path_match rest t'
                          | Some None \<Rightarrow> no_match rest)
                       else no_match rest))))"
  by pat_completeness auto
termination
  by (relation "measure (\<lambda>(p, name). length p)") (auto dest: scan_chunk_shorter [OF _ sym])

declare path_match.simps [simp del]

section \<open>Patterns without metacharacters\<close>

definition literal :: "string \<Rightarrow> bool" where
  "literal p \<longleftrightarrow> set p \<inter> {CHR ''*'', CHR ''?'', CHR ''['', CHR '']'', CHR 0x5C} = {}"

lemma match_chunk_nil: "match_chunk [] s failed = Some (if failed then None else Some s)"
  by (simp add: match_chunk.simps)

lemma match_chunk_literal:
  "literal p \<Longrightarrow> match_chunk p s failed =
     Some (if \<not> failed \<and> has_prefix s p then Some (drop (length p) s) else None)"
proof (induction p arbitrary: s failed)
  case Nil
  then show ?case by (simp add: match_chunk_nil has_prefix_def)
next
  case (Cons c p)
  then have c: "c \<noteq> CHR ''?''" "c \<noteq> CHR ''[''" "c \<noteq> CHR 0x5C" "literal p"
    by (auto simp: literal_def)
  show ?case
    using Cons.IH [OF c(4)] c(1-3)
    by (cases s) (auto simp: match_chunk.simps [of "c # p"] has_prefix_def Let_def)
qed

lemma scan_len_literal: "literal p \<Longrightarrow> scan_len False p = length p"
  by (induction p) (auto simp: literal_def)

lemma scan_len_literal_star: "literal p \<Longrightarrow> scan_len False (p @ CHR ''*'' # q) = length p"
  by (induction p) (auto simp: literal_def)

lemma literal_no_star: "literal p \<Longrightarrow> dropWhile (\<lambda>c. c = CHR ''*'') p = p"
  by (cases p) (auto simp: literal_def)

lemma path_match_nil: "path_match [] name = Some (name = [])"
  by (subst path_match.simps) simp

lemma path_match_literal: "literal p \<Longrightarrow> path_match p name = Some (p = name)"
proof (cases "p = []")
  case True
  then show ?thesis by (auto simp: path_match_nil)
next
  assume l: "literal p"
  case False
  then have "hd p \<noteq> CHR ''*''" using l by (cases p) (auto simp: literal_def)
  then have "scan_chunk p = (False, p, [])"
    using l by (simp add: scan_chunk_def literal_no_star scan_len_literal)
  then show ?thesis
    using False l
    by (subst path_match.simps)
       (auto simp: match_chunk_literal path_match_nil no_match_def chunks_valid.simps has_prefix_def)
qed

text \<open>A literal followed by one star: the literal, then anything without a slash.\<close>

lemma path_match_prefix:
  assumes "literal p" and "p \<noteq> []"
  shows "path_match (p @ ''*'') name = Some (\<exists>t. name = p @ t \<and> CHR ''/'' \<notin> set t)"
proof -
  have hd: "hd p \<noteq> CHR ''*''" using assms by (cases p) (auto simp: literal_def)
  have dw: "dropWhile (\<lambda>c. c = CHR ''*'') (p @ ''*'') = p @ ''*''"
    using assms hd by (cases p) auto
  have sc: "scan_chunk (p @ ''*'') = (False, p, ''*'')"
    using assms hd dw scan_len_literal_star [of p "[]"] by (simp add: scan_chunk_def)
  have star: "path_match ''*'' t = Some (CHR ''/'' \<notin> set t)" for t
    by (subst path_match.simps) (simp add: scan_chunk_def)
  have "chunks_valid ''*''"
    by (subst chunks_valid.simps) (simp add: scan_chunk_def match_chunk_nil chunks_valid.simps)
  then show ?thesis
    using assms
    by (subst path_match.simps)
       (auto simp: sc match_chunk_literal star no_match_def has_prefix_iff)
qed

end
