(* ===== verification/Secret.thy ===== *)
theory Secret
  imports Port Complex_Main
begin

text \<open>
  The secret scanner (\<open>internal/secret/regex/scanner.go\<close>). The built-in patterns are
  modelled exactly: each is a list of alternatives, each alternative a sequence of byte
  classes, and \<open>find_seq\<close> is the leftmost match. A configured pattern is compiled by Go's
  regexp package, whose \<open>Compile\<close> is the parameter \<open>re_compile\<close>: a compiled pattern is the
  function \<open>FindStringIndex\<close>.

  The entropy of a run is a float in the code; the test against the threshold is decided
  here in whole numbers, and \<open>entropic_shannon\<close> shows that this is the test of the code's
  formula over the reals.
\<close>

section \<open>Patterns\<close>

type_synonym regexp = "string \<Rightarrow> (nat \<times> nat) option"

record secret_pattern =
  p_regex :: string
  p_name :: string

definition char_between :: "char \<Rightarrow> char \<Rightarrow> char \<Rightarrow> bool" where
  "char_between lo hi c \<longleftrightarrow> of_char lo \<le> (of_char c :: nat) \<and> of_char c \<le> (of_char hi :: nat)"

definition upper :: "char \<Rightarrow> bool" where "upper = char_between (CHR ''A'') (CHR ''Z'')"
definition lower :: "char \<Rightarrow> bool" where "lower = char_between (CHR ''a'') (CHR ''z'')"
definition digit :: "char \<Rightarrow> bool" where "digit = char_between (CHR ''0'') (CHR ''9'')"

definition alnum :: "char \<Rightarrow> bool" where
  "alnum c \<longleftrightarrow> upper c \<or> lower c \<or> digit c"

definition lits :: "string \<Rightarrow> (char \<Rightarrow> bool) list" where
  "lits s = map (\<lambda>d c. c = d) s"

fun seq_matches :: "(char \<Rightarrow> bool) list \<Rightarrow> string \<Rightarrow> bool" where
  "seq_matches [] s = True"
| "seq_matches (p # ps) [] = False"
| "seq_matches (p # ps) (c # s) = (p c \<and> seq_matches ps s)"

fun find_from :: "(char \<Rightarrow> bool) list list \<Rightarrow> nat \<Rightarrow> string \<Rightarrow> (nat \<times> nat) option" where
  "find_from alts i s =
     (case find (\<lambda>ps. seq_matches ps s) alts of
        Some ps \<Rightarrow> Some (i, i + length ps)
      | None \<Rightarrow> (case s of [] \<Rightarrow> None | c # s' \<Rightarrow> find_from alts (Suc i) s'))"

declare find_from.simps [simp del]

definition find_seq :: "(char \<Rightarrow> bool) list list \<Rightarrow> regexp" where
  "find_seq alts line = find_from alts 0 line"

definition private_key_kinds :: "string list" where
  "private_key_kinds = [''RSA'', ''EC'', ''OPENSSH'', ''PGP'', ''DSA'', ''ECDSA'']"

definition builtins :: "((char \<Rightarrow> bool) list list \<times> string) list" where
  "builtins =
     [([lits ''AKIA'' @ replicate 16 (\<lambda>c. digit c \<or> upper c)], ''aws-access-key-id''),
      ([lits ''gh'' @ [\<lambda>c. c \<in> {CHR ''p'', CHR ''s''}] @ lits ''_'' @ replicate 36 alnum],
       ''github-pat''),
      ([lits ''glpat-'' @ replicate 20 (\<lambda>c. alnum c \<or> c \<in> {CHR ''_'', CHR ''-''})],
       ''gitlab-pat''),
      (map (\<lambda>k. lits (''-----BEGIN '' @ k @ '' PRIVATE KEY-----'')) private_key_kinds,
       ''private-key'')]"

definition entropy_char :: "char \<Rightarrow> bool" where
  "entropy_char c \<longleftrightarrow> alnum c \<or> c \<in> {CHR ''+'', CHR ''/'', CHR ''='', CHR ''_'', CHR ''-''}"

text \<open>\<open>entropyRun.FindAllStringIndex\<close>: the maximal runs of at least 40 such bytes.\<close>

function entropy_runs :: "string \<Rightarrow> string list" where
  "entropy_runs s =
     (case s of
        [] \<Rightarrow> []
      | c # s' \<Rightarrow>
          if entropy_char c then
            (let run = takeWhile entropy_char s in
             (if 40 \<le> length run then [run] else []) @ entropy_runs (dropWhile entropy_char s))
          else entropy_runs s')"
  by pat_completeness auto
termination
  by (relation "measure length")
     (auto simp: le_imp_less_Suc length_dropWhile_le)

declare entropy_runs.simps [simp del]

section \<open>Entropy\<close>

text \<open>
  \<open>shannonEntropy(s) >= 4.5\<close>. With \<open>n\<close> bytes, of which each distinct one occurs \<open>c\<close>
  times, the entropy is \<open>log2 n - (\<Sum> c log2 c) / n\<close>.
\<close>

definition entropic :: "string \<Rightarrow> bool" where
  "entropic s \<longleftrightarrow>
     s \<noteq> [] \<and>
     2 ^ (9 * length s) * prod_list (map (\<lambda>c. count_list s c ^ (2 * count_list s c)) (remdups s))
       \<le> length s ^ (2 * length s)"

definition shannon_entropy :: "string \<Rightarrow> real" where
  "shannon_entropy s =
     (\<Sum>c \<in> set s. - (real (count_list s c) / real (length s))
                       * log 2 (real (count_list s c) / real (length s)))"

section \<open>Redaction\<close>

definition redacted :: string where
  "redacted = ''***REDACTED***''"

definition trim_snippet :: "string \<Rightarrow> string" where
  "trim_snippet s =
     (let t = trim_space s in if length t > 200 then take 200 t @ ''...'' else t)"

definition redact :: "string \<Rightarrow> string \<Rightarrow> string" where
  "redact line secret =
     (if secret = [] then redacted else trim_snippet (replace_all line secret redacted))"

section \<open>Scanning\<close>

record scanner_cfg =
  sn_extra :: "(regexp \<times> string) list"

fun new_scanner_from ::
  "(string \<Rightarrow> go_error + regexp) \<Rightarrow> secret_pattern list \<Rightarrow> (regexp \<times> string) list \<Rightarrow>
   go_error + scanner_cfg" where
  "new_scanner_from re_compile [] acc = Inr \<lparr>sn_extra = acc\<rparr>"
| "new_scanner_from re_compile (p # ps) acc =
     (if trim_space (p_regex p) = [] then new_scanner_from re_compile ps acc
      else
        (case re_compile (p_regex p) of
           Inl e \<Rightarrow> Inl (''secret/regex: pattern '' @ go_quote (p_name p) @ '': '' @ e)
         | Inr re \<Rightarrow> new_scanner_from re_compile ps (acc @ [(re, p_name p)])))"

definition secret_New ::
  "(string \<Rightarrow> go_error + regexp) \<Rightarrow> secret_pattern list \<Rightarrow> go_error + scanner_cfg" where
  "secret_New re_compile extra = new_scanner_from re_compile extra []"

definition make_allow_set :: "string list \<Rightarrow> string set" where
  "make_allow_set al = {t \<in> set (map trim_space al). t \<noteq> []}"

definition contains_raw :: "string \<Rightarrow> string set \<Rightarrow> bool" where
  "contains_raw raw allow \<longleftrightarrow> raw \<in> allow"

definition finding_of :: "string \<Rightarrow> nat \<Rightarrow> string \<Rightarrow> string \<Rightarrow> string \<Rightarrow> string set \<Rightarrow> finding" where
  "finding_of path lno rule line raw allow =
     \<lparr>fd_path = path, fd_line = lno, fd_rule = rule, fd_snippet = redact line raw,
      fd_suppressed = contains_raw raw allow\<rparr>"

text \<open>One pattern on one line: an empty match is skipped.\<close>

definition pattern_findings ::
  "string \<Rightarrow> nat \<Rightarrow> string \<Rightarrow> string set \<Rightarrow> regexp \<times> string \<Rightarrow> finding list" where
  "pattern_findings path lno line allow p =
     (case fst p line of
        None \<Rightarrow> []
      | Some (i, j) \<Rightarrow>
          if i = j then []
          else [finding_of path lno (snd p) line (take (j - i) (drop i line)) allow])"

definition entropy_finding :: "string \<Rightarrow> nat \<Rightarrow> string \<Rightarrow> string set \<Rightarrow> finding list" where
  "entropy_finding path lno line allow =
     (case find entropic (entropy_runs line) of
        None \<Rightarrow> []
      | Some run \<Rightarrow> [finding_of path lno ''high-entropy'' line run allow])"

definition line_findings ::
  "scanner_cfg \<Rightarrow> string \<Rightarrow> string set \<Rightarrow> nat \<Rightarrow> string \<Rightarrow> finding list" where
  "line_findings sc path allow lno line =
     concat (map (\<lambda>(alts, name). pattern_findings path lno line allow (find_seq alts, name)) builtins)
     @ concat (map (pattern_findings path lno line allow) (sn_extra sc))
     @ entropy_finding path lno line allow"

fun lines_findings ::
  "scanner_cfg \<Rightarrow> string \<Rightarrow> string set \<Rightarrow> nat \<Rightarrow> string list \<Rightarrow> finding list" where
  "lines_findings sc path allow lno [] = []"
| "lines_findings sc path allow lno (l # ls) =
     line_findings sc path allow lno l @ lines_findings sc path allow (Suc lno) ls"

definition secret_Scan :: "scanner_cfg \<Rightarrow> string \<Rightarrow> string \<Rightarrow> string list \<Rightarrow> finding list" where
  "secret_Scan sc path content al =
     (if index_byte content NUL \<noteq> None then []
      else lines_findings sc path (make_allow_set al) 1 (split_on NL content))"

section \<open>Properties of the entropy test\<close>

lemma log_pow_prod:
  assumes "\<forall>c \<in> S. 0 < f c" and "finite S"
  shows "log 2 (\<Prod>c \<in> S. real (f c) ^ (2 * f c)) = (\<Sum>c \<in> S. 2 * real (f c) * log 2 (real (f c)))"
  using assms(2,1)
proof (induction S rule: finite_induct)
  case empty
  then show ?case by simp
next
  case (insert x S)
  have "0 < (\<Prod>c \<in> S. real (f c) ^ (2 * f c))" using insert.prems by (intro prod_pos) auto
  then show ?case
    using insert by (simp add: log_mult log_nat_power)
qed

lemma sum_counts: "(\<Sum>c \<in> set s. count_list s c) = length s"
  by (rule sum_count_set) auto

lemma entropic_shannon: "s \<noteq> [] \<Longrightarrow> entropic s \<longleftrightarrow> 4.5 \<le> shannon_entropy s"
proof -
  assume s: "s \<noteq> []"
  define n where "n = length s"
  let ?c = "\<lambda>c. count_list s c"
  define P where "P = (\<Prod>c \<in> set s. real (?c c) ^ (2 * ?c c))"
  have n: "0 < n" using s by (simp add: n_def)
  have c: "\<forall>c \<in> set s. 0 < ?c c" using count_list_0_iff by (metis gr0I)
  have P: "0 < P" unfolding P_def using c by (intro prod_pos) auto
  have sum: "(\<Sum>c \<in> set s. real (?c c)) = real n"
    unfolding n_def using sum_counts [of s] by (metis of_nat_sum)
  have "shannon_entropy s = (\<Sum>c \<in> set s. real (?c c) / n * (log 2 n - log 2 (real (?c c))))"
    unfolding shannon_entropy_def n_def [symmetric]
    using n c by (intro sum.cong) (simp_all add: log_divide algebra_simps)
  also have "\<dots> = (\<Sum>c \<in> set s. real (?c c)) / n * log 2 n
                    - (\<Sum>c \<in> set s. real (?c c) * log 2 (real (?c c))) / n"
    by (simp add: sum_subtractf right_diff_distrib sum_distrib_right sum_divide_distrib)
  also have "\<dots> = log 2 n - log 2 P / (2 * n)"
    using n c by (simp add: P_def log_pow_prod sum sum_divide_distrib)
  finally have sh: "shannon_entropy s = log 2 n - log 2 P / (2 * n)" .
  have "prod_list (map (\<lambda>c. ?c c ^ (2 * ?c c)) (remdups s)) = (\<Prod>c \<in> set s. ?c c ^ (2 * ?c c))"
    using prod.distinct_set_conv_list [of "remdups s" "\<lambda>c. ?c c ^ (2 * ?c c)"] by simp
  then have "entropic s \<longleftrightarrow> 2 ^ (9 * n) * (\<Prod>c \<in> set s. ?c c ^ (2 * ?c c)) \<le> n ^ (2 * n)"
    unfolding entropic_def n_def using s by simp
  also have "\<dots> \<longleftrightarrow> real (2 ^ (9 * n) * (\<Prod>c \<in> set s. ?c c ^ (2 * ?c c))) \<le> real (n ^ (2 * n))"
    by (rule of_nat_le_iff [symmetric])
  also have "\<dots> \<longleftrightarrow> 2 ^ (9 * n) * P \<le> real n ^ (2 * n)"
    by (simp add: P_def)
  also have "\<dots> \<longleftrightarrow> log 2 (2 ^ (9 * n) * P) \<le> log 2 (real n ^ (2 * n))"
    using n P by (intro log_le_cancel_iff [symmetric]) auto
  also have "\<dots> \<longleftrightarrow> 9 * n + log 2 P \<le> 2 * n * log 2 n"
    using n P by (simp add: log_mult log_nat_power)
  also have "\<dots> \<longleftrightarrow> 4.5 \<le> shannon_entropy s"
    using n by (simp add: sh field_simps) linarith
  finally show ?thesis .
qed

section \<open>Properties of redaction\<close>

lemma contains_sep:
  assumes "contains (x @ c # y) old" and "c \<notin> set old"
  shows "contains x old \<or> contains y old"
proof -
  obtain a b where eq: "x @ c # y = a @ old @ b" using assms(1) by (auto simp: contains_iff)
  then consider (l) u where "x = a @ u" "u @ c # y = old @ b"
    | (r) u where "a = x @ u" "c # y = u @ old @ b"
    by (auto simp: append_eq_append_conv2)
  then show ?thesis
  proof cases
    case l
    then consider v where "u = old @ v" | v where "old = u @ v" "v \<noteq> []" "c # y = v @ b"
      by (metis append_eq_append_conv2 append_Nil2)
    then show ?thesis
    proof cases
      case 1
      then show ?thesis using l by (auto simp: contains_iff)
    next
      case 2
      then have "c \<in> set old" by (cases v) auto
      then show ?thesis using assms(2) by simp
    qed
  next
    case r
    show ?thesis
    proof (cases u)
      case Nil
      then have "c # y = old @ b" using r by simp
      then show ?thesis using assms(2) by (cases old) (auto simp: contains_iff)
    next
      case (Cons d u')
      then show ?thesis using r by (auto simp: contains_iff)
    qed
  qed
qed

lemma contains_seps:
  assumes "old \<noteq> []" and "set cs \<inter> set old = {}" and "cs \<noteq> []" and "contains (x @ cs @ y) old"
  shows "contains x old \<or> contains y old"
  using assms
proof (induction cs arbitrary: x)
  case Nil
  then show ?case by simp
next
  case (Cons c cs)
  then have "contains x old \<or> contains (cs @ y) old"
    using contains_sep [of x c "cs @ y" old] by auto
  then show ?case using Cons.IH [of "[]"] Cons.prems by (cases cs) auto
qed

lemma contains_infix: "contains s old \<Longrightarrow> contains (a @ s @ b) old"
  by (auto simp: contains_iff) (metis append.assoc)

lemma replace_all_prefix:
  "CHR ''*'' \<notin> set p \<Longrightarrow> has_prefix (replace_all s old redacted) p \<Longrightarrow> has_prefix s p"
proof (induction s arbitrary: p)
  case Nil
  then show ?case by (simp add: replace_all.simps)
next
  case (Cons x s)
  show ?case
  proof (cases "old \<noteq> [] \<and> has_prefix (x # s) old")
    case True
    then show ?thesis using Cons.prems
      by (cases p) (auto simp: replace_all.simps [of "x # s"] redacted_def has_prefix_def)
  next
    case False
    then have r: "replace_all (x # s) old redacted = x # replace_all s old redacted"
      by (auto simp: replace_all.simps [of "x # s"])
    then show ?thesis using Cons.prems Cons.IH [of "tl p"]
      by (cases p) (auto simp: has_prefix_def)
  qed
qed

lemma replace_all_masks:
  assumes "CHR ''*'' \<notin> set old" and "old \<noteq> []" and "\<not> contains ''REDACTED'' old"
  shows "\<not> contains (replace_all s old redacted) old"
proof (induction s rule: measure_induct_rule [of length])
  case (less s)
  show ?case
  proof (cases s)
    case Nil
    then show ?thesis using assms(2) by (simp add: replace_all.simps)
  next
    case (Cons x t)
    show ?thesis
    proof (cases "has_prefix s old")
      case True
      let ?R = "replace_all (drop (length old) s) old redacted"
      have r: "replace_all s old redacted = redacted @ ?R"
        using True assms(2) Cons by (subst replace_all.simps) auto
      have R: "\<not> contains ?R old" using less [of "drop (length old) s"] Cons assms(2) by auto
      have st: "set ''***'' \<inter> set old = {}" using assms(1) by auto
      have "\<not> contains (''REDACTED'' @ ''***'' @ ?R) old"
        using contains_seps [OF assms(2) st, of "''REDACTED''" ?R] assms(3) R by blast
      then have "\<not> contains ([] @ ''***'' @ (''REDACTED'' @ ''***'' @ ?R)) old"
        using contains_seps [OF assms(2) st, of "[]" "''REDACTED'' @ ''***'' @ ?R"] assms(2)
        by (metis contains.simps(1) list.distinct(1))
      moreover have "[] @ ''***'' @ (''REDACTED'' @ ''***'' @ ?R) = redacted @ ?R"
        by (simp add: redacted_def)
      ultimately show ?thesis by (simp only: r not_False_eq_True)
    next
      case False
      let ?R = "replace_all t old redacted"
      have r: "replace_all s old redacted = x # ?R"
        using False Cons by (subst replace_all.simps) auto
      have "\<not> has_prefix (x # ?R) old"
        using replace_all_prefix [OF assms(1), of s old] False r by auto
      then show ?thesis using less [of t] Cons r by simp
    qed
  qed
qed

text \<open>The snippet of a match never holds the match itself, for a secret of ordinary bytes.\<close>

lemma redact_masks:
  assumes "CHR ''*'' \<notin> set raw" and "CHR ''.'' \<notin> set raw" and "raw \<noteq> []"
    and "\<not> contains ''REDACTED'' raw"
  shows "\<not> contains (redact line raw) raw"
proof -
  let ?m = "replace_all line raw redacted"
  have m: "\<not> contains ?m raw" using replace_all_masks assms by blast
  obtain a b where ab: "?m = a @ trim_space ?m @ b" using trim_space_infix by blast
  then have t: "\<not> contains (trim_space ?m) raw" using m contains_infix by metis
  have "\<not> contains (take 200 (trim_space ?m)) raw"
    using t contains_infix [of "take 200 (trim_space ?m)" raw "[]" "drop 200 (trim_space ?m)"] by auto
  moreover have "set ''...'' \<inter> set raw = {}" using assms(2) by auto
  ultimately have "\<not> contains (take 200 (trim_space ?m) @ ''...'' @ []) raw"
    using contains_seps [OF assms(3), of "''...''" "take 200 (trim_space ?m)" "[]"] assms(3)
    by (metis contains.simps(1) list.distinct(1))
  then show ?thesis using t assms(3) by (auto simp: redact_def trim_snippet_def Let_def)
qed

section \<open>Properties of scanning\<close>

lemma find_in: "find P xs = Some x \<Longrightarrow> x \<in> set xs \<and> P x"
  by (auto simp: find_Some_iff)

lemma find_from_sound:
  "find_from alts i s = Some (j, k) \<Longrightarrow>
   \<exists>a b ps. s = a @ b \<and> j = i + length a \<and> ps \<in> set alts \<and> seq_matches ps b \<and> k = j + length ps"
proof (induction s arbitrary: i)
  case Nil
  then show ?case
    by (auto simp: find_from.simps [of alts i "[]"] dest!: find_in split: option.splits)
next
  case (Cons c s)
  show ?case
  proof (cases "find (\<lambda>ps. seq_matches ps (c # s)) alts")
    case None
    then have "find_from alts (Suc i) s = Some (j, k)"
      using Cons.prems by (simp add: find_from.simps [of alts i])
    then obtain a b ps where "s = a @ b" "j = Suc i + length a" "ps \<in> set alts" "seq_matches ps b"
      "k = j + length ps" using Cons.IH by blast
    then show ?thesis by (intro exI [of _ "c # a"] exI [of _ b] exI [of _ ps]) simp
  next
    case (Some ps)
    then have "j = i" "k = i + length ps" "ps \<in> set alts" "seq_matches ps (c # s)"
      using Cons.prems by (auto simp: find_from.simps [of alts i] dest!: find_in)
    then show ?thesis by (intro exI [of _ "[]"] exI [of _ "c # s"] exI [of _ ps]) simp
  qed
qed

lemma find_from_complete:
  "ps \<in> set alts \<Longrightarrow> seq_matches ps b \<Longrightarrow> find_from alts i (a @ b) \<noteq> None"
proof (induction a arbitrary: i)
  case Nil
  then have "find (\<lambda>ps. seq_matches ps b) alts \<noteq> None" by (auto simp: find_None_iff)
  then show ?case by (auto simp: find_from.simps [of alts i])
next
  case (Cons c a)
  then show ?case by (auto simp: find_from.simps [of alts i "c # _"] split: option.splits)
qed

lemma seq_matches_length: "seq_matches ps b \<Longrightarrow> length ps \<le> length b"
  by (induction ps b rule: seq_matches.induct) auto

lemma seq_matches_bytes:
  "seq_matches ps b \<Longrightarrow> \<forall>p \<in> set ps. \<not> p c \<Longrightarrow> c \<notin> set (take (length ps) b)"
  by (induction ps b rule: seq_matches.induct) auto

lemma contains_length: "contains s old \<Longrightarrow> length old \<le> length s"
  by (auto simp: contains_iff)

lemma list_all_replicate: "list_all P (replicate n x) \<longleftrightarrow> n = 0 \<or> P x"
  by (induction n) auto

lemma builtins_all:
  "list_all (\<lambda>(alts, name). list_all (\<lambda>ps. 20 \<le> length ps \<and>
     list_all (\<lambda>p. \<not> p (CHR ''*'') \<and> \<not> p (CHR ''.'')) ps) alts) builtins"
  by (simp add: builtins_def lits_def private_key_kinds_def list_all_replicate
      alnum_def upper_def lower_def digit_def char_between_def)

lemma builtins_wf:
  "(alts, name) \<in> set builtins \<Longrightarrow> ps \<in> set alts \<Longrightarrow>
   20 \<le> length ps \<and> (\<forall>p \<in> set ps. \<not> p (CHR ''*'') \<and> \<not> p (CHR ''.''))"
  using bspec [OF builtins_all [unfolded list_all_iff], of "(alts, name)"]
  unfolding prod.case by blast

lemma find_seq_raw:
  assumes "(alts, name) \<in> set builtins" and "find_seq alts line = Some (i, j)"
  defines "raw \<equiv> take (j - i) (drop i line)"
  shows "i \<noteq> j" and "contains line raw" and "20 \<le> length raw" and "\<not> contains (redact line raw) raw"
proof -
  obtain a b ps where ab: "line = a @ b" "i = length a" "ps \<in> set alts" "seq_matches ps b"
    "j = i + length ps"
    using find_from_sound [of alts 0 line i j] assms(2) by (auto simp: find_seq_def)
  then have raw: "raw = take (length ps) b" by (simp add: raw_def)
  note wf = builtins_wf [OF assms(1) ab(3)]
  show "i \<noteq> j" using conjunct1 [OF wf] ab(5) by linarith
  show len: "20 \<le> length raw" using conjunct1 [OF wf] seq_matches_length [OF ab(4)] raw by simp
  have "line = a @ raw @ drop (length ps) b" using ab raw by simp
  then show "contains line raw" by (auto simp: contains_iff)
  have "\<not> contains ''REDACTED'' raw" using contains_length [of "''REDACTED''" raw] len by auto
  then show "\<not> contains (redact line raw) raw"
    using seq_matches_bytes [OF ab(4), of "CHR ''*''"] seq_matches_bytes [OF ab(4), of "CHR ''.''"]
      conjunct2 [OF wf] raw len by (intro redact_masks) fastforce+
qed

lemma entropy_runs_raw:
  "run \<in> set (entropy_runs s) \<Longrightarrow>
   40 \<le> length run \<and> (\<forall>c \<in> set run. entropy_char c) \<and> contains s run"
proof (induction s rule: entropy_runs.induct)
  case (1 s)
  show ?case
  proof (cases s)
    case Nil
    then show ?thesis using "1.prems" by (simp add: entropy_runs.simps)
  next
    case (Cons c t)
    show ?thesis
    proof (cases "entropy_char c")
      case True
      then have "entropy_runs s = (if 40 \<le> length (takeWhile entropy_char s)
          then [takeWhile entropy_char s] else []) @ entropy_runs (dropWhile entropy_char s)"
        using Cons by (subst entropy_runs.simps) simp
      then have "run = takeWhile entropy_char s \<and> 40 \<le> length run
          \<or> run \<in> set (entropy_runs (dropWhile entropy_char s))"
        using "1.prems" by (auto split: if_splits)
      then show ?thesis
      proof
        assume r: "run = takeWhile entropy_char s \<and> 40 \<le> length run"
        then have "s = [] @ run @ dropWhile entropy_char s" by simp
        then have "contains s run" unfolding contains_iff by blast
        then show ?thesis using r by (auto dest: set_takeWhileD)
      next
        assume "run \<in> set (entropy_runs (dropWhile entropy_char s))"
        then show ?thesis
          using "1.IH"(1) [OF Cons True refl]
            contains_infix [of "dropWhile entropy_char s" run "takeWhile entropy_char s" "[]"]
          by simp
      qed
    next
      case False
      then have "entropy_runs s = entropy_runs t" using Cons by (subst entropy_runs.simps) simp
      then have "run \<in> set (entropy_runs t)" using "1.prems" by simp
      then show ?thesis using "1.IH"(2) [OF Cons False] Cons by auto
    qed
  qed
qed

lemma entropy_raw_masked:
  assumes "run \<in> set (entropy_runs line)"
  shows "\<not> contains (redact line run) run"
proof -
  note r = entropy_runs_raw [OF assms]
  have "\<not> contains ''REDACTED'' run" using contains_length [of "''REDACTED''" run] r by auto
  moreover have "\<not> entropy_char (CHR ''*'')" "\<not> entropy_char (CHR ''.'')"
    by (simp_all add: entropy_char_def alnum_def upper_def lower_def digit_def char_between_def)
  ultimately show ?thesis using r by (intro redact_masks) auto
qed

text \<open>The findings of the scanner without configured patterns, by their secret.\<close>

lemma line_findings_raw:
  assumes "f \<in> set (line_findings \<lparr>sn_extra = []\<rparr> path allow lno line)"
  shows "\<exists>raw. contains line raw \<and> 20 \<le> length raw \<and> \<not> contains (fd_snippet f) raw
               \<and> (fd_suppressed f \<longleftrightarrow> raw \<in> allow) \<and> fd_line f = lno"
proof -
  consider (pat) alts name where "(alts, name) \<in> set builtins"
      "f \<in> set (pattern_findings path lno line allow (find_seq alts, name))"
    | (ent) "f \<in> set (entropy_finding path lno line allow)"
    using assms by (auto simp: line_findings_def)
  then show ?thesis
  proof cases
    case pat
    then obtain i j where ij: "find_seq alts line = Some (i, j)"
        "f = finding_of path lno name line (take (j - i) (drop i line)) allow"
      by (cases "find_seq alts line") (auto simp: pattern_findings_def split: if_splits)
    show ?thesis
      using find_seq_raw [OF pat(1) ij(1)] ij(2)
      by (intro exI [of _ "take (j - i) (drop i line)"]) (simp add: finding_of_def contains_raw_def)
  next
    case ent
    then obtain run where run: "run \<in> set (entropy_runs line)"
        "f = finding_of path lno ''high-entropy'' line run allow"
      by (cases "find entropic (entropy_runs line)") (auto simp: entropy_finding_def dest!: find_in)
    show ?thesis
      using entropy_runs_raw [OF run(1)] entropy_raw_masked [OF run(1)] run(2)
      by (intro exI [of _ run]) (auto simp: finding_of_def contains_raw_def)
  qed
qed

lemma lines_findings_nth:
  "f \<in> set (lines_findings sc path allow lno ls) \<longleftrightarrow>
   (\<exists>i < length ls. f \<in> set (line_findings sc path allow (lno + i) (ls ! i)))"
proof (induction ls arbitrary: lno)
  case Nil
  then show ?case by simp
next
  case (Cons l ls)
  show ?case
    by (auto simp: Cons.IH nth_Cons less_Suc_eq_0_disj) 
qed

lemma scan_findings:
  "NUL \<notin> set content \<Longrightarrow>
   f \<in> set (secret_Scan sc path content al) \<longleftrightarrow>
   (\<exists>i < length (split_on NL content).
      f \<in> set (line_findings sc path (make_allow_set al) (Suc i) (split_on NL content ! i)))"
  by (simp add: secret_Scan_def index_byte_None lines_findings_nth)

lemma builtin_found:
  assumes "(alts, name) \<in> set builtins" and "ps \<in> set alts" and "seq_matches ps b"
  shows "\<exists>f \<in> set (line_findings sc path allow lno (a @ b)). fd_rule f = name"
proof -
  obtain i j where ij: "find_seq alts (a @ b) = Some (i, j)"
    using find_from_complete [OF assms(2,3), of 0 a] by (auto simp: find_seq_def)
  then have "pattern_findings path lno (a @ b) allow (find_seq alts, name)
      = [finding_of path lno name (a @ b) (take (j - i) (drop i (a @ b))) allow]"
    using find_seq_raw(1) [OF assms(1) ij] by (simp add: pattern_findings_def)
  then show ?thesis
    using assms(1) by (force simp: line_findings_def finding_of_def)
qed

end
