(* ===== verification/Rules.thy ===== *)
theory Rules
  imports Engine GoPath Pathmatch Secret
begin

text \<open>
  The rules of \<open>internal/policy/rules\<close>: history protection, branch patterns, commit
  messages, path access control and secret scanning, each as the \<open>rule\<close> its factory builds
  from a configuration, and the interpretation of the contract \<open>push_rule\<close> on each. Go's
  regexp compiler is the parameter \<open>re_compile\<close>.
\<close>

section \<open>match.go\<close>

definition match_any :: "string list \<Rightarrow> string \<Rightarrow> bool" where
  "match_any patterns ref \<longleftrightarrow> list_ex (\<lambda>p. p \<noteq> [] \<and> path_match p ref = Some True) patterns"

definition parse_string_list :: "params \<Rightarrow> string \<Rightarrow> string list" where
  "parse_string_list ps key =
     (case ps key of
        Some (YStrs ss) \<Rightarrow> ss
      | Some (YList items) \<Rightarrow>
          List.map_filter (\<lambda>it. case it of YStr s \<Rightarrow> Some s | _ \<Rightarrow> None) items
      | _ \<Rightarrow> [])"

definition allow_fetch :: "fetch_request \<Rightarrow> go_error + decision" where
  "allow_fetch q = Inr policy_allow"

section \<open>history\_protect\<close>

fun history_loop :: "string list \<Rightarrow> ref_update list \<Rightarrow> decision" where
  "history_loop refs [] = policy_allow"
| "history_loop refs (u # us) =
     (if \<not> match_any refs (u_ref u) then history_loop refs us
      else if is_delete u then
        policy_deny ''history_protect''
          (''ref deletion on protected ref '' @ go_quote (u_ref u) @ '' is not allowed'')
      else if u_force u then
        policy_deny ''history_protect''
          (''force-push to protected ref '' @ go_quote (u_ref u) @ '' is not allowed'')
      else history_loop refs us)"

definition history_protect :: factory where
  "history_protect cfg =
     \<lparr>rl_name = ''history_protect'',
      rl_push = (\<lambda>q. Inr (history_loop (parse_string_list (rc_params cfg) ''refs'') (q_updates q))),
      rl_fetch = allow_fetch\<rparr>"

definition rewrites_protected :: "rule_config \<Rightarrow> push_request \<Rightarrow> bool" where
  "rewrites_protected cfg q \<longleftrightarrow>
     (\<exists>u \<in> set (q_updates q).
        match_any (parse_string_list (rc_params cfg) ''refs'') (u_ref u) \<and> (is_delete u \<or> u_force u))"

lemma history_loop_iff:
  "d_verdict (history_loop refs us) = VerdictDeny \<longleftrightarrow>
   (\<exists>u \<in> set us. match_any refs (u_ref u) \<and> (is_delete u \<or> u_force u))"
  by (induction us) auto

interpretation history: push_rule history_protect "\<lambda>_. False" rewrites_protected
  by unfold_locales (auto simp: history_protect_def rewrites_protected_def history_loop_iff)

section \<open>branch\_pattern\<close>

fun branch_loop :: "string list \<Rightarrow> ref_update list \<Rightarrow> decision" where
  "branch_loop al [] = policy_allow"
| "branch_loop al (u # us) =
     (if \<not> match_any al (u_ref u)
      then policy_deny ''branch_pattern''
             (''push to ref '' @ go_quote (u_ref u) @ '' is not allowed by any allow pattern'')
      else branch_loop al us)"

definition branch_push :: "string list \<Rightarrow> push_request \<Rightarrow> decision" where
  "branch_push al q =
     (if al = [] then policy_deny ''branch_pattern'' ''no branches are allowed (allow list is empty)''
      else branch_loop al (q_updates q))"

definition branch_pattern :: factory where
  "branch_pattern cfg =
     \<lparr>rl_name = ''branch_pattern'',
      rl_push = (\<lambda>q. Inr (branch_push (parse_string_list (rc_params cfg) ''allow'') q)),
      rl_fetch = allow_fetch\<rparr>"

definition outside_branches :: "rule_config \<Rightarrow> push_request \<Rightarrow> bool" where
  "outside_branches cfg q \<longleftrightarrow>
     (let al = parse_string_list (rc_params cfg) ''allow'' in
      al = [] \<or> (\<exists>u \<in> set (q_updates q). \<not> match_any al (u_ref u)))"

lemma branch_loop_iff:
  "d_verdict (branch_loop al us) = VerdictDeny \<longleftrightarrow> (\<exists>u \<in> set us. \<not> match_any al (u_ref u))"
  by (induction us) auto

interpretation branch: push_rule branch_pattern "\<lambda>_. False" outside_branches
  by unfold_locales
     (auto simp: branch_pattern_def branch_push_def outside_branches_def branch_loop_iff Let_def)

section \<open>commit\_message\<close>

definition commit_subject :: "string \<Rightarrow> string" where
  "commit_subject msg = (case index_byte msg NL of None \<Rightarrow> msg | Some i \<Rightarrow> take i msg)"

definition has_any_prefix :: "string \<Rightarrow> string list \<Rightarrow> bool" where
  "has_any_prefix s ps \<longleftrightarrow> list_ex (has_prefix s) ps"

record commit_rule =
  cm_prefixes :: "string list"
  cm_res :: "(string \<times> regexp) list"
  cm_err :: "go_error option"

fun compile_denies ::
  "(string \<Rightarrow> go_error + regexp) \<Rightarrow> string list \<Rightarrow> (string \<times> regexp) list \<Rightarrow>
   (string \<times> regexp) list \<times> go_error option" where
  "compile_denies re_compile [] acc = (acc, None)"
| "compile_denies re_compile (p # ps) acc =
     (case re_compile p of
        Inl e \<Rightarrow> (acc, Some (''commit_message: bad deny_regex '' @ go_quote p @ '': '' @ e))
      | Inr re \<Rightarrow> compile_denies re_compile ps (acc @ [(p, re)]))"

definition new_commit_rule :: "(string \<Rightarrow> go_error + regexp) \<Rightarrow> rule_config \<Rightarrow> commit_rule" where
  "new_commit_rule re_compile cfg =
     (let (res, err) = compile_denies re_compile (parse_string_list (rc_params cfg) ''deny_regex'') [] in
      \<lparr>cm_prefixes = parse_string_list (rc_params cfg) ''require_prefix'', cm_res = res, cm_err = err\<rparr>)"

fun commit_loop :: "commit_rule \<Rightarrow> commit list \<Rightarrow> decision" where
  "commit_loop r [] = policy_allow"
| "commit_loop r (c # cs) =
     (let subject = commit_subject (c_message c) in
      if cm_prefixes r \<noteq> [] \<and> \<not> has_any_prefix subject (cm_prefixes r) then
        policy_deny ''commit_message''
          (''commit '' @ c_sha c @ '' subject '' @ go_quote subject
           @ '' does not start with any required prefix'')
      else
        (case find (\<lambda>(p, re). re subject \<noteq> None) (cm_res r) of
           Some (p, re) \<Rightarrow>
             policy_deny ''commit_message''
               (''commit '' @ c_sha c @ '' subject '' @ go_quote subject
                @ '' matches deny regex '' @ go_quote p)
         | None \<Rightarrow> commit_loop r cs))"

definition commit_message :: "(string \<Rightarrow> go_error + regexp) \<Rightarrow> factory" where
  "commit_message re_compile cfg =
     (let r = new_commit_rule re_compile cfg in
      \<lparr>rl_name = ''commit_message'',
       rl_push = (\<lambda>q. case cm_err r of Some e \<Rightarrow> Inl e | None \<Rightarrow> Inr (commit_loop r (q_commits q))),
       rl_fetch = allow_fetch\<rparr>)"

text \<open>A configuration with a deny regex that does not compile.\<close>

definition bad_regex :: "(string \<Rightarrow> go_error + regexp) \<Rightarrow> rule_config \<Rightarrow> bool" where
  "bad_regex re_compile cfg \<longleftrightarrow>
     (\<exists>p \<in> set (parse_string_list (rc_params cfg) ''deny_regex''). \<exists>e. re_compile p = Inl e)"

definition re_hits :: "go_error + regexp \<Rightarrow> string \<Rightarrow> bool" where
  "re_hits r s \<longleftrightarrow> (case r of Inl _ \<Rightarrow> False | Inr re \<Rightarrow> re s \<noteq> None)"

definition breaks_convention ::
  "(string \<Rightarrow> go_error + regexp) \<Rightarrow> rule_config \<Rightarrow> push_request \<Rightarrow> bool" where
  "breaks_convention re_compile cfg q \<longleftrightarrow>
     (let required = parse_string_list (rc_params cfg) ''require_prefix'';
          denied = parse_string_list (rc_params cfg) ''deny_regex'' in
      \<exists>c \<in> set (q_commits q).
        (required \<noteq> [] \<and> \<not> (\<exists>p \<in> set required. has_prefix (commit_subject (c_message c)) p)) \<or>
        (\<exists>p \<in> set denied. re_hits (re_compile p) (commit_subject (c_message c))))"

lemma compile_denies_err:
  "(\<exists>e. snd (compile_denies re ps acc) = Some e) \<longleftrightarrow> (\<exists>p \<in> set ps. \<exists>e. re p = Inl e)"
  by (induction ps arbitrary: acc) (auto split: sum.splits)

lemma compile_denies_res:
  "\<forall>p \<in> set ps. \<exists>r. re p = Inr r \<Longrightarrow>
   compile_denies re ps acc = (acc @ map (\<lambda>p. (p, projr (re p))) ps, None)"
  by (induction ps arbitrary: acc) auto

lemma commit_loop_iff:
  "d_verdict (commit_loop r cs) = VerdictDeny \<longleftrightarrow>
   (\<exists>c \<in> set cs.
      (cm_prefixes r \<noteq> [] \<and> \<not> has_any_prefix (commit_subject (c_message c)) (cm_prefixes r)) \<or>
      (\<exists>(p, re) \<in> set (cm_res r). re (commit_subject (c_message c)) \<noteq> None))"
proof (induction cs)
  case Nil
  then show ?case by simp
next
  case (Cons c cs)
  have "find (\<lambda>(p, re). re (commit_subject (c_message c)) \<noteq> None) (cm_res r) = None \<longleftrightarrow>
      \<not> (\<exists>(p, re) \<in> set (cm_res r). re (commit_subject (c_message c)) \<noteq> None)"
    by (auto simp: find_None_iff)
  then show ?case using Cons by (auto simp: Let_def split: option.splits)
qed

interpretation commits: push_rule "commit_message re_compile" "bad_regex re_compile"
    "breaks_convention re_compile" for re_compile
proof unfold_locales
  fix c q
  assume "bad_regex re_compile c"
  then show "\<exists>e. rl_push (commit_message re_compile c) q = Inl e"
    using compile_denies_err [of re_compile "parse_string_list (rc_params c) ''deny_regex''" "[]"]
    by (auto simp: bad_regex_def commit_message_def new_commit_rule_def Let_def split: prod.splits)
next
  fix c q
  assume "\<not> bad_regex re_compile c"
  then have ok: "\<forall>p \<in> set (parse_string_list (rc_params c) ''deny_regex''). \<exists>r. re_compile p = Inr r"
    unfolding bad_regex_def by (metis obj_sumE)
  then have hits: "p \<in> set (parse_string_list (rc_params c) ''deny_regex'') \<Longrightarrow>
      projr (re_compile p) s \<noteq> None \<longleftrightarrow> re_hits (re_compile p) s" for p s
    by (auto simp: re_hits_def)
  show "\<exists>d. rl_push (commit_message re_compile c) q = Inr d \<and>
      (d_verdict d = VerdictDeny \<longleftrightarrow> breaks_convention re_compile c q)"
    using hits
    by (simp add: commit_message_def new_commit_rule_def compile_denies_res [OF ok] commit_loop_iff
        breaks_convention_def has_any_prefix_def list_ex_iff Let_def Bex_def image_iff) blast
qed

section \<open>path\_acl\<close>

record path_rule =
  pa_matchers :: "(string \<times> pattern list) list"
  pa_err :: "go_error option"

fun path_compile :: "string list \<Rightarrow> (string \<times> pattern list) list \<Rightarrow> path_rule" where
  "path_compile [] acc = \<lparr>pa_matchers = acc, pa_err = None\<rparr>"
| "path_compile (p # ps) acc =
     (if is_malformed p
      then \<lparr>pa_matchers = [],
            pa_err = Some (''path_acl: malformed deny pattern '' @ go_quote p)\<rparr>
      else path_compile ps (acc @ [(p, new_matcher [p])]))"

definition matching_pattern :: "path_rule \<Rightarrow> string \<Rightarrow> string option" where
  "matching_pattern r path =
     map_option fst (find (\<lambda>(p, m). matcher_match m path) (pa_matchers r))"

fun path_loop :: "path_rule \<Rightarrow> string \<Rightarrow> string list \<Rightarrow> decision" where
  "path_loop r verb [] = policy_allow"
| "path_loop r verb (p # ps) =
     (case matching_pattern r p of
        Some pat \<Rightarrow>
          policy_deny ''path_acl''
            (verb @ '' denied path '' @ go_quote p @ '' (matched pattern '' @ go_quote pat @ '')'')
      | None \<Rightarrow> path_loop r verb ps)"

definition path_eval :: "path_rule \<Rightarrow> string \<Rightarrow> string list \<Rightarrow> go_error + decision" where
  "path_eval r verb paths =
     (case pa_err r of Some e \<Rightarrow> Inl e | None \<Rightarrow> Inr (path_loop r verb paths))"

definition path_acl :: factory where
  "path_acl cfg =
     (let r = path_compile (parse_string_list (rc_params cfg) ''deny'') [] in
      \<lparr>rl_name = ''path_acl'',
       rl_push = (\<lambda>q. path_eval r ''push touches'' (map f_path (q_files q))),
       rl_fetch = (\<lambda>q. path_eval r ''fetch requests'' (fq_paths q))\<rparr>)"

definition bad_deny :: "rule_config \<Rightarrow> bool" where
  "bad_deny cfg \<longleftrightarrow> list_ex is_malformed (parse_string_list (rc_params cfg) ''deny'')"

definition denied_path :: "rule_config \<Rightarrow> string \<Rightarrow> bool" where
  "denied_path cfg path \<longleftrightarrow>
     matcher_match (new_matcher (parse_string_list (rc_params cfg) ''deny'')) path"

definition touches_denied :: "rule_config \<Rightarrow> push_request \<Rightarrow> bool" where
  "touches_denied cfg q \<longleftrightarrow> (\<exists>f \<in> set (q_files q). denied_path cfg (f_path f))"

lemma path_compile_err:
  "(\<exists>e. pa_err (path_compile ps acc) = Some e) \<longleftrightarrow> list_ex is_malformed ps"
  by (induction ps arbitrary: acc) auto

lemma path_compile_ok:
  "\<not> list_ex is_malformed ps \<Longrightarrow>
   path_compile ps acc = \<lparr>pa_matchers = acc @ map (\<lambda>p. (p, new_matcher [p])) ps, pa_err = None\<rparr>"
  by (induction ps arbitrary: acc) auto

lemma new_matcher_ex:
  "matcher_match (new_matcher ps) path \<longleftrightarrow> (\<exists>p \<in> set ps. matcher_match (new_matcher [p]) path)"
proof (induction ps)
  case Nil
  then show ?case by (simp add: matcher_match_def new_matcher_def List.map_filter_def)
next
  case (Cons p ps)
  then show ?case using matcher_append [of "[p]" ps path] by simp
qed

lemma path_loop_iff:
  "d_verdict (path_loop r verb paths) = VerdictDeny \<longleftrightarrow>
   (\<exists>p \<in> set paths. matching_pattern r p \<noteq> None)"
  by (induction paths) (auto split: option.splits)

lemma matching_pattern_iff:
  "\<not> list_ex is_malformed ps \<Longrightarrow>
   matching_pattern (path_compile ps []) path \<noteq> None \<longleftrightarrow> matcher_match (new_matcher ps) path"
  by (subst new_matcher_ex) (auto simp: matching_pattern_def path_compile_ok find_None_iff)

lemma path_eval_iff:
  assumes "\<not> list_ex is_malformed ps"
  shows "\<exists>d. path_eval (path_compile ps []) verb paths = Inr d \<and>
     (d_verdict d = VerdictDeny \<longleftrightarrow> (\<exists>p \<in> set paths. matcher_match (new_matcher ps) p))"
proof -
  have "pa_err (path_compile ps []) = None" using assms by (simp add: path_compile_ok)
  then show ?thesis
    using matching_pattern_iff [OF assms] by (simp add: path_eval_def path_loop_iff)
qed

interpretation path: push_rule path_acl bad_deny touches_denied
proof unfold_locales
  fix c q
  assume "bad_deny c"
  then show "\<exists>e. rl_push (path_acl c) q = Inl e"
    using path_compile_err [of "parse_string_list (rc_params c) ''deny''" "[]"]
    by (auto simp: path_acl_def path_eval_def bad_deny_def Let_def)
next
  fix c q
  assume "\<not> bad_deny c"
  then show "\<exists>d. rl_push (path_acl c) q = Inr d \<and> (d_verdict d = VerdictDeny \<longleftrightarrow> touches_denied c q)"
    using path_eval_iff [of "parse_string_list (rc_params c) ''deny''" "''push touches''"
        "map f_path (q_files q)"]
    by (auto simp: path_acl_def bad_deny_def touches_denied_def denied_path_def Let_def)
qed

section \<open>secret\_scan\<close>

definition builtin_ignore_paths :: "string list" where
  "builtin_ignore_paths =
     [''go.sum'', ''go.mod'', ''package-lock.json'', ''yarn.lock'', ''pnpm-lock.yaml'',
      ''Cargo.lock'', ''composer.lock'', ''poetry.lock'']"

definition yaml_string :: "yaml option \<Rightarrow> string" where
  "yaml_string v = (case v of Some (YStr s) \<Rightarrow> s | _ \<Rightarrow> [])"

definition extra_pattern :: "yaml \<Rightarrow> secret_pattern option" where
  "extra_pattern item =
     (case item of
        YMap m \<Rightarrow>
          (let re = yaml_string (map_of m ''regex''); name = yaml_string (map_of m ''name'') in
           if re = [] then None else Some \<lparr>p_regex = re, p_name = name\<rparr>)
      | _ \<Rightarrow> None)"

definition parse_extra_patterns :: "params \<Rightarrow> string \<Rightarrow> secret_pattern list" where
  "parse_extra_patterns ps key =
     (case ps key of Some (YList items) \<Rightarrow> List.map_filter extra_pattern items | _ \<Rightarrow> [])"

definition parse_ignore_strings :: "params \<Rightarrow> string list" where
  "parse_ignore_strings ps =
     filter (\<lambda>t. t \<noteq> []) (map trim_space (parse_string_list ps ''ignore_strings''))"

record secret_rule =
  ss_scanner :: "scanner_cfg option"
  ss_ignore :: "pattern list"
  ss_allow :: "string list"
  ss_err :: "go_error option"

definition new_secret_rule :: "(string \<Rightarrow> go_error + regexp) \<Rightarrow> rule_config \<Rightarrow> secret_rule" where
  "new_secret_rule re_compile cfg =
     (case secret_New re_compile (parse_extra_patterns (rc_params cfg) ''extra_patterns'') of
        Inl e \<Rightarrow> \<lparr>ss_scanner = None, ss_ignore = [], ss_allow = [], ss_err = Some e\<rparr>
      | Inr sc \<Rightarrow>
          (let ig = parse_string_list (rc_params cfg) ''ignore_paths'' in
           case find is_malformed ig of
             Some p \<Rightarrow>
               \<lparr>ss_scanner = Some sc, ss_ignore = [], ss_allow = [],
                ss_err = Some (''secret_scan: malformed ignore_paths pattern '' @ go_quote p)\<rparr>
           | None \<Rightarrow>
               \<lparr>ss_scanner = Some sc, ss_ignore = new_matcher (builtin_ignore_paths @ ig),
                ss_allow = parse_ignore_strings (rc_params cfg), ss_err = None\<rparr>))"

definition secret_message :: "finding \<Rightarrow> string" where
  "secret_message f =
     ''secret found in '' @ go_quote (fd_path f) @ '' at line '' @ show_nat (fd_line f)
     @ '' (rule: '' @ fd_rule f @ '')''
     @ (if fd_snippet f = [] then [] else ''; snippet: '' @ fd_snippet f)"

definition placeholder_reason :: "finding \<Rightarrow> reason" where
  "placeholder_reason f =
     \<lparr>r_rule = ''secret_scan'',
      r_message = ''secret_scan: ignored placeholder for rule '' @ fd_rule f @ '' at '' @ fd_path f
                  @ '':'' @ show_nat (fd_line f)\<rparr>"

definition scanned_file :: "secret_rule \<Rightarrow> changed_file \<Rightarrow> bool" where
  "scanned_file r f \<longleftrightarrow>
     \<not> matcher_match (ss_ignore r) (f_path f) \<and> f_status f \<noteq> ''D'' \<and> f_content f \<noteq> []"

fun secret_loop ::
  "secret_rule \<Rightarrow> scanner_cfg \<Rightarrow> changed_file list \<Rightarrow> finding list \<Rightarrow> decision" where
  "secret_loop r sc [] suppressed =
     (if suppressed \<noteq> []
      then \<lparr>d_verdict = VerdictAllow, d_reasons = map placeholder_reason suppressed\<rparr>
      else policy_allow)"
| "secret_loop r sc (f # fs) suppressed =
     (if \<not> scanned_file r f then secret_loop r sc fs suppressed
      else
        (let found = secret_Scan sc (f_path f) (f_content f) (ss_allow r) in
         case find (\<lambda>fnd. \<not> fd_suppressed fnd) found of
           Some fnd \<Rightarrow> policy_deny ''secret_scan'' (secret_message fnd)
         | None \<Rightarrow> secret_loop r sc fs (suppressed @ found)))"

definition secret_push :: "secret_rule \<Rightarrow> push_request \<Rightarrow> go_error + decision" where
  "secret_push r q =
     (case ss_err r of
        Some e \<Rightarrow> Inl e
      | None \<Rightarrow>
          (case ss_scanner r of
             None \<Rightarrow> Inr policy_allow
           | Some sc \<Rightarrow> Inr (secret_loop r sc (q_files q) [])))"

definition secret_scan :: "(string \<Rightarrow> go_error + regexp) \<Rightarrow> factory" where
  "secret_scan re_compile cfg =
     (let r = new_secret_rule re_compile cfg in
      \<lparr>rl_name = ''secret_scan'', rl_push = secret_push r, rl_fetch = allow_fetch\<rparr>)"

definition bad_patterns :: "(string \<Rightarrow> go_error + regexp) \<Rightarrow> rule_config \<Rightarrow> bool" where
  "bad_patterns re_compile cfg \<longleftrightarrow>
     (\<exists>p \<in> set (parse_extra_patterns (rc_params cfg) ''extra_patterns'').
        trim_space (p_regex p) \<noteq> [] \<and> (\<exists>e. re_compile (p_regex p) = Inl e)) \<or>
     list_ex is_malformed (parse_string_list (rc_params cfg) ''ignore_paths'')"

definition live_finding :: "secret_rule \<Rightarrow> scanner_cfg \<Rightarrow> changed_file \<Rightarrow> bool" where
  "live_finding r sc f \<longleftrightarrow>
     scanned_file r f \<and>
     (\<exists>fnd \<in> set (secret_Scan sc (f_path f) (f_content f) (ss_allow r)). \<not> fd_suppressed fnd)"

definition holds_secret :: "(string \<Rightarrow> go_error + regexp) \<Rightarrow> rule_config \<Rightarrow> push_request \<Rightarrow> bool" where
  "holds_secret re_compile cfg q \<longleftrightarrow>
     (let r = new_secret_rule re_compile cfg in
      \<exists>f \<in> set (q_files q). live_finding r (the (ss_scanner r)) f)"

lemma secret_loop_iff:
  "d_verdict (secret_loop r sc fs acc) = VerdictDeny \<longleftrightarrow> (\<exists>f \<in> set fs. live_finding r sc f)"
proof (induction fs arbitrary: acc)
  case Nil
  then show ?case by simp
next
  case (Cons f fs)
  have "find (\<lambda>fnd. \<not> fd_suppressed fnd) (secret_Scan sc (f_path f) (f_content f) (ss_allow r)) = None
      \<longleftrightarrow> \<not> (\<exists>fnd \<in> set (secret_Scan sc (f_path f) (f_content f) (ss_allow r)). \<not> fd_suppressed fnd)"
    by (auto simp: find_None_iff)
  then show ?case
    using Cons by (auto simp: live_finding_def Let_def split: option.splits)
qed

lemma secret_New_err:
  "(\<exists>e. new_scanner_from re ps acc = Inl e) \<longleftrightarrow>
   (\<exists>p \<in> set ps. trim_space (p_regex p) \<noteq> [] \<and> (\<exists>e. re (p_regex p) = Inl e))"
  by (induction ps arbitrary: acc) (auto split: sum.splits)

lemma new_secret_rule_err:
  "(\<exists>e. ss_err (new_secret_rule re cfg) = Some e) \<longleftrightarrow> bad_patterns re cfg"
  using secret_New_err [of re "parse_extra_patterns (rc_params cfg) ''extra_patterns''" "[]"]
    find_list_ex [of is_malformed "parse_string_list (rc_params cfg) ''ignore_paths''"]
  by (auto simp: new_secret_rule_def bad_patterns_def secret_New_def Let_def split: sum.splits option.splits)

lemma new_secret_rule_scanner:
  "ss_err (new_secret_rule re cfg) = None \<Longrightarrow> \<exists>sc. ss_scanner (new_secret_rule re cfg) = Some sc"
  by (auto simp: new_secret_rule_def Let_def split: sum.splits option.splits)

interpretation secrets: push_rule "secret_scan re_compile" "bad_patterns re_compile"
    "holds_secret re_compile" for re_compile
proof unfold_locales
  fix c q
  assume "bad_patterns re_compile c"
  then show "\<exists>e. rl_push (secret_scan re_compile c) q = Inl e"
    using new_secret_rule_err [of re_compile c]
    by (auto simp: secret_scan_def secret_push_def Let_def)
next
  fix c q
  assume "\<not> bad_patterns re_compile c"
  then have "ss_err (new_secret_rule re_compile c) = None"
    using new_secret_rule_err [of re_compile c] by (cases "ss_err (new_secret_rule re_compile c)") auto
  moreover from this obtain sc where "ss_scanner (new_secret_rule re_compile c) = Some sc"
    using new_secret_rule_scanner by blast
  ultimately show "\<exists>d. rl_push (secret_scan re_compile c) q = Inr d \<and>
      (d_verdict d = VerdictDeny \<longleftrightarrow> holds_secret re_compile c q)"
    by (simp add: secret_scan_def secret_push_def holds_secret_def secret_loop_iff Let_def)
qed

section \<open>The registry the repository registers\<close>

definition default_registry :: "(string \<Rightarrow> go_error + regexp) \<Rightarrow> registry" where
  "default_registry re_compile =
     [''history_protect'' \<mapsto> history_protect, ''branch_pattern'' \<mapsto> branch_pattern,
      ''commit_message'' \<mapsto> commit_message re_compile, ''path_acl'' \<mapsto> path_acl,
      ''secret_scan'' \<mapsto> secret_scan re_compile]"

text \<open>
  An enabled rule of a resolved configuration, with an unrestricted scope, is an entry of
  the engine that applies to every push.
\<close>

lemma resolve_entry:
  assumes "resolve cfg reg = Inr eng" and "map_of (pc_rules cfg) n = Some rc" and "rc_enabled rc"
    and "distinct (map fst (pc_rules cfg))" and "reg n = Some f"
  shows "entry_of rc f \<in> set (e_entries eng)"
  using assms enabled_names_iff [of cfg n] by (force simp: resolve_Inr)

end
