(* ===== verification/WireLaws.thy ===== *)
theory WireLaws
  imports Wire
begin

text \<open>
  Round trips of the wire messages: what the emitters write, the parsers read back; what a
  client sends as a receive-pack request is parsed to its commands and the offset of its
  packfile; and the exact bytes of a report-status reply.
\<close>

section \<open>Lines\<close>

definition token :: "string \<Rightarrow> bool" where
  "token s \<longleftrightarrow> set s \<inter> {NL, NUL, SP} = {}"

definition one_line :: "string \<Rightarrow> bool" where
  "one_line s \<longleftrightarrow> set s \<inter> {NL, NUL} = {}"

lemma token_one_line: "token s \<Longrightarrow> one_line s"
  by (auto simp: token_def one_line_def)

lemma trim_right_one_line: "one_line s \<Longrightarrow> trim_right NL s = s"
  by (cases s rule: rev_cases) (auto simp: one_line_def trim_right_def)

lemma trim_right_NL: "one_line s \<Longrightarrow> trim_right NL (s @ [NL]) = s"
  by (simp add: trim_right_snoc trim_right_one_line)

section \<open>Ref advertisements\<close>

definition ref_ok :: "advertised_ref \<Rightarrow> bool" where
  "ref_ok r \<longleftrightarrow> token (ad_hash r) \<and> one_line (ad_name r)"

lemma parse_ref_line_first:
  assumes "ref_ok r" and "\<forall>c \<in> set caps. word_str c"
  shows "parse_ref_line (ref_line caps True r) = Some (r, caps)"
proof -
  have nul: "NUL \<notin> set (ad_hash r @ SP # ad_name r)" and sp: "SP \<notin> set (ad_hash r)"
    and ol: "one_line (ad_hash r @ SP # ad_name r)"
    using assms(1) by (auto simp: ref_ok_def token_def one_line_def)
  have "ref_line caps True r = (ad_hash r @ SP # ad_name r) @ NUL # (join '' '' caps @ [NL])"
    by (simp add: ref_line_def)
  then have "cut_nul (ref_line caps True r)
      = (ad_hash r @ SP # ad_name r, Some (join '' '' caps @ [NL]))"
    using cut_nul_some [OF nul] by metis
  then show ?thesis
    using caps_of_line [OF assms(2)] trim_right_one_line [OF ol] index_byte_append [OF sp]
    by (simp add: parse_ref_line_def)
qed

lemma parse_ref_line_next: "ref_ok r \<Longrightarrow> parse_ref_line (ref_line caps False r) = Some (r, [])"
proof -
  assume r: "ref_ok r"
  have nul: "NUL \<notin> set (ref_line caps False r)" and sp: "SP \<notin> set (ad_hash r)"
    and ol: "one_line (ad_hash r @ SP # ad_name r)"
    using r by (auto simp: ref_ok_def token_def one_line_def ref_line_def)
  have "trim_right NL (ref_line caps False r) = ad_hash r @ SP # ad_name r"
    using trim_right_NL [OF ol] by (simp add: ref_line_def)
  then show ?thesis
    using cut_nul_none [OF nul] index_byte_append [OF sp]
    by (simp add: parse_ref_line_def caps_of_def)
qed

fun ref_pkts :: "string list \<Rightarrow> advertised_ref list \<Rightarrow> string" where
  "ref_pkts caps [] = []"
| "ref_pkts caps (r # rs) = pkt (ref_line caps False r) @ ref_pkts caps rs"

lemma ref_loop_data:
  "scan omax s = (True, s') \<Longrightarrow> sc_marker s' = Data \<Longrightarrow>
   parse_ref_line (sc_payload s') = Some (r, caps) \<Longrightarrow>
   ref_loop omax s adv = ref_loop omax s' (adv\<lparr>ad_refs := ad_refs adv @ [r],
     ad_caps := (if caps \<noteq> [] then caps else ad_caps adv)\<rparr>)"
  by (simp add: ref_loop.simps [of omax s])

lemma ref_loop_lines:
  assumes "max_payload \<le> omax" and "\<forall>r \<in> set refs. ref_ok r \<and> length (ref_line caps False r) \<le> max_payload"
    and "sc_in s = ref_pkts caps refs @ ''0000'' @ rest"
  shows "\<exists>s'. ref_loop omax s adv = Inr (adv\<lparr>ad_refs := ad_refs adv @ refs\<rparr>, s') \<and> sc_err s' = sc_err s"
  using assms(2,3)
proof (induction refs arbitrary: s adv)
  case Nil
  then have "sc_in s = ''0000'' @ rest" by simp
  then show ?case using scan_flush [of s rest omax] by (simp add: ref_loop.simps [of omax s])
next
  case (Cons r refs)
  let ?s = "s\<lparr>sc_in := ref_pkts caps refs @ ''0000'' @ rest,
              sc_marker := Data, sc_payload := ref_line caps False r, sc_raw := pkt (ref_line caps False r)\<rparr>"
  have "scan omax s = (True, ?s)"
    using Cons.prems assms(1) by (intro scan_pkt) auto
  then have step: "ref_loop omax s adv = ref_loop omax ?s (adv\<lparr>ad_refs := ad_refs adv @ [r]\<rparr>)"
    using Cons.prems(1) by (simp add: ref_loop.simps [of omax s] parse_ref_line_next)
  obtain s' where "ref_loop omax ?s (adv\<lparr>ad_refs := ad_refs adv @ [r]\<rparr>)
      = Inr ((adv\<lparr>ad_refs := ad_refs adv @ [r]\<rparr>)\<lparr>ad_refs := (ad_refs adv @ [r]) @ refs\<rparr>, s')"
    "sc_err s' = sc_err ?s"
    using Cons.IH [of ?s "adv\<lparr>ad_refs := ad_refs adv @ [r]\<rparr>"] Cons.prems by auto
  then show ?case using step by simp
qed

lemma emit_refs_good:
  assumes "gogit_ok G" and "wsched w = []"
    and "\<forall>r \<in> set refs. length (ref_line caps True r) \<le> max_payload \<and> length (ref_line caps False r) \<le> max_payload"
  shows "emit_refs G w what caps first refs =
    (w\<lparr>wout := wout w @ (case refs of [] \<Rightarrow> []
        | r # rs \<Rightarrow> pkt (ref_line caps first r) @ ref_pkts caps rs)\<rparr>, None)"
  using assms(2,3)
proof (induction refs arbitrary: w first)
  case Nil
  then show ?case by simp
next
  case (Cons r refs)
  have "encode_string G w (ref_line caps first r) = (w\<lparr>wout := wout w @ pkt (ref_line caps first r)\<rparr>, None)"
    using encode_string_ok [OF assms(1), of "ref_line caps first r" w] Cons.prems
    by (cases first) (auto simp: ref_line_def)
  then show ?case
    using Cons.IH [of "w\<lparr>wout := wout w @ pkt (ref_line caps first r)\<rparr>" False] Cons.prems
    by (cases refs) simp_all
qed

text \<open>What a re-emitted advertisement must satisfy to be readable.\<close>

definition adv_ok :: "ref_advertisement \<Rightarrow> string list \<Rightarrow> bool" where
  "adv_ok adv extra \<longleftrightarrow>
     (let caps = build_v0_caps (ad_caps adv) extra in
      word_str (ad_service adv) \<and> length (ad_service adv) \<le> 1000 \<and> ad_refs adv \<noteq> [] \<and>
      (\<forall>c \<in> set caps. word_str c) \<and>
      (\<forall>r \<in> set (ad_refs adv). ref_ok r \<and> length (ref_line caps True r) \<le> max_payload))"

definition body_bytes :: "ref_advertisement \<Rightarrow> string list \<Rightarrow> string" where
  "body_bytes adv extra =
     (let caps = build_v0_caps (ad_caps adv) extra in
      pkt (ref_line caps True (hd (ad_refs adv)))
      @ ref_pkts caps (tl (ad_refs adv)) @ ''0000'')"

definition adv_bytes :: "ref_advertisement \<Rightarrow> string list \<Rightarrow> string" where
  "adv_bytes adv extra =
     pkt (''# service='' @ ad_service adv @ [NL]) @ ''0000'' @ body_bytes adv extra"

lemma ref_line_shorter: "length (ref_line caps False r) \<le> length (ref_line caps True r)"
  by (simp add: ref_line_def)

lemma emit_body_good:
  assumes "gogit_ok G" and "wsched w = []" and "adv_ok adv extra"
  shows "emit_body G w what adv extra = (w\<lparr>wout := wout w @ body_bytes adv extra\<rparr>, None)"
proof -
  let ?caps = "build_v0_caps (ad_caps adv) extra"
  obtain r rs where refs: "ad_refs adv = r # rs"
    using assms(3) by (cases "ad_refs adv") (auto simp: adv_ok_def Let_def)
  have len: "\<forall>r \<in> set (r # rs). length (ref_line ?caps True r) \<le> max_payload \<and>
      length (ref_line ?caps False r) \<le> max_payload"
    using assms(3) ref_line_shorter order_trans by (fastforce simp: adv_ok_def Let_def refs)
  let ?w = "w\<lparr>wout := wout w @ pkt (ref_line ?caps True r) @ ref_pkts ?caps rs\<rparr>"
  have e: "emit_refs G w what ?caps True (r # rs) = (?w, None)"
    using emit_refs_good [OF assms(1,2) len, of what True] by simp
  have fl: "enc_flush G ?w = (?w\<lparr>wout := wout ?w @ ''0000''\<rparr>, None)"
    using assms(1,2) by (simp add: enc_flush_ok)
  show ?thesis
    unfolding emit_body_def Let_def refs e prod.case option.case wrap_error_def fl
    by (simp add: refs body_bytes_def e fl Let_def del: emit_refs.simps)
qed

lemma emit_v0_good:
  assumes "gogit_ok G" and "wsched w = []" and "adv_ok adv extra"
  shows "emit_ref_advertisement_v0 G w adv extra = (w\<lparr>wout := wout w @ adv_bytes adv extra\<rparr>, None)"
proof -
  let ?caps = "build_v0_caps (ad_caps adv) extra"
  obtain r rs where refs: "ad_refs adv = r # rs" using assms(3) by (cases "ad_refs adv") (auto simp: adv_ok_def Let_def)
  let ?w1 = "w\<lparr>wout := wout w @ pkt (''# service='' @ ad_service adv @ [NL])\<rparr>"
  have s1: "encode_string G w (''# service='' @ ad_service adv @ [NL]) = (?w1, None)"
    using assms encode_string_ok [OF assms(1), of "''# service='' @ ad_service adv @ [NL]" w]
    by (simp add: adv_ok_def max_payload_def Let_def)
  have s2: "enc_flush G ?w1 = (?w1\<lparr>wout := wout ?w1 @ ''0000''\<rparr>, None)"
    using assms by (simp add: enc_flush_ok)
  have len: "\<forall>r \<in> set (ad_refs adv). length (ref_line ?caps True r) \<le> max_payload \<and>
      length (ref_line ?caps False r) \<le> max_payload"
    using assms(3) ref_line_shorter order_trans by (fastforce simp: adv_ok_def Let_def)
  have w2: "wsched (?w1\<lparr>wout := wout ?w1 @ ''0000''\<rparr>) = []" using assms(2) by simp
  show ?thesis
    using emit_body_good [OF assms(1) w2 assms(3)]
    unfolding emit_ref_advertisement_v0_def s1 s2 prod.case option.case
    by (simp add: adv_bytes_def)
qed

lemma emit_raw_good:
  assumes "gogit_ok G" and "wsched w = []" and "adv_ok adv extra"
  shows "emit_ref_advertisement_raw G w adv extra = (w\<lparr>wout := wout w @ body_bytes adv extra\<rparr>, None)"
  unfolding emit_ref_advertisement_raw_def by (rule emit_body_good [OF assms])

lemma parse_service: "word_str service \<Longrightarrow> parse_service_line (''# service='' @ service @ [NL]) = Some service"
proof -
  assume w: "word_str service"
  then have "NL \<notin> set service" "NUL \<notin> set service" by (auto simp: word_str_def text_char_def)
  then have "one_line (''# service='' @ service)" by (auto simp: one_line_def)
  then have "trim_right NL ((''# service='' @ service) @ [NL]) = ''# service='' @ service"
    by (rule trim_right_NL)
  then have t: "trim_right NL (''# service='' @ service @ [NL]) = ''# service='' @ service" by simp
  have "service \<noteq> []" using w by (simp add: word_str_def)
  then show ?thesis
    using word_trim [OF w] unfolding parse_service_line_def t Let_def
    by (simp only: has_prefix_append trim_prefix_append) simp
qed

lemma parse_adv_bytes:
  assumes "max_payload \<le> omax" and "adv_ok adv extra"
  shows "parse_ref_advertisement omax (bytes_source (adv_bytes adv extra))
         = Inr (adv\<lparr>ad_caps := build_v0_caps (ad_caps adv) extra\<rparr>)"
proof -
  let ?caps = "build_v0_caps (ad_caps adv) extra"
  obtain r rs where refs: "ad_refs adv = r # rs" using assms(2) by (cases "ad_refs adv") (auto simp: adv_ok_def Let_def)
  let ?sl = "''# service='' @ ad_service adv @ [NL]"
  let ?tail = "ref_pkts ?caps rs @ ''0000'' @ []"
  let ?s0 = "scanner_on (bytes_source (adv_bytes adv extra))"
  let ?s1 = "?s0\<lparr>sc_in := ''0000'' @ pkt (ref_line ?caps True r) @ ?tail, sc_marker := Data,
                 sc_payload := ?sl, sc_raw := pkt ?sl\<rparr>"
  let ?s2 = "?s1\<lparr>sc_in := pkt (ref_line ?caps True r) @ ?tail, sc_marker := Flush,
                 sc_raw := ''0000'', sc_payload := []\<rparr>"
  let ?s3 = "?s2\<lparr>sc_in := ?tail, sc_marker := Data, sc_payload := ref_line ?caps True r,
                 sc_raw := pkt (ref_line ?caps True r)\<rparr>"
  let ?a0 = "\<lparr>ad_service = ad_service adv, ad_refs = [], ad_caps = []\<rparr>"
  have ok: "word_str (ad_service adv)" "length (ad_service adv) \<le> 1000" "\<forall>c \<in> set ?caps. word_str c"
    "ref_ok r" "length (ref_line ?caps True r) \<le> max_payload" "\<forall>q \<in> set rs. ref_ok q"
    "\<forall>q \<in> set rs. length (ref_line ?caps True q) \<le> max_payload"
    using assms(2) refs by (auto simp: adv_ok_def Let_def)
  have "sc_in ?s0 = pkt ?sl @ ''0000'' @ pkt (ref_line ?caps True r) @ ?tail"
    by (simp add: bytes_source_def adv_bytes_def body_bytes_def refs Let_def)
  then have s1: "scan omax ?s0 = (True, ?s1)"
    using ok(2) assms(1) by (intro scan_pkt) (auto simp: max_payload_def)
  have s2: "scan omax ?s1 = (True, ?s2)" by (rule scan_flush) simp
  have s3: "scan omax ?s2 = (True, ?s3)"
    using ok(5) assms(1) by (intro scan_pkt) auto
  have l1: "ref_loop omax ?s2 ?a0 = ref_loop omax ?s3 (?a0\<lparr>ad_refs := [r], ad_caps := ?caps\<rparr>)"
  proof (rule trans [OF ref_loop_data [OF s3]])
    show "parse_ref_line (sc_payload ?s3) = Some (r, ?caps)"
      using parse_ref_line_first [OF ok(4,3)] by simp
  qed simp_all
  have len: "\<forall>q \<in> set rs. ref_ok q \<and> length (ref_line ?caps False q) \<le> max_payload"
    using ok(6,7) ref_line_shorter order_trans by blast
  obtain s' where "ref_loop omax ?s3 (?a0\<lparr>ad_refs := [r], ad_caps := ?caps\<rparr>)
      = Inr ((?a0\<lparr>ad_refs := [r], ad_caps := ?caps\<rparr>)\<lparr>ad_refs := [r] @ rs\<rparr>, s')"
    "sc_err s' = sc_err ?s3"
    using ref_loop_lines [OF assms(1) len, of ?s3 "[]" "?a0\<lparr>ad_refs := [r], ad_caps := ?caps\<rparr>"] by auto
  then show ?thesis
    using s1 s2 l1 parse_service [OF ok(1)] refs
    by (simp add: parse_ref_advertisement_def)
qed

section \<open>Receive-pack requests\<close>

text \<open>The line a client sends for a command; the first one carries the capabilities.\<close>

definition command_line :: "bool \<Rightarrow> rp_command \<Rightarrow> string" where
  "command_line first c =
     rp_old c @ '' '' @ rp_new c @ '' '' @ rp_ref c
     @ (if first \<and> rp_caps c \<noteq> [] then [NUL] @ join '' '' (rp_caps c) else []) @ [NL]"

definition command_ok :: "rp_command \<Rightarrow> bool" where
  "command_ok c \<longleftrightarrow> token (rp_old c) \<and> token (rp_new c) \<and> one_line (rp_ref c) \<and>
     (\<forall>x \<in> set (rp_caps c). word_str x) \<and> length (command_line True c) \<le> max_payload"

fun command_pkts :: "bool \<Rightarrow> rp_command list \<Rightarrow> string" where
  "command_pkts first [] = []"
| "command_pkts first (c # cs) = pkt (command_line first c) @ command_pkts False cs"

lemma split_three:
  assumes "token a" and "token b"
  shows "split_n SP 3 (a @ SP # b @ SP # c) = [a, b, c]"
proof -
  have "SP \<notin> set a" "SP \<notin> set b" using assms by (auto simp: token_def)
  then show ?thesis by (simp add: numeral_3_eq_3 index_byte_append)
qed

lemma parse_command_line:
  assumes "command_ok c"
  shows "parse_command (command_line first c) =
    Some (c\<lparr>rp_caps := []\<rparr>, if first then rp_caps c else [])"
proof -
  let ?l = "rp_old c @ SP # rp_new c @ SP # rp_ref c"
  have ol: "one_line ?l" and nul: "NUL \<notin> set ?l" and t: "token (rp_old c)" "token (rp_new c)"
    and w: "\<forall>x \<in> set (rp_caps c). word_str x"
    using assms by (auto simp: command_ok_def one_line_def token_def)
  have "NUL \<notin> set (?l @ [NL])" using nul by simp
  note plain = cut_nul_none [OF this]
  have "cut_nul (?l @ NUL # (join '' '' (rp_caps c) @ [NL])) = (?l, Some (join '' '' (rp_caps c) @ [NL]))"
    by (rule cut_nul_some [OF nul])
  then show ?thesis
    using plain split_three [OF t] trim_right_one_line [OF ol] trim_right_NL [OF ol] caps_of_line [OF w]
    by (simp add: parse_command_def command_line_def caps_of_def)
qed

lemma command_loop_data:
  "scan omax s = (True, s') \<Longrightarrow> sc_marker s' = Data \<Longrightarrow>
   parse_command (sc_payload s') = Some (c, caps) \<Longrightarrow>
   command_loop omax s cmds =
     command_loop omax s' (cmds @ [if caps \<noteq> [] \<and> cmds = [] then c\<lparr>rp_caps := caps\<rparr> else c])"
  by (simp add: command_loop.simps [of omax s])

lemma command_loop_flush:
  "sc_in s = ''0000'' @ rest \<Longrightarrow>
   \<exists>s'. command_loop omax s cmds = Inr (cmds, s') \<and> sc_in s' = rest \<and> sc_err s' = sc_err s"
  using scan_flush [of s rest omax] by (simp add: command_loop.simps [of omax s])

lemma command_line_shorter: "length (command_line False c) \<le> length (command_line True c)"
  by (simp add: command_line_def)

lemma command_loop_lines:
  assumes "max_payload \<le> omax" and "\<forall>c \<in> set cs. command_ok c \<and> rp_caps c = []" and "cmds \<noteq> []"
    and "sc_in s = command_pkts False cs @ ''0000'' @ rest"
  shows "\<exists>s'. command_loop omax s cmds = Inr (cmds @ cs, s') \<and> sc_in s' = rest \<and> sc_err s' = sc_err s"
  using assms(2-4)
proof (induction cs arbitrary: s cmds)
  case Nil
  then show ?case using command_loop_flush [of s rest omax cmds] by simp
next
  case (Cons c cs)
  let ?s = "s\<lparr>sc_in := command_pkts False cs @ ''0000'' @ rest, sc_marker := Data,
              sc_payload := command_line False c, sc_raw := pkt (command_line False c)\<rparr>"
  have ok: "command_ok c" "rp_caps c = []" using Cons.prems by auto
  have "length (command_line False c) \<le> max_payload"
    using ok(1) command_line_shorter [of c] by (simp add: command_ok_def)
  then have sc: "scan omax s = (True, ?s)"
    using Cons.prems assms(1) by (intro scan_pkt) auto
  have "parse_command (sc_payload ?s) = Some (c\<lparr>rp_caps := []\<rparr>, [])"
    using parse_command_line [OF ok(1), of False] by simp
  then have "command_loop omax s cmds = command_loop omax ?s (cmds @ [c\<lparr>rp_caps := []\<rparr>])"
    using command_loop_data [OF sc, of "c\<lparr>rp_caps := []\<rparr>" "[]" cmds] by simp
  moreover have "c\<lparr>rp_caps := []\<rparr> = c" using ok(2) by (cases c) simp
  moreover obtain s' where "command_loop omax ?s (cmds @ [c]) = Inr ((cmds @ [c]) @ cs, s')"
    "sc_in s' = rest" "sc_err s' = sc_err ?s"
    using Cons.IH [of "cmds @ [c]" ?s] Cons.prems by auto
  ultimately show ?case by simp
qed

lemma parse_receive_pack_lines:
  assumes "max_payload \<le> omax" and "command_ok c" and "\<forall>d \<in> set cs. command_ok d \<and> rp_caps d = []"
  defines "head \<equiv> command_pkts True (c # cs) @ ''0000''"
  shows "parse_receive_pack omax (bytes_source (head @ tail)) =
    Inr \<lparr>rp_commands = c # cs,
         rp_offset = (if has_prefix tail ''PACK'' then int (length head) else -1)\<rparr>"
proof -
  let ?s = "scanner_on (bytes_source (head @ tail))"
  let ?s1 = "?s\<lparr>sc_in := command_pkts False cs @ ''0000'' @ tail, sc_marker := Data,
              sc_payload := command_line True c, sc_raw := pkt (command_line True c)\<rparr>"
  have "length (command_line True c) \<le> max_payload" using assms(2) by (simp add: command_ok_def)
  then have sc: "scan omax ?s = (True, ?s1)"
    using assms(1) by (intro scan_pkt) (auto simp: head_def bytes_source_def)
  have "parse_command (sc_payload ?s1) = Some (c\<lparr>rp_caps := []\<rparr>, rp_caps c)"
    using parse_command_line [OF assms(2), of True] by simp
  then have "command_loop omax ?s [] = command_loop omax ?s1
      ([] @ [if rp_caps c \<noteq> [] \<and> [] = ([] :: rp_command list) then (c\<lparr>rp_caps := []\<rparr>)\<lparr>rp_caps := rp_caps c\<rparr>
             else c\<lparr>rp_caps := []\<rparr>])"
    using command_loop_data [OF sc, of "c\<lparr>rp_caps := []\<rparr>" "rp_caps c" "[]"] by simp
  moreover have "(if rp_caps c \<noteq> [] then (c\<lparr>rp_caps := []\<rparr>)\<lparr>rp_caps := rp_caps c\<rparr>
             else c\<lparr>rp_caps := []\<rparr>) = c" by (cases c) simp
  moreover obtain s' where "command_loop omax ?s1 [c] = Inr ([c] @ cs, s')" "sc_in s' = tail"
      "sc_err s' = sc_err ?s1"
    using command_loop_lines [OF assms(1,3), of "[c]" ?s1 tail] by auto
  ultimately show ?thesis
    by (simp add: parse_receive_pack_def bytes_source_def)
qed

text \<open>In any parsed request the offset, if there is one, is where the packfile begins.\<close>

lemma scan_suffix:
  assumes "scan omax s = (ok, s')"
  shows "\<exists>a. sc_in s = a @ sc_in s'"
proof -
  have "\<exists>k. sc_in s' = drop k (sc_in s) \<or> sc_in s' = []"
    using assms by (auto simp: scan_def Let_def split: if_splits option.splits)
  then show ?thesis by (metis append_take_drop_id append_Nil2)
qed

lemma command_loop_suffix:
  "command_loop omax s cmds = Inr (cs, s'') \<Longrightarrow> \<exists>a. sc_in s = a @ sc_in s''"
proof (induction omax s cmds arbitrary: cs s'' rule: command_loop.induct)
  case (1 omax s cmds)
  obtain ok s' where sc: "scan omax s = (ok, s')" by fastforce
  obtain a where a: "sc_in s = a @ sc_in s'" using scan_suffix [OF sc] by blast
  note unf = command_loop.simps [of omax s cmds, unfolded sc prod.case]
  consider (stop) "s'' = s'"
    | (skip) "ok" "sc_marker s' \<noteq> Flush" "sc_marker s' \<noteq> Data" "command_loop omax s' cmds = Inr (cs, s'')"
    | (data) c caps where "ok" "sc_marker s' = Data" "parse_command (sc_payload s') = Some (c, caps)"
        "command_loop omax s' (cmds @ [if caps \<noteq> [] \<and> cmds = [] then c\<lparr>rp_caps := caps\<rparr> else c]) = Inr (cs, s'')"
    using "1.prems" unf
    by (cases ok; cases "sc_marker s' = Flush"; cases "sc_marker s' = Data";
        cases "parse_command (sc_payload s')") auto
  then show ?case
  proof cases
    case stop
    then show ?thesis using a by blast
  next
    case skip
    then have "\<exists>b. sc_in s' = b @ sc_in s''"
      using "1.IH"(1) [of True s'] sc by simp
    then show ?thesis using a by (metis append.assoc)
  next
    case data
    then have "\<exists>b. sc_in s' = b @ sc_in s''"
      using "1.IH"(2) [of True s' "(c, caps)" c caps] sc by simp
    then show ?thesis using a by (metis append.assoc)
  qed
qed

lemma parse_receive_pack_offset:
  assumes "parse_receive_pack omax src = Inr req"
  shows "rp_commands req \<noteq> []"
    and "0 \<le> rp_offset req \<Longrightarrow> has_prefix (drop (nat (rp_offset req)) (src_bytes src)) ''PACK''"
proof -
  obtain cmds s where l: "command_loop omax (scanner_on src) [] = Inr (cmds, s)"
    using assms by (auto simp: parse_receive_pack_def split: sum.splits)
  then have r: "cmds \<noteq> []" "req = \<lparr>rp_commands = cmds,
      rp_offset = (if has_prefix (sc_in s) ''PACK''
                   then int (length (src_bytes src)) - int (length (sc_in s)) else -1)\<rparr>"
    using assms by (auto simp: parse_receive_pack_def split: option.splits if_splits)
  show "rp_commands req \<noteq> []" using r by simp
  obtain a where "src_bytes src = a @ sc_in s" using command_loop_suffix [OF l] by auto
  then show "0 \<le> rp_offset req \<Longrightarrow> has_prefix (drop (nat (rp_offset req)) (src_bytes src)) ''PACK''"
    using r(2) by (auto split: if_splits)
qed

section \<open>Report status\<close>

lemma aggregate_one_line: "NL \<notin> set (aggregate_reasons dec) \<and> CHR 0x0D \<notin> set (aggregate_reasons dec)"
  by (auto simp: aggregate_reasons_def flat_byte_def)

definition ng_line :: "string \<Rightarrow> string \<Rightarrow> string" where
  "ng_line reason ref = ''ng '' @ ref @ '' '' @ reason @ [NL]"

definition report_bytes :: "string list \<Rightarrow> decision \<Rightarrow> string" where
  "report_bytes refs dec =
     concat (map pkt ((''unpack ok'' @ [NL]) # map (ng_line (aggregate_reasons dec)) refs)) @ ''0000''"

lemma encode_ngs_good:
  assumes "gogit_ok G" and "wsched w = []"
    and "\<forall>ref \<in> set refs. length (ng_line reason ref) \<le> max_payload"
  shows "encode_ngs G w refs reason =
    (w\<lparr>wout := wout w @ concat (map pkt (map (ng_line reason) refs))\<rparr>, None)"
  using assms(2,3)
proof (induction refs arbitrary: w)
  case Nil
  then show ?case by simp
next
  case (Cons ref refs)
  let ?w = "w\<lparr>wout := wout w @ pkt (ng_line reason ref)\<rparr>"
  have "encode_string G w (ng_line reason ref) = (?w, None)"
    using encode_string_ok [OF assms(1), of "ng_line reason ref" w] Cons.prems
    by (simp add: ng_line_def)
  then show ?case
    using Cons.IH [of ?w] Cons.prems by (simp add: ng_line_def del: encode_string.simps)
qed

lemma encode_report_good:
  assumes "gogit_ok G" and "wsched w = []"
    and "\<forall>ref \<in> set refs. length (ng_line (aggregate_reasons dec) ref) \<le> max_payload"
  shows "encode_report_status_deny G w refs dec = (w\<lparr>wout := wout w @ report_bytes refs dec\<rparr>, None)"
proof -
  let ?w1 = "w\<lparr>wout := wout w @ pkt (''unpack ok'' @ [NL])\<rparr>"
  have s1: "encode_string G w (''unpack ok'' @ [NL]) = (?w1, None)"
    using encode_string_ok [OF assms(1), of "''unpack ok'' @ [NL]" w] assms(2)
    by (simp add: max_payload_def)
  have w1: "wsched ?w1 = []" using assms(2) by simp
  show ?thesis
    unfolding encode_report_status_deny_def s1 prod.case option.case
    using encode_ngs_good [OF assms(1) w1 assms(3)] assms(2)
    by (simp add: enc_flush_ok [OF assms(1)] wrap_error_def report_bytes_def)
qed

end
