(* ===== verification/PushProps.thy ===== *)
theory PushProps
  imports PushProxy Rules WireLaws
begin

text \<open>
  The properties of the push path: what is sent upstream and when, what a denied agent sees,
  what the mirror and the records keep, and what reaches git's command line. The witnesses run
  the whole path on concrete requests, with a git binary that knows two commits.
\<close>

section \<open>A concrete proxy\<close>

definition oid_a :: string where "oid_a = replicate 40 (CHR ''a'')"
definition oid_b :: string where "oid_b = replicate 40 (CHR ''b'')"
definition oid_f :: string where "oid_f = replicate 40 (CHR ''f'')"

definition ok_result :: "string \<Rightarrow> git_result" where
  "ok_result out = \<lparr>gr_stdout = out, gr_stderr = [], gr_error = None\<rparr>"

text \<open>A git with one new commit \<open>b\<close> that adds a file \<open>f\<close> at \<open>secrets/k\<close>.\<close>

definition demo_git :: "unit \<Rightarrow> string list \<Rightarrow> string \<Rightarrow> unit \<times> git_result" where
  "demo_git d argv stdin =
     (d, ok_result
       (let cmd = argv ! 2 in
        if cmd = ''index-pack'' then ''pack'' @ [TAB] @ ''77'' @ [NL]
        else if cmd = ''show-index'' then ''12 '' @ oid_b @ [NL] @ ''99 '' @ oid_f @ [NL]
        else if cmd = ''log'' then oid_b @ [NUL] @ ''subject'' @ [NL] @ [NUL] @ [NL]
        else if cmd = ''diff-tree''
          then '':000000 100644 '' @ zero_oid @ '' '' @ oid_f @ '' A'' @ [TAB] @ ''secrets/k'' @ [NL]
        else if cmd = ''rev-list''
          then (if argv ! 3 = ''--objects'' then oid_b @ [NL] @ oid_f @ '' secrets/k'' @ [NL] else oid_b @ [NL])
        else if cmd = ''cat-file'' then ''top secret'' else []))"

definition demo_env :: "unit env" where
  "demo_env = \<lparr>x_git = demo_git, x_remove_all = (\<lambda>d p. (d, None)),
               x_remove = (\<lambda>d p. (d, Removed)), x_open = (\<lambda>d p. Inr ''idx''), x_stat = (\<lambda>d p. True)\<rparr>"

definition deny_secrets :: rule where
  "deny_secrets = path_acl \<lparr>rc_enabled = True, rc_agents = [], rc_repos = [],
                            rc_params = [''deny'' \<mapsto> YStrs [''secrets/**'']]\<rparr>"

definition demo_proxy :: "rule list \<Rightarrow> bool \<Rightarrow> unit proxy" where
  "demo_proxy rules dry =
     \<lparr>px_env = demo_env, px_gogit = wire_gogit, px_engine = Some (new_engine CollectAll rules),
      px_opener = Some (\<lambda>repo m. (m, None)), px_max = 5000, px_read_deny = None,
      px_audit = Some (\<lambda>e. None), px_alert = Some (\<lambda>a. None), px_transport = ''http'',
      px_dry_run = dry, px_receive = (\<lambda>repo b. Inr (bytes_source ''0000'')),
      px_upload = (\<lambda>repo b. Inr (bytes_source []))\<rparr>"

definition demo_world :: "unit world" where
  "demo_world =
     \<lparr>w_mirror = \<lparr>m_dir = ''/m'', m_url = ''https://up/r'', m_disk = (), m_calls = []\<rparr>,
      w_client = fresh_writer, w_sent = [], w_events = [], w_alerts = []\<rparr>"

text \<open>A push of \<open>a..b\<close> to a branch, with a packfile.\<close>

definition demo_push :: string where
  "demo_push =
     pkt (oid_a @ '' '' @ oid_b @ '' refs/heads/x'' @ [NUL] @ ''report-status'' @ [NL])
     @ ''0000'' @ ''PACKdata''"

section \<open>Shared facts\<close>

lemma read_capped:
  assumes "read_limited (mx + 1) body = Inr buf" and "int (length buf) \<le> mx"
  shows "buf = src_bytes body \<and> src_fail body = None"
  using assms by (auto simp: read_limited_def read_all_def split: if_splits option.splits)

lemma receive_enforcing:
  assumes "px_engine px = Some eng" and "px_opener px = Some opener"
  shows "receive_pack px ctx repo body w =
    (case read_limited (px_max px + 1) body of
       Inl e \<Rightarrow> (w, Some (''gitproto: read receive-pack request: '' @ e))
     | Inr buf \<Rightarrow> receive_enforced px eng opener ctx repo buf
                    (parse_receive_pack (g_omax (px_gogit px)) (bytes_source buf)) w)"
  using assms by (simp add: receive_pack_def Let_def split: sum.splits)

lemma inspected_runs:
  assumes "inspected px eng opener ctx repo buf req (w_mirror w) pid m' dec err"
    and "int (length buf) \<le> px_max px"
  obtains w3 where "receive_enforced px eng opener ctx repo buf (Inr req) w =
      decide_push px eng ctx repo buf req pid w3"
    and "enforce_receive_pack (px_env px) eng req (agent_name ctx) repo pid (w_mirror w3) = (m', dec, err)"
    and "w3 = w\<lparr>w_mirror := w_mirror w3\<rparr>"
proof -
  obtain m1 m2 m3 where i: "opener repo (w_mirror w) = (m1, None)" "refresh (px_env px) m1 = (m2, Inr ())"
    "case packfile_of req buf of None \<Rightarrow> m3 = m2 \<and> pid = []
     | Some pack \<Rightarrow> ingest_packfile (px_env px) pack m2 = (m3, Inr pid)"
    "enforce_receive_pack (px_env px) eng req (agent_name ctx) repo pid m3 = (m', dec, err)"
    using assms(1) unfolding inspected_def by blast
  have p: "ingest_push px req buf (w\<lparr>w_mirror := m2\<rparr>) = (w\<lparr>w_mirror := m3\<rparr>, Inr pid)"
    using i(3) by (auto simp: ingest_push_def on_mirror_def split: option.splits)
  have "receive_enforced px eng opener ctx repo buf (Inr req) w =
      decide_push px eng ctx repo buf req pid (w\<lparr>w_mirror := m3\<rparr>)"
    using assms(2) i(1,2) p by (simp add: receive_enforced_def on_mirror_def)
  then show ?thesis using that [of "w\<lparr>w_mirror := m3\<rparr>"] i(4) by simp
qed

lemma decide_push_result:
  assumes "enforce_receive_pack (px_env px) eng req (agent_name ctx) repo pid (w_mirror w) = (m', dec, err)"
  shows "decide_push px eng ctx repo buf req pid w =
    (if d_verdict dec = VerdictAllow \<or> (px_dry_run px \<and> err = None)
     then forward_receive_pack px repo buf
            (record_push_audit px ctx repo (Some req) dec (d_verdict dec = VerdictDeny) (w\<lparr>w_mirror := m'\<rparr>))
     else (let w' = answer_deny px ctx repo req dec (w\<lparr>w_mirror := m'\<rparr>) in
           (if pid \<noteq> [] then fst (on_mirror (remove_pack (px_env px) pid) w') else w', None)))"
proof -
  have o: "on_mirror (enforce_receive_pack (px_env px) eng req (agent_name ctx) repo pid) w =
      (w\<lparr>w_mirror := m'\<rparr>, dec, err)"
    using assms by (simp add: on_mirror_def)
  show ?thesis
  proof (cases "d_verdict dec")
    case VerdictAllow
    then show ?thesis by (simp add: decide_push_def o)
  next
    case VerdictDeny
    then show ?thesis by (simp add: decide_push_def o Let_def)
  qed
qed

lemma list_all2_in: "list_all2 P xs ys \<Longrightarrow> x \<in> set xs \<Longrightarrow> \<exists>y \<in> set ys. P x y"
  by (induction xs ys rule: list_all2_induct) auto









section \<open>Properties\<close>

lemma forwarded_inspected:
  assumes "px_engine px = Some eng" and "px_opener px = Some opener"
    and "receive_pack px ctx repo body w = (w', e)" and "w_sent w' \<noteq> w_sent w"
  shows "\<exists>req pid m0 m' dec q.
    int (length (src_bytes body)) \<le> px_max px \<and>
    parse_receive_pack (g_omax (px_gogit px)) (bytes_source (src_bytes body)) = Inr req \<and>
    inspected px eng opener ctx repo (src_bytes body) req (w_mirror w) pid m' dec None \<and>
    prepare_push (px_env px) (rp_commands req) (agent_name ctx) repo pid m0 = (m', Inr q) \<and>
    dec = evaluate_push eng q \<and> list_all2 mirrors (rp_commands req) (q_updates q) \<and>
    (d_verdict dec = VerdictAllow \<or> px_dry_run px) \<and>
    w_sent w' = w_sent w @ [(''git-receive-pack'', repo, src_bytes body)]"
proof -
  obtain buf where r: "read_limited (px_max px + 1) body = Inr buf"
    using assms by (cases "read_limited (px_max px + 1) body") (auto simp: receive_enforcing)
  then have run: "receive_enforced px eng opener ctx repo buf
      (parse_receive_pack (g_omax (px_gogit px)) (bytes_source buf)) w = (w', e)"
    using assms by (simp add: receive_enforcing)
  then obtain req w3 pid m' dec err where c:
    "parse_receive_pack (g_omax (px_gogit px)) (bytes_source buf) = Inr req" "int (length buf) \<le> px_max px"
    "inspected px eng opener ctx repo buf req (w_mirror w) pid m' dec err"
    "enforce_receive_pack (px_env px) eng req (agent_name ctx) repo pid (w_mirror w3) = (m', dec, err)"
    "w_sent w3 = w_sent w" "decide_push px eng ctx repo buf req pid w3 = (w', e)"
    using receive_enforced_cases [OF run] assms(4) by blast
  note b = read_capped [OF r c(2)]
  have s: "w_sent w' = w_sent w @ (if d_verdict dec = VerdictAllow \<or> (px_dry_run px \<and> err = None)
      then [(''git-receive-pack'', repo, buf)] else [])"
    using decide_push_sent [OF c(6,4)] c(5) by simp
  then have d: "d_verdict dec = VerdictAllow \<or> (px_dry_run px \<and> err = None)"
    using assms(4) by (auto split: if_splits)
  then have "err = None" using enforce_allow [OF c(4)] by blast
  moreover from this obtain q where q: "prepare_push (px_env px) (rp_commands req) (agent_name ctx) repo pid
      (w_mirror w3) = (m', Inr q)" "dec = evaluate_push eng q"
    using c(4) by (auto simp: enforce_receive_pack_def split: prod.splits sum.splits)
  moreover obtain m1 where "classify_updates (px_env px) (rp_commands req) [] (w_mirror w3) = (m1, Inr (q_updates q))"
    by (rule prepare_push_Inr [OF q(1)])
  then have "list_all2 mirrors (rp_commands req) (q_updates q)"
    using classify_updates_Inr by fastforce
  ultimately show ?thesis
    using b c s d
    by (intro exI [of _ req] exI [of _ pid] exI [of _ "w_mirror w3"] exI [of _ m'] exI [of _ dec] exI [of _ q]) auto
qed

text \<open>C4: with enforcement on, a push reaches the upstream only when it was inspected without
  an error and the engine allowed it, or denied it cleanly in dry-run mode; and then what is
  sent is the agent's body, byte for byte, within the size cap.\<close>

theorem push_forwarded_only_if_inspected:
  assumes "px_engine px = Some eng" and "px_opener px = Some opener"
    and "receive_pack px ctx repo body w = (w', e)" and "w_sent w' \<noteq> w_sent w"
  shows "\<exists>req pid m' dec q.
    int (length (src_bytes body)) \<le> px_max px \<and>
    parse_receive_pack (g_omax (px_gogit px)) (bytes_source (src_bytes body)) = Inr req \<and>
    inspected px eng opener ctx repo (src_bytes body) req (w_mirror w) pid m' dec None \<and>
    dec = evaluate_push eng q \<and> list_all2 mirrors (rp_commands req) (q_updates q) \<and>
    (d_verdict dec = VerdictAllow \<or> px_dry_run px) \<and>
    w_sent w' = w_sent w @ [(''git-receive-pack'', repo, src_bytes body)]"
  using forwarded_inspected [OF assms] by blast

theorem push_forwarded_only_if_inspected_witness:
  "\<exists>req pid m' dec q.
    parse_receive_pack 65520 (bytes_source demo_push) = Inr req \<and>
    inspected (demo_proxy [] False) (new_engine CollectAll []) (\<lambda>repo m. (m, None)) None ''r''
      demo_push req (w_mirror demo_world) pid m' dec None \<and>
    dec = evaluate_push (new_engine CollectAll []) q \<and> length (q_updates q) = 1"
proof -
  let ?px = "demo_proxy [] False"
  obtain w' e where run: "receive_pack ?px None ''r'' (bytes_source demo_push) demo_world = (w', e)"
    by fastforce
  have "w_sent (fst (receive_pack ?px None ''r'' (bytes_source demo_push) demo_world)) \<noteq> w_sent demo_world"
    by code_simp
  then have "w_sent w' \<noteq> w_sent demo_world" by (simp add: run)
  moreover have "px_engine ?px = Some (new_engine CollectAll [])"
    "px_opener ?px = Some (\<lambda>repo m. (m, None))" by (simp_all add: demo_proxy_def)
  ultimately have key: "\<exists>req pid m' dec q.
      int (length (src_bytes (bytes_source demo_push))) \<le> px_max ?px \<and>
      parse_receive_pack (g_omax (px_gogit ?px)) (bytes_source (src_bytes (bytes_source demo_push))) = Inr req \<and>
      inspected ?px (new_engine CollectAll []) (\<lambda>repo m. (m, None)) None ''r''
        (src_bytes (bytes_source demo_push)) req (w_mirror demo_world) pid m' dec None \<and>
      dec = evaluate_push (new_engine CollectAll []) q \<and>
      list_all2 mirrors (rp_commands req) (q_updates q) \<and>
      (d_verdict dec = VerdictAllow \<or> px_dry_run ?px) \<and>
      w_sent w' = w_sent demo_world @ [(''git-receive-pack'', ''r'', src_bytes (bytes_source demo_push))]"
    using push_forwarded_only_if_inspected [OF _ _ run] by blast
  have "g_omax (px_gogit ?px) = 65520" by (simp add: demo_proxy_def wire_gogit_def)
  then obtain req pid m' dec q where p: "parse_receive_pack 65520 (bytes_source demo_push) = Inr req"
    "inspected ?px (new_engine CollectAll []) (\<lambda>repo m. (m, None)) None ''r''
      demo_push req (w_mirror demo_world) pid m' dec None"
    "dec = evaluate_push (new_engine CollectAll []) q" "list_all2 mirrors (rp_commands req) (q_updates q)"
    using key unfolding \<open>g_omax (px_gogit ?px) = 65520\<close> by (auto simp: bytes_source_def)
  have "(case parse_receive_pack 65520 (bytes_source demo_push) of
      Inl _ \<Rightarrow> False | Inr req \<Rightarrow> length (rp_commands req) = 1)" by code_simp
  then have "length (q_updates q) = 1" using p(1) list_all2_lengthD [OF p(4)] by simp
  then show ?thesis using p by blast
qed

text \<open>C5: a push that the enforcement denies (and that dry-run does not let through) never
  reaches the upstream; the agent gets the report-status reply, the ingested pack is removed
  from the mirror, and the deny is recorded with its reasons as an audit event and an alert.\<close>

theorem push_denied:
  assumes "px_engine px = Some eng" and "px_opener px = Some opener" and "src_fail body = None"
    and "int (length (src_bytes body)) \<le> px_max px"
    and "parse_receive_pack (g_omax (px_gogit px)) (bytes_source (src_bytes body)) = Inr req"
    and "inspected px eng opener ctx repo (src_bytes body) req (w_mirror w) pid m' dec err"
    and "d_verdict dec = VerdictDeny" and "\<not> (px_dry_run px \<and> err = None)"
    and "px_audit px = Some sink" and "px_alert px = Some asink"
    and "receive_pack px ctx repo body w = (w', e)"
  shows "e = None \<and> w_sent w' = w_sent w \<and>
    w_client w' = write_deny_response (px_gogit px) req dec (w_client w) \<and>
    w_mirror w' = (if pid = [] then m' else fst (remove_pack (px_env px) pid m')) \<and>
    w_events w' = w_events w @
      [\<lparr>ae_transport = px_transport px, ae_agent = agent_name ctx, ae_repo = repo,
        ae_service = ''git-receive-pack'', ae_verdict = ''deny'', ae_reasons = map r_message (d_reasons dec),
        ae_refs = audit_refs (Some req), ae_denied_paths = [], ae_denied_oids = [], ae_dry_run = False\<rparr>] \<and>
    w_alerts w' = w_alerts w @
      [\<lparr>al_transport = px_transport px, al_agent = agent_name ctx, al_repo = repo,
        al_service = ''git-receive-pack'', al_verdict = ''deny'', al_dry_run = False,
        al_reasons = map r_message (d_reasons dec), al_refs = audit_refs (Some req),
        al_denied_paths = [], al_denied_oids = []\<rparr>]"
proof -
  have "read_limited (px_max px + 1) body = Inr (src_bytes body)"
    using assms(3,4) by (simp add: read_limited_def read_all_def)
  moreover obtain w3 where w3:
    "receive_enforced px eng opener ctx repo (src_bytes body) (Inr req) w =
       decide_push px eng ctx repo (src_bytes body) req pid w3"
    "enforce_receive_pack (px_env px) eng req (agent_name ctx) repo pid (w_mirror w3) = (m', dec, err)"
    "w3 = w\<lparr>w_mirror := w_mirror w3\<rparr>"
    using inspected_runs [OF assms(6,4)] by blast
  ultimately have run: "decide_push px eng ctx repo (src_bytes body) req pid w3 = (w', e)"
    using assms(5,11) by (simp add: receive_enforcing [OF assms(1,2)])
  have same: "w_sent w3 = w_sent w" "w_client w3 = w_client w" "w_events w3 = w_events w"
    "w_alerts w3 = w_alerts w"
    by (subst w3(3), simp)+
  have w': "w' = (let v = answer_deny px ctx repo req dec (w3\<lparr>w_mirror := m'\<rparr>) in
      if pid \<noteq> [] then fst (on_mirror (remove_pack (px_env px) pid) v) else v)" "e = None"
    using run decide_push_result [OF w3(2)] assms(7,8) by (auto simp: Let_def)
  show ?thesis
    using w' same assms(7,9,10)
    by (simp add: Let_def answer_deny_def record_push_audit_def record_audit_def record_alert_def
        verdict_string_def decision_reasons_def on_mirror_def split: prod.splits)
qed

theorem push_denied_witness:
  "\<exists>req pid m' dec.
     parse_receive_pack 65520 (bytes_source demo_push) = Inr req \<and>
     inspected (demo_proxy [deny_secrets] False) (new_engine CollectAll [deny_secrets])
       (\<lambda>repo m. (m, None)) None ''r'' demo_push req (w_mirror demo_world) pid m' dec None \<and> pid \<noteq> [] \<and>
     (let w' = fst (receive_pack (demo_proxy [deny_secrets] False) None ''r'' (bytes_source demo_push) demo_world)
      in w_sent w' = [] \<and> w_mirror w' = fst (remove_pack demo_env pid m') \<and> length (w_alerts w') = 1)"
proof -
  let ?px = "demo_proxy [deny_secrets] False" and ?eng = "new_engine CollectAll [deny_secrets]"
  let ?op = "\<lambda>(repo :: string) (m :: unit mirror). (m, None :: go_error option)"
  have "(case parse_receive_pack 65520 (bytes_source demo_push) of
      Inl _ \<Rightarrow> False
    | Inr req \<Rightarrow> (case inspect_run ?px ?eng ?op None ''r'' demo_push req (w_mirror demo_world) of
          None \<Rightarrow> False | Some (pid, m', dec, err) \<Rightarrow> pid \<noteq> [] \<and> denies dec \<and> err = None))"
    by code_simp
  then obtain req pid m' dec where p: "parse_receive_pack 65520 (bytes_source demo_push) = Inr req"
    "inspect_run ?px ?eng ?op None ''r'' demo_push req (w_mirror demo_world) = Some (pid, m', dec, None)"
    "pid \<noteq> []" "d_verdict dec = VerdictDeny"
    by (auto simp: denies_def split: sum.splits option.splits)
  note i = inspected_run [OF p(2)]
  have len: "int (length demo_push) \<le> 5000" by code_simp
  obtain w' e where run: "receive_pack ?px None ''r'' (bytes_source demo_push) demo_world = (w', e)"
    by fastforce
  have "e = None \<and> w_sent w' = w_sent demo_world \<and>
      w_client w' = write_deny_response (px_gogit ?px) req dec (w_client demo_world) \<and>
      w_mirror w' = (if pid = [] then m' else fst (remove_pack (px_env ?px) pid m')) \<and>
      w_events w' = w_events demo_world @ [(\<lparr>ae_transport = px_transport ?px, ae_agent = agent_name None,
        ae_repo = ''r'', ae_service = ''git-receive-pack'', ae_verdict = ''deny'',
        ae_reasons = map r_message (d_reasons dec), ae_refs = audit_refs (Some req),
        ae_denied_paths = [], ae_denied_oids = [], ae_dry_run = False\<rparr>)] \<and>
      w_alerts w' = w_alerts demo_world @ [(\<lparr>al_transport = px_transport ?px, al_agent = agent_name None,
        al_repo = ''r'', al_service = ''git-receive-pack'', al_verdict = ''deny'', al_dry_run = False,
        al_reasons = map r_message (d_reasons dec), al_refs = audit_refs (Some req),
        al_denied_paths = [], al_denied_oids = []\<rparr>)]"
    using i p len
    by (intro push_denied [where px = ?px and eng = ?eng and opener = ?op and ctx = None and repo = "''r''"
          and w = demo_world and sink = "\<lambda>e. None" and asink = "\<lambda>a. None" and body = "bytes_source demo_push"
          and err = None, OF _ _ _ _ _ _ _ _ _ _ run])
       (simp_all add: demo_proxy_def bytes_source_def wire_gogit_def)
  then show ?thesis using p(1,3) i run by (auto simp: demo_world_def demo_proxy_def)
qed

text \<open>A push that is over the size cap, or whose request does not parse, is never
  forwarded and never inspected: nothing is sent and the mirror is not touched.\<close>

lemma push_unread_refused:
  assumes "px_engine px = Some eng" and "px_opener px = Some opener"
    and "int (length (src_bytes body)) > px_max px \<or>
         (\<exists>x. parse_receive_pack (g_omax (px_gogit px)) (bytes_source (src_bytes body)) = Inl x)"
    and "receive_pack px ctx repo body w = (w', e)"
  shows "w_sent w' = w_sent w \<and> w_mirror w' = w_mirror w"
proof (cases "read_limited (px_max px + 1) body")
  case (Inl x)
  then show ?thesis using assms by (simp add: receive_enforcing)
next
  case (Inr buf)
  have "int (length buf) > px_max px \<or>
      (\<exists>x. parse_receive_pack (g_omax (px_gogit px)) (bytes_source buf) = Inl x)"
  proof (cases "int (length buf) \<le> px_max px")
    case True
    then have "buf = src_bytes body" using read_capped [OF Inr] by blast
    then show ?thesis using assms(3) True by auto
  qed auto
  then show ?thesis
    using assms(4) Inr
    by (auto simp: receive_enforcing [OF assms(1,2)] receive_enforced_def split: sum.splits if_splits)
qed

definition demo_request :: rp_request where
  "demo_request = \<lparr>rp_commands = [\<lparr>rp_old = oid_a, rp_new = oid_b, rp_ref = ''refs/heads/x'',
      rp_caps = [''report-status'']\<rparr>], rp_offset = 120\<rparr>"

text \<open>C12: whatever a push asks for, the enforcement step runs git only as one of seven commands
  in the mirror's directory, whose arguments are the program's own words and 40-digit
  hexadecimal ids: no other value of the ref updates, no ref name and no path of a changed file
  reaches git's command line. What it relies on of git is the documented raw format of
  \<open>diff-tree\<close>, whose ids are passed on to \<open>cat-file blob\<close>.\<close>

theorem push_git_arguments:
  assumes "prints_raw_diff env"
    and "enforce_receive_pack env eng req agent repo pid m = (m', dec, err)"
  shows "\<exists>l. m_calls m' = m_calls m @ l \<and>
    (\<forall>argv \<in> set l. \<exists>args. argv = full_args (m_dir m) args \<and> push_command args)"
  using enforce_extends [OF assms] by (auto simp: extends_def safe_argv_def)

lemma demo_prints: "prints_raw_diff demo_env"
proof -
  have out: "snd (x_git demo_env d (full_args dir diff_tree_args) stdin)
      = ok_result ('':000000 100644 '' @ zero_oid @ '' '' @ oid_f @ '' A'' @ [TAB] @ ''secrets/k'' @ [NL])"
    for d dir stdin
    by (simp add: demo_env_def demo_git_def full_args_def diff_tree_args_def)
  let ?line = "join '' '' ['':000000'', ''100644'', zero_oid, oid_f, ''A''] @ TAB # ''secrets/k''"
  have split: "split_clean_lines ('':000000 100644 '' @ zero_oid @ '' '' @ oid_f @ '' A'' @ [TAB] @ ''secrets/k'' @ [NL])
      = [?line]" by code_simp
  have "word_str '':000000''" "word_str ''100644''" "is_hex_sha zero_oid" "is_hex_sha oid_f" "word_str ''A''"
    by code_simp+
  then have "raw_diff_line ?line" by (rule raw_diff_lineI)
  then have "\<forall>line \<in> set [?line]. raw_diff_line line" by (simp del: join.simps)
  then show ?thesis unfolding prints_raw_diff_def out ok_result_def git_result.simps split by blast
qed

theorem push_git_arguments_witness:
  "\<exists>m' dec err l. prints_raw_diff demo_env \<and>
     enforce_receive_pack demo_env (new_engine CollectAll []) demo_request [] ''r'' ''77'' (w_mirror demo_world)
       = (m', dec, err)
     \<and> m_calls m' = [] @ l \<and> length l = 7
     \<and> (\<forall>argv \<in> set l. \<exists>args. argv = full_args ''/m'' args \<and> push_command args)"
proof -
  let ?run = "enforce_receive_pack demo_env (new_engine CollectAll []) demo_request [] ''r'' ''77'' (w_mirror demo_world)"
  obtain m' dec err where r: "?run = (m', dec, err)" by (metis prod_cases3)
  have "length (m_calls (fst ?run)) = 7" by code_simp
  then show ?thesis using push_git_arguments [OF demo_prints r] demo_prints r by (auto simp: demo_world_def)
qed

text \<open>C13: when a push with a packfile and at least one new tip is not an inspection failure,
  every object in the pack git wrote is reachable from the declared tips.\<close>

theorem push_pack_reachable:
  assumes "enforce_receive_pack env eng req agent repo pid m = (m', dec, None)" and "pid \<noteq> []"
    and "\<exists>c \<in> set (rp_commands req). normalize_oid (rp_new c) \<noteq> []"
  shows "\<exists>us m1 m2 m3 objs reach.
    classify_updates env (rp_commands req) [] m = (m1, Inr us) \<and>
    pack_object_ids env pid m1 = (m2, Inr objs) \<and>
    reachable_objects env (new_tips us) m2 = (m3, Inr reach) \<and> set objs \<subseteq> reach"
proof -
  obtain q where q: "prepare_push env (rp_commands req) agent repo pid m = (m', Inr q)"
    using assms(1) by (auto simp: enforce_receive_pack_def split: prod.splits sum.splits)
  obtain m1 m2 where c: "classify_updates env (rp_commands req) [] m = (m1, Inr (q_updates q))"
    "check_pack env pid (q_updates q) m1 = (m2, Inr ())"
    by (rule prepare_push_Inr [OF q])
  have "list_all2 mirrors (rp_commands req) (q_updates q)" using classify_updates_Inr [OF c(1)] by auto
  then have "\<exists>u \<in> set (q_updates q). u_new u \<noteq> []"
    using assms(3) list_all2_in [of mirrors] by (metis mirrors_def)
  then have "new_tips (q_updates q) \<noteq> []" by (auto simp: new_tips_def filter_empty_conv)
  then show ?thesis using check_pack_Inr [OF c(2) assms(2)] c(1) by blast
qed

theorem push_pack_reachable_witness:
  "\<exists>us m1 m2 m3 objs reach.
    classify_updates demo_env (rp_commands demo_request) [] (w_mirror demo_world) = (m1, Inr us) \<and>
    pack_object_ids demo_env ''77'' m1 = (m2, Inr objs) \<and>
    reachable_objects demo_env (new_tips us) m2 = (m3, Inr reach) \<and> set objs \<subseteq> reach"
proof -
  let ?run = "enforce_receive_pack demo_env (new_engine CollectAll []) demo_request [] ''r'' ''77'' (w_mirror demo_world)"
  have "(case ?run of (m', dec, err) \<Rightarrow> err = None)" by code_simp
  then obtain m' dec where "?run = (m', dec, None)" by auto
  moreover have "\<exists>c \<in> set (rp_commands demo_request). normalize_oid (rp_new c) \<noteq> []" by code_simp
  ultimately show ?thesis by (intro push_pack_reachable) auto
qed

text \<open>without an engine or a mirror opener the push path is a byte-exact relay: the body
  is sent unchanged, and what the agent receives is a prefix of the upstream's response, all of
  it when no error is reported.\<close>

lemma push_passthrough:
  assumes "px_engine px = None \<or> px_opener px = None" and "src_fail body = None"
    and "px_receive px repo (src_bytes body) = Inr rc" and "receive_pack px ctx repo body w = (w', e)"
  shows "w_sent w' = w_sent w @ [(''git-receive-pack'', repo, src_bytes body)] \<and>
    w_mirror w' = w_mirror w \<and>
    (\<exists>a b. src_bytes rc = a @ b \<and> wout (w_client w') = wout (w_client w) @ a \<and> (e = None \<longrightarrow> b = []))"
proof -
  let ?v = "record_audit px ''git-receive-pack'' (agent_name ctx) repo ''allow'' []
      (audit_refs (case parse_receive_pack (g_omax (px_gogit px)) (bytes_source (src_bytes body)) of
         Inl _ \<Rightarrow> None | Inr r \<Rightarrow> Some r)) [] [] False w"
  have run: "(w', e) = forward_receive_pack px repo (src_bytes body) ?v"
    using assms by (auto simp: receive_pack_def read_all_def Let_def)
  obtain c' where f: "forward_stream (g_omax (px_gogit px)) rc (w_client w) = (c', e)" "w_client w' = c'"
    using run assms(3)
    by (auto simp: forward_receive_pack_def on_client_def Let_def split: prod.splits)
  have "w_sent w' = w_sent w @ [(''git-receive-pack'', repo, src_bytes body)]"
    using forward_sent [of px repo "src_bytes body" ?v] by (simp add: run [symmetric])
  moreover have "w_mirror w' = w_mirror w"
    using run assms(3) by (auto simp: forward_receive_pack_def on_client_def Let_def split: prod.splits)
  ultimately show ?thesis using forward_stream_prefix [OF f(1)] f(2) by blast
qed

text \<open>C14: the reply to a denied push is well-formed: on a stream that works, the agent gets
  the report-status pkt-lines (multiplexed and ended by a flush-pkt when it asked for a side
  band), and a pkt-line reader finds in them \<open>unpack ok\<close>, one \<open>ng\<close> line with the aggregated
  reason for every ref of the request, and the final flush.\<close>

theorem push_deny_reply:
  assumes "gogit_ok G" and "has_report_status req" and "wsched w = []"
    and "\<forall>ref \<in> set (denied_refs req). length (ng_line (aggregate_reasons dec) ref) \<le> max_payload"
  shows "wout (write_deny_response G req dec w) = wout w @
      (if sideband_type req = NoSideband then report_bytes (denied_refs req) dec
       else g_mux G (sideband_type req) (report_bytes (denied_refs req) dec) @ ''0000'') \<and>
    fst (scan_all (g_omax G) (scanner_on (bytes_source (report_bytes (denied_refs req) dec)))) =
      (Data, ''unpack ok'' @ [NL]) # map (Pair Data \<circ> ng_line (aggregate_reasons dec)) (denied_refs req)
      @ [(Flush, [])]"
proof -
  let ?out = "report_bytes (denied_refs req) dec"
  let ?lines = "(''unpack ok'' @ [NL]) # map (ng_line (aggregate_reasons dec)) (denied_refs req)"
  have "encode_report_status_deny G fresh_writer (denied_refs req) dec = (\<lparr>wout = ?out, wsched = []\<rparr>, None)"
    using encode_report_good [OF assms(1) _ assms(4), of fresh_writer] by (simp add: fresh_writer_def)
  then have reply: "wout (write_deny_response G req dec w) = wout w @
      (if sideband_type req = NoSideband then ?out else g_mux G (sideband_type req) ?out @ ''0000'')"
    using assms(2,3) by (simp add: write_deny_response_def split: sideband.splits)
  have omax: "max_payload \<le> g_omax G" by (rule gogit_omax [OF assms(1)])
  obtain s' where s': "scan_all (g_omax G) (scanner_on (bytes_source ?out)) =
      (let (xs, s'') = scan_all (g_omax G) s' in (map (Pair Data) ?lines @ xs, s''))"
    "sc_in s' = ''0000''" "sc_fail s' = None"
    using scan_all_pkts [OF omax, of ?lines "scanner_on (bytes_source ?out)" "''0000''"] assms(4)
    by (auto simp: report_bytes_def bytes_source_def max_payload_def)
  let ?f = "s'\<lparr>sc_in := [], sc_marker := Flush, sc_raw := ''0000'', sc_payload := []\<rparr>"
  have "scan (g_omax G) s' = (True, ?f)" using scan_flush [of s' "[]" "g_omax G"] s'(2) by simp
  moreover have "scan_all (g_omax G) ?f = ([], ?f\<lparr>sc_in := [], sc_err := None\<rparr>)"
    using scan_eof [of ?f "g_omax G"] s'(3) by (subst scan_all.simps) simp
  ultimately have "fst (scan_all (g_omax G) s') = [(Flush, [])]"
    by (subst scan_all.simps) simp
  then show ?thesis using reply s'(1) by (simp split: prod.splits)
qed

theorem push_deny_reply_witness:
  "wout (write_deny_response wire_gogit demo_request (enforcement ''no'') fresh_writer) =
     report_bytes [''refs/heads/x''] (enforcement ''no'') \<and>
   has_suffix (report_bytes [''refs/heads/x''] (enforcement ''no'')) ''0000''"
proof -
  have refs: "denied_refs demo_request = [''refs/heads/x'']" "sideband_type demo_request = NoSideband"
    "has_report_status demo_request" by code_simp+
  have len: "\<forall>ref \<in> set (denied_refs demo_request).
      length (ng_line (aggregate_reasons (enforcement ''no'')) ref) \<le> max_payload" by code_simp
  have "wsched fresh_writer = []" "wout fresh_writer = []" by (simp_all add: fresh_writer_def)
  then show ?thesis
    using push_deny_reply [OF wire_gogit_ok refs(3) _ len, of fresh_writer] refs
    by (simp add: report_bytes_def has_suffix_iff)
qed





end
