(* ===== verification/RuleProps.thy ===== *)
theory RuleProps
  imports PushProps
begin

text \<open>
  The properties of the policy: the engine against its abstract specification, the resolution of
  a configuration, what each rule denies, and that a push which was forwarded violates no
  enabled rule of the configuration.
\<close>

section \<open>The engine\<close>

text \<open>C26: the engine refines its specification: with collect-all it returns the combination of
  the outcomes of the rules that apply (an erring rule counting as a deny), and with first-deny
  the first denying outcome alone; so the two modes always agree on the verdict.\<close>

theorem engine_refines:
  "evaluate_push eng q =
     (let ds = outcomes (\<lambda>r. rl_push r q) (q_agent q) (q_repo q) (e_entries eng) in
      case (if e_mode eng = FirstDeny then find denies ds else None) of
        Some d \<Rightarrow> \<lparr>d_verdict = VerdictDeny, d_reasons = d_reasons d\<rparr>
      | None \<Rightarrow> combined ds)
   \<and> d_verdict (evaluate_push (eng\<lparr>e_mode := FirstDeny\<rparr>) q) =
     d_verdict (evaluate_push (eng\<lparr>e_mode := CollectAll\<rparr>) q)"
proof -
  let ?ds = "outcomes (\<lambda>r. rl_push r q) (q_agent q) (q_repo q) (e_entries eng)"
  have "evaluate_push eng q = (case (if e_mode eng = FirstDeny then find denies ?ds else None) of
        Some d \<Rightarrow> \<lparr>d_verdict = VerdictDeny, d_reasons = d_reasons d\<rparr> | None \<Rightarrow> combined ?ds)"
  proof (cases "e_mode eng")
    case FirstDeny
    then show ?thesis
      using find_list_ex [of denies ?ds]
      by (auto simp: evaluate_push_def eval_loop_FirstDeny combined_def Let_def split: option.splits)
  next
    case CollectAll
    then show ?thesis by (simp add: evaluate_push_def eval_loop_CollectAll combined_def Let_def)
  qed
  moreover have "d_verdict (evaluate_push (eng\<lparr>e_mode := FirstDeny\<rparr>) q) =
      d_verdict (evaluate_push (eng\<lparr>e_mode := CollectAll\<rparr>) q)"
  proof -
    have v: "d_verdict (evaluate_push (eng\<lparr>e_mode := md\<rparr>) q) = VerdictDeny \<longleftrightarrow> list_ex denies ?ds" for md
      unfolding evaluate_push_def eval_loop_verdict by simp
    have "(x = VerdictDeny \<longleftrightarrow> y = VerdictDeny) \<Longrightarrow> x = y" for x y :: verdict
      by (cases x; cases y) simp_all
    then show ?thesis using v [of FirstDeny] v [of CollectAll] by blast
  qed
  ultimately show ?thesis by (simp add: Let_def)
qed

text \<open>Resolving a configuration does not depend on the order in which the rule map is
  visited; it fails exactly when an enabled rule is not registered, and otherwise the engine has
  one entry per enabled rule, in the order of the names.\<close>

lemma resolve_deterministic:
  assumes "mset (pc_rules cfg) = mset (pc_rules cfg')" and "distinct (map fst (pc_rules cfg))"
    and "pc_mode cfg = pc_mode cfg'"
  shows "resolve cfg reg = resolve cfg' reg \<and>
    ((\<exists>e. resolve cfg reg = Inl e) \<longleftrightarrow> (\<exists>n \<in> set (enabled_names cfg). reg n = None)) \<and>
    (\<forall>eng. resolve cfg reg = Inr eng \<longrightarrow>
       e_entries eng = map (\<lambda>n. entry_of (the (map_of (pc_rules cfg) n)) (the (reg n))) (sort (enabled_names cfg)))"
proof -
  have d': "distinct (map fst (pc_rules cfg'))"
    using assms(1,2) by (metis mset_eq_imp_distinct_iff mset_map)
  have same: "map_of (pc_rules cfg) = map_of (pc_rules cfg')"
    using assms(1,2) d' by (metis map_of_inject_set set_mset_mset)
  have "mset (enabled_names cfg) = mset (enabled_names cfg')"
    unfolding enabled_names_def mset_map mset_filter assms(1) ..
  then have "sort_names (enabled_names cfg) = sort_names (enabled_names cfg')"
    unfolding sort_names_sort by (metis properties_for_sort mset_sort sorted_sort)
  then have r: "resolve cfg reg = resolve cfg' reg" unfolding resolve_def same assms(3) by simp
  have "(\<exists>e. resolve cfg reg = Inl e) \<longleftrightarrow> (\<exists>n \<in> set (enabled_names cfg). reg n = None)"
    using resolve_entries_Inl [of reg "map_of (pc_rules cfg)" "sort (enabled_names cfg)" "[]"]
    by (auto simp: resolve_def sort_names_sort split: sum.splits)
  then show ?thesis using r resolve_Inr [of cfg reg] by auto
qed

definition demo_rc :: rule_config where
  "demo_rc = \<lparr>rc_enabled = True, rc_agents = [], rc_repos = [], rc_params = Map.empty\<rparr>"

definition no_regex :: "string \<Rightarrow> go_error + regexp" where
  "no_regex p = Inl ''no regular expressions''"

section \<open>Rules\<close>

text \<open>the two rules on refs: \<open>history_protect\<close> denies exactly the pushes that delete or
  force-push a protected ref, and \<open>branch_pattern\<close> exactly those with a ref outside the allowed
  patterns, all of them when no pattern is allowed.\<close>

lemma ref_rules_exact:
  "(d_verdict (evaluate_push (new_engine m [history_protect cfg]) q) = VerdictDeny \<longleftrightarrow>
     (\<exists>u \<in> set (q_updates q). match_any (parse_string_list (rc_params cfg) ''refs'') (u_ref u) \<and>
        (is_delete u \<or> u_force u))) \<and>
   (d_verdict (evaluate_push (new_engine m [branch_pattern cfg]) q) = VerdictDeny \<longleftrightarrow>
     parse_string_list (rc_params cfg) ''allow'' = [] \<or>
     (\<exists>u \<in> set (q_updates q). \<not> match_any (parse_string_list (rc_params cfg) ''allow'') (u_ref u)))"
  using history.engine_alone [of m cfg q] branch.engine_alone [of m cfg q]
  by (simp add: rewrites_protected_def outside_branches_def Let_def)

text \<open>\<open>commit_message\<close> denies exactly the pushes with a commit whose subject line has none
  of the required prefixes or matches a denied pattern; a pattern that does not compile makes
  it deny every push.\<close>

lemma commit_rule_exact:
  "d_verdict (evaluate_push (new_engine m [commit_message re_compile cfg]) q) = VerdictDeny \<longleftrightarrow>
     (\<exists>p \<in> set (parse_string_list (rc_params cfg) ''deny_regex''). \<exists>e. re_compile p = Inl e) \<or>
     (\<exists>c \<in> set (q_commits q).
        (parse_string_list (rc_params cfg) ''require_prefix'' \<noteq> [] \<and>
         \<not> (\<exists>p \<in> set (parse_string_list (rc_params cfg) ''require_prefix''). has_prefix (commit_subject (c_message c)) p)) \<or>
        (\<exists>p \<in> set (parse_string_list (rc_params cfg) ''deny_regex''). re_hits (re_compile p) (commit_subject (c_message c))))"
  using commits.engine_alone [of m re_compile cfg q]
  by (simp add: bad_regex_def breaks_convention_def Let_def)

text \<open>\<open>path_acl\<close> denies exactly the pushes that change a file, and the fetches that request a
  path, matched by the deny patterns together; a malformed pattern makes it deny everything.\<close>

lemma path_rule_exact:
  "(d_verdict (evaluate_push (new_engine m [path_acl cfg]) q) = VerdictDeny \<longleftrightarrow>
     bad_deny cfg \<or> (\<exists>f \<in> set (q_files q). denied_path cfg (f_path f))) \<and>
   (d_verdict (evaluate_fetch (new_engine m [path_acl cfg]) fq) = VerdictDeny \<longleftrightarrow>
     bad_deny cfg \<or> (\<exists>p \<in> set (fq_paths fq). denied_path cfg p))"
proof -
  let ?deny = "parse_string_list (rc_params cfg) ''deny''"
  have "d_verdict (evaluate_fetch (new_engine m [path_acl cfg]) fq) = VerdictDeny \<longleftrightarrow>
      denies (outcome (\<lambda>r. rl_fetch r fq) (path_acl cfg))"
    unfolding evaluate_fetch_def eval_loop_verdict by (simp add: outcomes_def new_engine_def applies_def)
  also have "\<dots> \<longleftrightarrow> bad_deny cfg \<or> (\<exists>p \<in> set (fq_paths fq). denied_path cfg p)"
  proof (cases "bad_deny cfg")
    case True
    then have "\<exists>e. pa_err (path_compile ?deny []) = Some e" by (simp add: path_compile_err bad_deny_def)
    then show ?thesis using True
      by (auto simp: path_acl_def path_eval_def outcome_def denies_def deny_from_error_def Let_def)
  next
    case False
    then obtain d where "path_eval (path_compile ?deny []) ''fetch requests'' (fq_paths fq) = Inr d"
      "d_verdict d = VerdictDeny \<longleftrightarrow> (\<exists>p \<in> set (fq_paths fq). matcher_match (new_matcher ?deny) p)"
      using path_eval_iff [of ?deny "''fetch requests''" "fq_paths fq"] by (auto simp: bad_deny_def)
    then show ?thesis using False by (simp add: path_acl_def outcome_def denies_def denied_path_def Let_def)
  qed
  finally show ?thesis using path.engine_alone [of m cfg q] by (simp add: touches_denied_def)
qed

text \<open>\<open>secret_scan\<close> denies exactly the pushes with a changed file, neither ignored nor
  deleted nor empty, in which the scanner reports a finding that is not allow-listed; a broken
  pattern makes it deny every push.\<close>

lemma secret_rule_exact:
  "d_verdict (evaluate_push (new_engine m [secret_scan re_compile cfg]) q) = VerdictDeny \<longleftrightarrow>
     bad_patterns re_compile cfg \<or>
     (let r = new_secret_rule re_compile cfg in
      \<exists>f \<in> set (q_files q).
        \<not> matcher_match (ss_ignore r) (f_path f) \<and> f_status f \<noteq> ''D'' \<and> f_content f \<noteq> [] \<and>
        (\<exists>fnd \<in> set (secret_Scan (the (ss_scanner r)) (f_path f) (f_content f) (ss_allow r)). \<not> fd_suppressed fnd))"
  using secrets.engine_alone [of m re_compile cfg q]
  by (simp add: holds_secret_def live_finding_def scanned_file_def Let_def)

text \<open>C27: the rules on refs and messages deny exactly what they are configured to deny:
  \<open>history_protect\<close> the pushes that delete or force a matching ref, \<open>branch_pattern\<close> the pushes of a
  ref that no allow pattern matches (every push, without a pattern), and \<open>commit_message\<close> the pushes
  with a commit whose subject line has none of the required prefixes or hits a denied expression
  (every push, when an expression does not compile).\<close>

theorem metadata_rules_exact:
  "((d_verdict (evaluate_push (new_engine m [history_protect cfg]) q) = VerdictDeny \<longleftrightarrow>
     (\<exists>u \<in> set (q_updates q). match_any (parse_string_list (rc_params cfg) ''refs'') (u_ref u) \<and>
        (is_delete u \<or> u_force u))) \<and>
   (d_verdict (evaluate_push (new_engine m [branch_pattern cfg]) q) = VerdictDeny \<longleftrightarrow>
     parse_string_list (rc_params cfg) ''allow'' = [] \<or>
     (\<exists>u \<in> set (q_updates q). \<not> match_any (parse_string_list (rc_params cfg) ''allow'') (u_ref u)))) \<and>
   (d_verdict (evaluate_push (new_engine m [commit_message re_compile cfg]) q) = VerdictDeny \<longleftrightarrow>
     (\<exists>p \<in> set (parse_string_list (rc_params cfg) ''deny_regex''). \<exists>e. re_compile p = Inl e) \<or>
     (\<exists>c \<in> set (q_commits q).
        (parse_string_list (rc_params cfg) ''require_prefix'' \<noteq> [] \<and>
         \<not> (\<exists>p \<in> set (parse_string_list (rc_params cfg) ''require_prefix''). has_prefix (commit_subject (c_message c)) p)) \<or>
        (\<exists>p \<in> set (parse_string_list (rc_params cfg) ''deny_regex''). re_hits (re_compile p) (commit_subject (c_message c)))))"
  by (rule conjI [OF ref_rules_exact commit_rule_exact])

text \<open>C28: the rules on content deny exactly what they are configured to deny: \<open>path_acl\<close> the pushes
  that change, and the fetches that request, a file at a denied path, and \<open>secret_scan\<close> the pushes
  with a changed file, neither ignored nor deleted, in which the scanner has a finding that no
  allowlist entry suppresses; a configuration that does not compile denies everything.\<close>

theorem content_rules_exact:
  "((d_verdict (evaluate_push (new_engine m [path_acl cfg]) q) = VerdictDeny \<longleftrightarrow>
     bad_deny cfg \<or> (\<exists>f \<in> set (q_files q). denied_path cfg (f_path f))) \<and>
   (d_verdict (evaluate_fetch (new_engine m [path_acl cfg]) fq) = VerdictDeny \<longleftrightarrow>
     bad_deny cfg \<or> (\<exists>p \<in> set (fq_paths fq). denied_path cfg p))) \<and>
   (d_verdict (evaluate_push (new_engine m [secret_scan re_compile cfg]) q) = VerdictDeny \<longleftrightarrow>
     bad_patterns re_compile cfg \<or>
     (let r = new_secret_rule re_compile cfg in
      \<exists>f \<in> set (q_files q).
        \<not> matcher_match (ss_ignore r) (f_path f) \<and> f_status f \<noteq> ''D'' \<and> f_content f \<noteq> [] \<and>
        (\<exists>fnd \<in> set (secret_Scan (the (ss_scanner r)) (f_path f) (f_content f) (ss_allow r)). \<not> fd_suppressed fnd)))"
  by (rule conjI [OF path_rule_exact secret_rule_exact])

section \<open>The policy, end to end\<close>

text \<open>A rule of the configuration that is switched on for this agent and repository.\<close>

definition active :: "policy_config \<Rightarrow> string \<Rightarrow> string \<Rightarrow> string \<Rightarrow> rule_config \<Rightarrow> bool" where
  "active cfg n agent repo rc \<longleftrightarrow>
     map_of (pc_rules cfg) n = Some rc \<and> rc_enabled rc \<and>
     (rc_agents rc = [] \<or> agent \<in> set (rc_agents rc)) \<and> (rc_repos rc = [] \<or> repo \<in> set (rc_repos rc))"

lemma active_entry:
  assumes "resolve cfg reg = Inr eng" and "distinct (map fst (pc_rules cfg))" and "reg n = Some f"
    and "active cfg n agent repo rc"
  shows "\<exists>e \<in> set (e_entries eng). en_rule e = f rc \<and> applies e agent repo"
  using resolve_entry [OF assms(1) _ _ assms(2,3), of rc] assms(4)
  by (intro bexI [of _ "entry_of rc f"]) (auto simp: active_def entry_of_def applies_def)

lemma active_respected:
  assumes "resolve cfg (default_registry re_compile) = Inr eng" and "distinct (map fst (pc_rules cfg))"
    and "d_verdict (evaluate_push eng q) = VerdictAllow" and "q_agent q = agent" and "q_repo q = repo"
  shows "active cfg ''history_protect'' agent repo rc \<Longrightarrow> \<not> rewrites_protected rc q"
    and "active cfg ''branch_pattern'' agent repo rc \<Longrightarrow> \<not> outside_branches rc q"
    and "active cfg ''commit_message'' agent repo rc \<Longrightarrow> \<not> breaks_convention re_compile rc q"
    and "active cfg ''path_acl'' agent repo rc \<Longrightarrow> \<not> touches_denied rc q"
    and "active cfg ''secret_scan'' agent repo rc \<Longrightarrow> \<not> holds_secret re_compile rc q"
proof -
  note entry = active_entry [OF assms(1,2)]
  have reg: "default_registry re_compile ''history_protect'' = Some history_protect"
    "default_registry re_compile ''branch_pattern'' = Some branch_pattern"
    "default_registry re_compile ''commit_message'' = Some (commit_message re_compile)"
    "default_registry re_compile ''path_acl'' = Some path_acl"
    "default_registry re_compile ''secret_scan'' = Some (secret_scan re_compile)"
    by (simp_all add: default_registry_def)
  have deny: "d_verdict (evaluate_push eng q) \<noteq> VerdictDeny" using assms(3) by simp
  show "active cfg ''history_protect'' agent repo rc \<Longrightarrow> \<not> rewrites_protected rc q"
    using entry [OF reg(1)] history.engine_denies [of _ eng rc q] deny unfolding assms(4,5) by blast
  show "active cfg ''branch_pattern'' agent repo rc \<Longrightarrow> \<not> outside_branches rc q"
    using entry [OF reg(2)] branch.engine_denies [of _ eng rc q] deny unfolding assms(4,5) by blast
  show "active cfg ''commit_message'' agent repo rc \<Longrightarrow> \<not> breaks_convention re_compile rc q"
    using entry [OF reg(3)] commits.engine_denies [of _ eng re_compile rc q] deny unfolding assms(4,5) by blast
  show "active cfg ''path_acl'' agent repo rc \<Longrightarrow> \<not> touches_denied rc q"
    using entry [OF reg(4)] path.engine_denies [of _ eng rc q] deny unfolding assms(4,5) by blast
  show "active cfg ''secret_scan'' agent repo rc \<Longrightarrow> \<not> holds_secret re_compile rc q"
    using entry [OF reg(5)] secrets.engine_denies [of _ eng re_compile rc q] deny unfolding assms(4,5) by blast
qed

text \<open>A push that reaches the upstream (outside dry-run) violates no rule that the policy
  configuration enables for its agent and repository: no protected ref is deleted or
  force-pushed, no ref lies outside the allowed branches, no new commit breaks the convention,
  no changed file is at a denied path, and none holds a live secret.\<close>

theorem policy_enforced:
  assumes "px_engine px = Some eng" and "px_opener px = Some opener" and "\<not> px_dry_run px"
    and "resolve cfg (default_registry re_compile) = Inr eng" and "distinct (map fst (pc_rules cfg))"
    and "receive_pack px ctx repo body w = (w', e)" and "w_sent w' \<noteq> w_sent w"
  shows "\<exists>req pid m0 m' q.
    parse_receive_pack (g_omax (px_gogit px)) (bytes_source (src_bytes body)) = Inr req \<and>
    prepare_push (px_env px) (rp_commands req) (agent_name ctx) repo pid m0 = (m', Inr q) \<and>
    list_all2 mirrors (rp_commands req) (q_updates q) \<and>
    (\<forall>rc. (active cfg ''history_protect'' (agent_name ctx) repo rc \<longrightarrow> \<not> rewrites_protected rc q) \<and>
      (active cfg ''branch_pattern'' (agent_name ctx) repo rc \<longrightarrow> \<not> outside_branches rc q) \<and>
      (active cfg ''commit_message'' (agent_name ctx) repo rc \<longrightarrow> \<not> breaks_convention re_compile rc q) \<and>
      (active cfg ''path_acl'' (agent_name ctx) repo rc \<longrightarrow> \<not> touches_denied rc q) \<and>
      (active cfg ''secret_scan'' (agent_name ctx) repo rc \<longrightarrow> \<not> holds_secret re_compile rc q))"
proof -
  obtain req pid m0 m' q where f:
    "parse_receive_pack (g_omax (px_gogit px)) (bytes_source (src_bytes body)) = Inr req"
    "prepare_push (px_env px) (rp_commands req) (agent_name ctx) repo pid m0 = (m', Inr q)"
    "list_all2 mirrors (rp_commands req) (q_updates q)" "d_verdict (evaluate_push eng q) = VerdictAllow"
    using forwarded_inspected [OF assms(1,2,6,7)] assms(3) by blast
  obtain "q_agent q = agent_name ctx" "q_repo q = repo" by (rule prepare_push_Inr [OF f(2)])
  note ok = active_respected [OF assms(4,5) f(4) this]
  show ?thesis using f(1-3) ok by blast
qed

definition deny_secrets_config :: policy_config where
  "deny_secrets_config = \<lparr>pc_mode = CollectAll,
     pc_rules = [(''path_acl'', demo_rc\<lparr>rc_params := [''deny'' \<mapsto> YStrs [''private/**'']]\<rparr>)]\<rparr>"

theorem policy_enforced_witness:
  "\<exists>req pid m0 m' q.
    parse_receive_pack 65520 (bytes_source demo_push) = Inr req \<and>
    prepare_push demo_env (rp_commands req) [] ''r'' pid m0 = (m', Inr q) \<and>
    \<not> touches_denied (demo_rc\<lparr>rc_params := [''deny'' \<mapsto> YStrs [''private/**'']]\<rparr>) q"
proof -
  let ?rc = "demo_rc\<lparr>rc_params := [''deny'' \<mapsto> YStrs [''private/**'']]\<rparr>"
  let ?rule = "path_acl ?rc" and ?px = "demo_proxy [path_acl ?rc] False"
  have eng: "resolve deny_secrets_config (default_registry no_regex) = Inr (new_engine CollectAll [?rule])"
    by (simp add: resolve_Inr deny_secrets_config_def enabled_names_def default_registry_def entry_of_def
        new_engine_def demo_rc_def)
  obtain w' e where run: "receive_pack ?px None ''r'' (bytes_source demo_push) demo_world = (w', e)" by fastforce
  have "w_sent (fst (receive_pack ?px None ''r'' (bytes_source demo_push) demo_world)) \<noteq> []" by code_simp
  moreover have "w_sent demo_world = []" by (simp add: demo_world_def)
  ultimately have sent: "w_sent w' \<noteq> w_sent demo_world" by (simp add: run)
  have act: "active deny_secrets_config ''path_acl'' (agent_name None) ''r'' ?rc"
    by (simp add: active_def deny_secrets_config_def demo_rc_def)
  have px: "px_engine ?px = Some (new_engine CollectAll [?rule])" "px_opener ?px = Some (\<lambda>repo m. (m, None))"
    "\<not> px_dry_run ?px" "px_env ?px = demo_env" "g_omax (px_gogit ?px) = 65520"
    by (simp_all add: demo_proxy_def wire_gogit_def)
  have d: "distinct (map fst (pc_rules deny_secrets_config))" by (simp add: deny_secrets_config_def)
  show ?thesis
    using policy_enforced [OF px(1-3) eng d run sent] act unfolding px(4,5) bytes_source_sel agent_name_def option.case
    by blast
qed

section \<open>Scanner and patterns\<close>



text \<open>The entropy test of the scanner decides, in integer arithmetic, exactly whether the
  Shannon entropy of a string reaches 4.5 bits per byte.\<close>

lemma entropy_exact:
  assumes "s \<noteq> []"
  shows "entropic s \<longleftrightarrow> 4.5 \<le> shannon_entropy s"
  by (rule entropic_shannon [OF assms])



end
