(* ===== verification/RequestLaws.thy ===== *)
theory RequestLaws
  imports WireLaws
begin

text \<open>
  The round trip of an upload-pack request: the lines a client sends for a request are parsed
  back to that request, whatever its wants, capabilities, shallow boundaries, depth, haves and
  end.
\<close>

section \<open>Numbers\<close>

lemma digit_char: "d < 10 \<Longrightarrow> of_char (char_of (48 + d :: nat) :: char) = 48 + d"
  by simp

lemma digits_val_append:
  "digits_val a (ds @ [char_of (48 + d)]) = map_option (\<lambda>n. 10 * n + d) (digits_val a ds)" if "d < 10"
proof (induction ds arbitrary: a)
  case Nil
  have "digit_val (char_of (48 + d)) = Some d" using that digit_char [OF that] by (simp add: digit_val_def)
  then show ?case by simp
next
  case (Cons x xs)
  then show ?case by (simp split: option.splits)
qed

lemma digits_val_show: "digits_val 0 (show_nat n) = Some n"
proof (induction n rule: show_nat.induct)
  case (1 n)
  show ?case
  proof (cases "n < 10")
    case True
    then show ?thesis using digits_val_append [of n 0 "[]"] by (subst show_nat.simps) simp
  next
    case False
    then show ?thesis
      using 1 digits_val_append [of "n mod 10" 0 "show_nat (n div 10)"] by (subst show_nat.simps) simp
  qed
qed

lemma show_nat_digits: "c \<in> set (show_nat n) \<Longrightarrow> \<exists>d. d < 10 \<and> c = char_of (48 + d :: nat)"
proof (induction n rule: show_nat.induct)
  case (1 n)
  have split: "set (show_nat n) =
      (if n < 10 then {char_of (48 + n)} else insert (char_of (48 + n mod 10)) (set (show_nat (n div 10))))"
    by (subst show_nat.simps) simp
  show ?case
  proof (cases "n < 10")
    case True
    then show ?thesis using "1.prems" split by auto
  next
    case False
    then have "c = char_of (48 + n mod 10) \<or> c \<in> set (show_nat (n div 10))" using "1.prems" split by auto
    then show ?thesis using "1.IH" [OF False] by (metis mod_less_divisor zero_less_numeral)
  qed
qed

lemma show_nat_nonempty: "show_nat n \<noteq> []"
  by (subst show_nat.simps) simp

lemma show_nat_word: "word_str (show_nat n)"
proof -
  have "text_char c" if c: "c \<in> set (show_nat n)" for c
  proof -
    obtain d :: nat where "d < 10" "c = char_of (48 + d)" using show_nat_digits [OF c] by blast
    then show ?thesis using digit_char [of d] by (auto simp: text_char_def)
  qed
  then show ?thesis using show_nat_nonempty by (simp add: word_str_def)
qed

lemma atoi_show: "int n < 2 ^ 63 \<Longrightarrow> atoi (show_nat n) = Some (int n)"
proof -
  assume n: "int n < 2 ^ 63"
  obtain c cs where s: "show_nat n = c # cs" using show_nat_nonempty by (cases "show_nat n") auto
  obtain d :: nat where "d < 10" "c = char_of (48 + d)" using show_nat_digits [of c n] s by auto
  then have "of_char c \<noteq> (45 :: nat)" "of_char c \<noteq> (43 :: nat)" using digit_char [of d] by auto
  then have "c \<noteq> CHR ''-''" "c \<noteq> CHR ''+''" by auto
  then show ?thesis using digits_val_show [of n] n s by (simp add: atoi_def)
qed

section \<open>Lines\<close>

fun apply_lines :: "up_request \<Rightarrow> string list \<Rightarrow> go_error + up_request" where
  "apply_lines req [] = Inr req"
| "apply_lines req (l # ls) = (case request_line req l of Inl e \<Rightarrow> Inl e | Inr r \<Rightarrow> apply_lines r ls)"

lemma apply_lines_append:
  "apply_lines req ls = Inr r \<Longrightarrow> apply_lines req (ls @ ls') = apply_lines r ls'"
  by (induction ls arbitrary: req) (auto split: sum.splits)

text \<open>The parser applies the data lines of a stream of pkt-lines in order.\<close>

definition data_lines :: "(marker \<times> string) list \<Rightarrow> string list" where
  "data_lines us = map (trim_right NL \<circ> snd) (filter (\<lambda>u. fst u = Data) us)"

lemma request_loop_units:
  assumes "max_payload \<le> omax" and "\<forall>u \<in> set us. unit_ok u"
    and "sc_in s = concat (map unit_bytes us)" and "sc_fail s = None"
    and "apply_lines req (data_lines us) = Inr r"
  shows "\<exists>s'. request_loop omax s req = Inr (r, s') \<and> sc_err s' = None"
  using assms
proof (induction us arbitrary: s req)
  case Nil
  then show ?case
    using scan_eof [of s omax] by (subst request_loop.simps) (simp add: data_lines_def)
next
  case (Cons u us)
  consider (flush) "u = (Flush, [])" | (data) p where "u = (Data, p)" "length p \<le> max_payload"
    using Cons.prems(2) by (cases u) (auto simp: unit_ok_def)
  then show ?case
  proof cases
    case flush
    let ?s = "s\<lparr>sc_in := concat (map unit_bytes us), sc_marker := Flush, sc_raw := ''0000'', sc_payload := []\<rparr>"
    have "sc_in s = ''0000'' @ concat (map unit_bytes us)" using Cons.prems(3) flush by simp
    then have "scan omax s = (True, ?s)" by (rule scan_flush)
    moreover have "data_lines (u # us) = data_lines us" using flush by (simp add: data_lines_def)
    ultimately show ?thesis
      using Cons.IH [of ?s req] Cons.prems by (subst request_loop.simps) simp
  next
    case data
    let ?s = "s\<lparr>sc_in := concat (map unit_bytes us), sc_marker := Data, sc_payload := p, sc_raw := pkt p\<rparr>"
    have "sc_in s = pkt p @ concat (map unit_bytes us)" using Cons.prems(3) data by simp
    note sc = scan_pkt [OF this data(2) Cons.prems(1)]
    have lines: "data_lines (u # us) = trim_right NL p # data_lines us" using data by (simp add: data_lines_def)
    obtain req' where req': "request_line req (trim_right NL p) = Inr req'" "apply_lines req' (data_lines us) = Inr r"
      using Cons.prems(5) unfolding lines by (auto split: sum.splits)
    have "\<exists>s'. request_loop omax ?s req' = Inr (r, s') \<and> sc_err s' = None"
      using Cons.prems(1,2,4) req'(2) by (intro Cons.IH) simp_all
    then show ?thesis using req'(1) by (subst request_loop.simps) (simp add: sc)
  qed
qed

section \<open>A client's request\<close>

definition want_line :: "string list \<Rightarrow> string \<Rightarrow> string" where
  "want_line caps w = ''want '' @ w @ (if caps = [] then [] else SP # join '' '' caps)"

definition request_lines :: "up_request \<Rightarrow> string list" where
  "request_lines r =
     (case up_wants r of [] \<Rightarrow> [] | w # ws \<Rightarrow> want_line (up_caps r) w # map (want_line []) ws)
     @ map (\<lambda>s. ''shallow '' @ s) (up_shallows r)
     @ (if up_deepen r = 0 then [] else [''deepen '' @ show_nat (nat (up_deepen r))])
     @ (if up_deepen_since r = [] then [] else [''deepen-since '' @ up_deepen_since r])
     @ map (\<lambda>s. ''deepen-not '' @ s) (up_deepen_not r)"

definition have_lines :: "up_request \<Rightarrow> string list" where
  "have_lines r = map (\<lambda>h. ''have '' @ h) (up_haves r) @ (if up_done r then [''done''] else [])"

definition request_bytes :: "up_request \<Rightarrow> string" where
  "request_bytes r =
     concat (map (\<lambda>l. pkt (l @ [NL])) (request_lines r)) @ ''0000''
     @ concat (map (\<lambda>l. pkt (l @ [NL])) (have_lines r))"

definition request_ok :: "up_request \<Rightarrow> bool" where
  "request_ok r \<longleftrightarrow>
     up_wants r \<noteq> [] \<and> 0 \<le> up_deepen r \<and> up_deepen r < 2 ^ 63 \<and>
     (up_deepen_since r = [] \<or> word_str (up_deepen_since r)) \<and>
     (\<forall>s \<in> set (up_wants r @ up_caps r @ up_haves r @ up_shallows r @ up_deepen_not r). word_str s) \<and>
     (\<forall>l \<in> set (request_lines r @ have_lines r). length l < max_payload)"

lemma word_no_space: "word_str s \<Longrightarrow> SP \<notin> set s \<and> NL \<notin> set s"
  by (auto simp: word_str_def text_char_def)

lemma trim_right_word: "word_str s \<Longrightarrow> trim_right NL s = s"
  using word_ends [of s] by (auto simp: text_char_def intro!: trim_right_id)

lemma word_last: "word_str s \<Longrightarrow> last (a @ s) \<noteq> NL"
  by (metis last_appendR last_in_set word_no_space word_str_def)

lemma split_want_plain: "word_str w \<Longrightarrow> split_want w = (w, [])"
proof -
  assume w: "word_str w"
  then have "index_byte w SP = None" using word_no_space by (simp add: index_byte_None)
  then show ?thesis using w trim_right_word word_trim by (simp add: split_want_def)
qed

lemma split_want_caps:
  assumes "word_str w" and "\<forall>c \<in> set caps. word_str c" and "caps \<noteq> []"
  shows "split_want (w @ SP # join '' '' caps) = (w, caps)"
proof -
  let ?j = "join '' '' caps"
  have j: "trim_space ?j = ?j" "?j \<noteq> []" using join_trim [OF assms(2,3)] join_ends [OF assms(2,3)] by auto
  obtain d u where "?j = u @ [d]" "text_char d" using join_ends [OF assms(2,3)] by blast
  then have "last (w @ SP # ?j) \<noteq> NL" by (auto simp: text_char_def)
  then have "trim_right NL (w @ SP # ?j) = w @ SP # ?j" by (simp add: trim_right_id)
  moreover have "index_byte (w @ SP # ?j) SP = Some (length w)"
    using word_no_space [OF assms(1)] by (intro index_byte_append) simp
  ultimately show ?thesis using j split_caps_join [OF assms(2)] by (simp add: split_want_def)
qed

text \<open>Each line does its part.\<close>

lemma want_line_applied:
  assumes "word_str w" and "\<forall>c \<in> set caps. word_str c"
  shows "request_line req (want_line caps w) =
    Inr (req\<lparr>up_wants := up_wants req @ [w],
             up_caps := (if caps \<noteq> [] \<and> up_caps req = [] then caps else up_caps req)\<rparr>)"
proof (cases "caps = []")
  case True
  have "request_line req (''want '' @ w) = (let (sha, cs) = split_want w in
      Inr (req\<lparr>up_wants := up_wants req @ [sha], up_caps := (if cs \<noteq> [] \<and> up_caps req = [] then cs else up_caps req)\<rparr>))"
    by (simp add: request_line_def has_prefix_def trim_prefix_def)
  then show ?thesis using split_want_plain [OF assms(1)] True by (simp add: want_line_def)
next
  case False
  let ?r = "w @ SP # join '' '' caps"
  have "request_line req (''want '' @ ?r) = (let (sha, cs) = split_want ?r in
      Inr (req\<lparr>up_wants := up_wants req @ [sha], up_caps := (if cs \<noteq> [] \<and> up_caps req = [] then cs else up_caps req)\<rparr>))"
    by (simp add: request_line_def has_prefix_def trim_prefix_def)
  then show ?thesis using split_want_caps [OF assms False] False by (simp add: want_line_def)
qed

lemma shallow_line_applied:
  "word_str x \<Longrightarrow> request_line req (''shallow '' @ x) = Inr (req\<lparr>up_shallows := up_shallows req @ [x]\<rparr>)"
  using word_trim [of x] by (simp add: request_line_def has_prefix_def trim_prefix_def)

lemma have_line_applied:
  "word_str x \<Longrightarrow> request_line req (''have '' @ x) = Inr (req\<lparr>up_haves := up_haves req @ [x]\<rparr>)"
  using word_trim [of x] by (simp add: request_line_def has_prefix_def trim_prefix_def)

lemma deepen_line_applied:
  "int n < 2 ^ 63 \<Longrightarrow> request_line req (''deepen '' @ show_nat n) = Inr (req\<lparr>up_deepen := int n\<rparr>)"
  using word_trim [OF show_nat_word] atoi_show [of n]
  by (simp add: request_line_def has_prefix_def trim_prefix_def)

lemma since_line_applied:
  "word_str x \<Longrightarrow> request_line req (''deepen-since '' @ x) = Inr (req\<lparr>up_deepen_since := x\<rparr>)"
  using word_trim [of x] by (simp add: request_line_def has_prefix_def trim_prefix_def)

lemma not_line_applied:
  "word_str x \<Longrightarrow> request_line req (''deepen-not '' @ x) = Inr (req\<lparr>up_deepen_not := up_deepen_not req @ [x]\<rparr>)"
  using word_trim [of x] by (simp add: request_line_def has_prefix_def trim_prefix_def)

lemma done_line_applied: "request_line req ''done'' = Inr (req\<lparr>up_done := True\<rparr>)"
  by (simp add: request_line_def has_prefix_def)

lemma wants_applied:
  "\<forall>x \<in> set ws. word_str x \<Longrightarrow>
   apply_lines req (map (want_line []) ws) = Inr (req\<lparr>up_wants := up_wants req @ ws\<rparr>)"
  by (induction ws arbitrary: req) (simp_all add: want_line_applied)

lemma shallows_applied:
  "\<forall>x \<in> set ws. word_str x \<Longrightarrow>
   apply_lines req (map (\<lambda>s. ''shallow '' @ s) ws) = Inr (req\<lparr>up_shallows := up_shallows req @ ws\<rparr>)"
  by (induction ws arbitrary: req) (simp_all add: shallow_line_applied [simplified])

lemma haves_applied:
  "\<forall>x \<in> set ws. word_str x \<Longrightarrow>
   apply_lines req (map (\<lambda>s. ''have '' @ s) ws) = Inr (req\<lparr>up_haves := up_haves req @ ws\<rparr>)"
  by (induction ws arbitrary: req) (simp_all add: have_line_applied [simplified])

lemma nots_applied:
  "\<forall>x \<in> set ws. word_str x \<Longrightarrow>
   apply_lines req (map (\<lambda>s. ''deepen-not '' @ s) ws) = Inr (req\<lparr>up_deepen_not := up_deepen_not req @ ws\<rparr>)"
  by (induction ws arbitrary: req) (simp_all add: not_line_applied [simplified])

lemma request_lines_applied:
  assumes "request_ok r"
  shows "apply_lines empty_request (request_lines r @ have_lines r) = Inr r"
proof -
  obtain w ws where ws: "up_wants r = w # ws" using assms by (cases "up_wants r") (auto simp: request_ok_def)
  have words: "\<forall>x \<in> set (up_caps r). word_str x" "word_str w" "\<forall>x \<in> set ws. word_str x"
    "\<forall>x \<in> set (up_shallows r). word_str x" "\<forall>x \<in> set (up_deepen_not r). word_str x"
    "\<forall>x \<in> set (up_haves r). word_str x"
    using assms ws by (auto simp: request_ok_def)
  let ?r1 = "empty_request\<lparr>up_wants := up_wants r, up_caps := up_caps r\<rparr>"
  let ?r2 = "?r1\<lparr>up_shallows := up_shallows r\<rparr>"
  let ?r3 = "?r2\<lparr>up_deepen := up_deepen r\<rparr>"
  let ?r4 = "?r3\<lparr>up_deepen_since := up_deepen_since r\<rparr>"
  let ?r5 = "?r4\<lparr>up_deepen_not := up_deepen_not r\<rparr>"
  let ?r6 = "?r5\<lparr>up_haves := up_haves r\<rparr>"
  have 1: "apply_lines empty_request (want_line (up_caps r) w # map (want_line []) ws) = Inr ?r1"
    using want_line_applied [OF words(2,1)] wants_applied [OF words(3)] by (simp add: empty_request_def ws)
  have 2: "apply_lines ?r1 (map (\<lambda>s. ''shallow '' @ s) (up_shallows r)) = Inr ?r2"
    using shallows_applied [OF words(4), of ?r1] by (simp add: empty_request_def)
  have 3: "apply_lines ?r2 (if up_deepen r = 0 then [] else [''deepen '' @ show_nat (nat (up_deepen r))]) = Inr ?r3"
    using deepen_line_applied [of "nat (up_deepen r)" ?r2] assms by (simp add: request_ok_def empty_request_def)
  have 4: "apply_lines ?r3 (if up_deepen_since r = [] then [] else [''deepen-since '' @ up_deepen_since r]) = Inr ?r4"
  proof (cases "up_deepen_since r = []")
    case False
    then have "word_str (up_deepen_since r)" using assms by (simp add: request_ok_def)
    then show ?thesis using since_line_applied [of "up_deepen_since r" ?r3] False by (simp add: empty_request_def)
  qed (simp add: empty_request_def)
  have 5: "apply_lines ?r4 (map (\<lambda>s. ''deepen-not '' @ s) (up_deepen_not r)) = Inr ?r5"
    using nots_applied [OF words(5), of ?r4] by (simp add: empty_request_def)
  have 6: "apply_lines ?r5 (map (\<lambda>h. ''have '' @ h) (up_haves r)) = Inr ?r6"
    using haves_applied [OF words(6), of ?r5] by (simp add: empty_request_def)
  have 7: "apply_lines ?r6 (if up_done r then [''done''] else []) = Inr r"
    using done_line_applied [of ?r6] by (cases r) (simp add: empty_request_def)
  show ?thesis
    unfolding request_lines_def have_lines_def ws list.case append.assoc
      apply_lines_append [OF 1 [unfolded ws]] apply_lines_append [OF 2 [unfolded ws]]
      apply_lines_append [OF 3 [unfolded ws]] apply_lines_append [OF 4 [unfolded ws]]
      apply_lines_append [OF 5 [unfolded ws]] apply_lines_append [OF 6 [unfolded ws]]
    using 7 ws by simp
qed

text \<open>What a client writes is read back.\<close>

lemma line_last:
  assumes "request_ok r" and "l \<in> set (request_lines r @ have_lines r)"
  shows "trim_right NL (l @ [NL]) = l"
proof -
  have words: "\<forall>x \<in> set (up_wants r @ up_caps r @ up_haves r @ up_shallows r @ up_deepen_not r). word_str x"
    "up_deepen_since r \<noteq> [] \<Longrightarrow> word_str (up_deepen_since r)"
    using assms(1) by (auto simp: request_ok_def)
  have want: "last (want_line caps x) \<noteq> NL" if x: "word_str x" and cs: "\<forall>c \<in> set caps. word_str c" for caps x
  proof (cases "caps = []")
    case True
    then show ?thesis using word_last [OF x, of "''want ''"] by (simp add: want_line_def)
  next
    case False
    obtain d u where "join '' '' caps = u @ [d]" "text_char d" using join_ends [OF cs False] by blast
    then show ?thesis using False by (auto simp: want_line_def text_char_def)
  qed
  obtain w ws where ws: "up_wants r = w # ws" using assms by (cases "up_wants r") (auto simp: request_ok_def)
  have "l \<in> {want_line (up_caps r) w} \<union> want_line [] ` set ws \<union> (\<lambda>s. ''shallow '' @ s) ` set (up_shallows r)
      \<union> {''deepen '' @ show_nat (nat (up_deepen r))} \<union> (\<lambda>s. ''deepen-not '' @ s) ` set (up_deepen_not r)
      \<union> (if up_deepen_since r = [] then {} else {''deepen-since '' @ up_deepen_since r})
      \<union> (\<lambda>s. ''have '' @ s) ` set (up_haves r) \<union> {''done''}"
    using assms(2) unfolding request_lines_def have_lines_def ws by (simp split: if_splits; blast)
  then consider "l = want_line (up_caps r) w" | x where "l = want_line [] x" "x \<in> set ws"
    | x where "l = ''shallow '' @ x" "x \<in> set (up_shallows r)" | "l = ''deepen '' @ show_nat (nat (up_deepen r))"
    | x where "l = ''deepen-not '' @ x" "x \<in> set (up_deepen_not r)"
    | "l = ''deepen-since '' @ up_deepen_since r" "up_deepen_since r \<noteq> []"
    | x where "l = ''have '' @ x" "x \<in> set (up_haves r)" | "l = ''done''"
    by (elim UnE imageE) (auto split: if_splits)
  then have "(\<exists>caps x. l = want_line caps x \<and> word_str x \<and> (\<forall>c \<in> set caps. word_str c)) \<or>
      (\<exists>a x. l = a @ x \<and> word_str x) \<or> l = ''done''"
  proof cases
    case 1
    moreover have "word_str w" "\<forall>c \<in> set (up_caps r). word_str c" using words(1) ws by simp_all
    ultimately show ?thesis by blast
  next
    case (2 x)
    moreover have "word_str x" "\<forall>c \<in> set []. word_str c" using 2 words(1) ws by simp_all
    ultimately show ?thesis by blast
  next
    case (3 x)
    moreover have "word_str x" using 3 words(1) by simp
    ultimately show ?thesis by blast
  next
    case 4
    then show ?thesis using show_nat_word by blast
  next
    case (5 x)
    moreover have "word_str x" using 5 words(1) by simp
    ultimately show ?thesis by blast
  next
    case 6
    then show ?thesis using words(2) by blast
  next
    case (7 x)
    moreover have "word_str x" using 7 words(1) by simp
    ultimately show ?thesis by blast
  next
    case 8
    then show ?thesis by blast
  qed
  then have "last l \<noteq> NL" using want word_last by auto
  then show ?thesis by (simp add: trim_right_snoc trim_right_id)
qed

lemma parse_request_bytes:
  assumes "max_payload \<le> omax" and "request_ok r"
  shows "parse_upload_pack_request omax (bytes_source (request_bytes r)) = Inr r"
proof -
  let ?us = "map (\<lambda>l. (Data, l @ [NL])) (request_lines r) @ (Flush, []) # map (\<lambda>l. (Data, l @ [NL])) (have_lines r)"
  have short: "\<forall>l \<in> set (request_lines r @ have_lines r). length l < max_payload"
    using assms(2) by (simp add: request_ok_def)
  have "map (trim_right NL \<circ> (\<lambda>l. l @ [NL])) ls = ls" if "set ls \<subseteq> set (request_lines r @ have_lines r)" for ls
    using line_last [OF assms(2)] that by (induction ls) auto
  then have lines: "data_lines ?us = request_lines r @ have_lines r"
    by (simp add: data_lines_def comp_def filter_map)
  have "\<exists>s'. request_loop omax (scanner_on (bytes_source (request_bytes r))) empty_request = Inr (r, s') \<and> sc_err s' = None"
  proof (rule request_loop_units [OF assms(1)])
    show "\<forall>u \<in> set ?us. unit_ok u" using short by (auto simp: unit_ok_def Suc_le_eq)
    show "apply_lines empty_request (data_lines ?us) = Inr r"
      unfolding lines by (rule request_lines_applied [OF assms(2)])
  qed (simp_all add: bytes_source_sel request_bytes_def comp_def)
  then show ?thesis using assms(2) by (auto simp: parse_upload_pack_request_def request_ok_def)
qed

section \<open>Framing\<close>

text \<open>The SSH framing copies the units up to the first \<open>done\<close> line and leaves the rest.\<close>

lemma frame_loop_units:
  assumes "max_payload \<le> omax" and "\<forall>u \<in> set us. unit_ok u \<and> trim_right NL (snd u) \<noteq> ''done''"
    and "sc_in s = concat (map unit_bytes us) @ pkt (''done'' @ [NL]) @ rest"
    and "length buf + length (concat (map unit_bytes us)) + 9 \<le> max_request_bytes"
  shows "\<exists>s'. frame_loop omax s buf = (Inr (buf @ concat (map unit_bytes us) @ pkt (''done'' @ [NL])), s') \<and>
    sc_in s' = rest"
  using assms
proof (induction us arbitrary: s buf)
  case Nil
  let ?d = "''done'' @ [NL]"
  let ?s = "s\<lparr>sc_in := rest, sc_marker := Data, sc_payload := ?d, sc_raw := pkt ?d\<rparr>"
  have "scan omax s = (True, ?s)"
    using Nil.prems(3) by (intro scan_pkt [OF _ _ assms(1)]) (simp_all add: max_payload_def)
  moreover have "length (pkt ?d) = 9" by (simp add: pkt_def)
  moreover have "trim_right NL ?d = ''done''" by (simp add: trim_right_def)
  ultimately show ?case
    using Nil.prems(4) by (subst frame_loop.simps) (simp add: Let_def)
next
  case (Cons u us)
  let ?rest = "concat (map unit_bytes us) @ pkt (''done'' @ [NL]) @ rest"
  have u: "unit_ok u" "trim_right NL (snd u) \<noteq> ''done''" using Cons.prems(2) by simp_all
  consider (flush) "u = (Flush, [])" | (data) p where "u = (Data, p)" "length p \<le> max_payload"
    using u(1) by (cases u) (auto simp: unit_ok_def)
  then obtain s1 where s1: "scan omax s = (True, s1)" "sc_in s1 = ?rest" "sc_raw s1 = unit_bytes u"
    "sc_marker s1 = fst u" "sc_payload s1 = snd u"
  proof cases
    case flush
    have "sc_in s = ''0000'' @ ?rest" using Cons.prems(3) flush by simp
    from scan_flush [OF this, of omax] show thesis using that flush by simp
  next
    case data
    have "sc_in s = pkt p @ ?rest" using Cons.prems(3) data by simp
    from scan_pkt [OF this data(2) assms(1)] show thesis using that data by simp
  qed
  have "length (buf @ unit_bytes u) + length (concat (map unit_bytes us)) + 9 \<le> max_request_bytes"
    using Cons.prems(4) by simp
  then obtain s' where s': "frame_loop omax s1 (buf @ unit_bytes u) =
      (Inr ((buf @ unit_bytes u) @ concat (map unit_bytes us) @ pkt (''done'' @ [NL])), s')" "sc_in s' = rest"
    using Cons.IH [of s1 "buf @ unit_bytes u"] Cons.prems(1,2) s1(2) by auto
  have "frame_loop omax s buf = frame_loop omax s1 (buf @ unit_bytes u)"
    using s1 u(2) Cons.prems(4) by (subst frame_loop.simps) (simp add: Let_def)
  then show ?case using s' by simp
qed

text \<open>No line of a request but the last is \<open>done\<close>.\<close>

lemma request_line_not_done:
  "l \<in> set (request_lines r) \<union> (\<lambda>h. ''have '' @ h) ` set (up_haves r) \<Longrightarrow> l \<noteq> ''done''"
  unfolding request_lines_def want_line_def by (auto split: list.splits if_splits)

lemma frame_request:
  assumes "max_payload \<le> omax" and "request_ok r" and "up_done r"
    and "length (request_bytes r) \<le> max_request_bytes"
  shows "\<exists>s'. frame_loop omax (scanner_on (bytes_source (request_bytes r @ rest))) [] = (Inr (request_bytes r), s') \<and>
    sc_in s' = rest"
proof -
  let ?haves = "map (\<lambda>h. ''have '' @ h) (up_haves r)"
  let ?line = "\<lambda>l. (Data, l @ [NL])"
  let ?us = "map ?line (request_lines r) @ (Flush, []) # map ?line ?haves"
  have short: "\<forall>l \<in> set (request_lines r @ have_lines r). length l < max_payload"
    using assms(2) by (simp add: request_ok_def)
  have all: "l \<in> set (request_lines r @ have_lines r)" if "l \<in> set (request_lines r @ ?haves)" for l
    using that by (auto simp: have_lines_def)
  have "unit_ok u \<and> trim_right NL (snd u) \<noteq> ''done''" if u: "u \<in> set ?us" for u
  proof (cases "u = (Flush, [])")
    case True
    then show ?thesis by (simp add: unit_ok_def trim_right_def)
  next
    case False
    then obtain l where l: "l \<in> set (request_lines r @ ?haves)" "u = ?line l"
      using u unfolding set_append list.set set_map by blast
    then have "trim_right NL (snd u) = l" "length l < max_payload"
      using line_last [OF assms(2) all [OF l(1)]] all [OF l(1)] short by auto
    moreover have "l \<noteq> ''done''" using request_line_not_done [of l r] l(1) by auto
    ultimately show ?thesis using l(2) by (simp add: unit_ok_def)
  qed
  moreover have bytes: "request_bytes r = concat (map unit_bytes ?us) @ pkt (''done'' @ [NL])"
    using assms(3) by (simp add: request_bytes_def have_lines_def comp_def)
  moreover have "length (pkt (''done'' @ [NL])) = 9" by (simp add: pkt_def)
  ultimately show ?thesis
    using frame_loop_units [OF assms(1), of ?us "scanner_on (bytes_source (request_bytes r @ rest))" rest "[]"] assms(4)
    by (simp add: bytes_source_sel)
qed

end
