(* ===== verification/WireProps.thy ===== *)
theory WireProps
  imports RequestLaws
begin

text \<open>
  The properties of the wire messages: every message the proxy emits is read back by its own
  parser, and every request a client writes is parsed to what the client meant and framed at
  its exact end.
\<close>

section \<open>pkt-lines\<close>

text \<open>The pkt-line scanner inverts the encoder: what was encoded onto a working stream, and
  nothing else, is scanned back line by line.\<close>

lemma pktline_roundtrip:
  assumes "gogit_ok G" and "wsched w = []" and "\<forall>p \<in> set ps. p \<noteq> [] \<and> length p \<le> max_payload"
  shows "\<exists>out. encode_strings G w ps = (w\<lparr>wout := wout w @ out\<rparr>, None) \<and>
    fst (scan_all (g_omax G) (scanner_on (bytes_source out))) = map (Pair Data) ps"
proof -
  let ?us = "map (Pair Data) ps"
  have "\<forall>u \<in> set ?us. unit_ok u" using assms(3) by (auto simp: unit_ok_def)
  moreover have "concat (map pkt ps) = concat (map unit_bytes ?us)" by (simp add: comp_def)
  ultimately have "fst (scan_all (g_omax G) (scanner_on (bytes_source (concat (map pkt ps))))) = ?us"
    using gogit_omax [OF assms(1)] by (intro scan_all_units) (simp_all add: bytes_source_sel)
  then show ?thesis using encode_strings_good [OF assms] by blast
qed

section \<open>Ref advertisements\<close>

lemma caps_set:
  "set (build_v0_caps up extra) = {c \<in> set up. c \<noteq> ''version 2'' \<and> c \<noteq> ''no-done''} \<union> set extra"
  unfolding build_v0_caps_def Let_def set_dedup_from by auto

lemma caps_distinct: "distinct (build_v0_caps up extra)"
  unfolding build_v0_caps_def Let_def by (rule distinct_dedup_from)

text \<open>C22: the re-emitted v0 ref advertisement parses to the upstream's service, refs and
  peeled ids, with its capabilities less \<open>version 2\<close> and \<open>no-done\<close>, the proxy's own added, and
  none repeated.\<close>

theorem advertisement_roundtrip:
  assumes "gogit_ok G" and "wsched w = []" and "adv_ok adv extra"
  shows "\<exists>out caps. emit_ref_advertisement_v0 G w adv extra = (w\<lparr>wout := wout w @ out\<rparr>, None) \<and>
    parse_ref_advertisement (g_omax G) (bytes_source out) = Inr (adv\<lparr>ad_caps := caps\<rparr>) \<and> distinct caps \<and>
    set caps = {c \<in> set (ad_caps adv). c \<noteq> ''version 2'' \<and> c \<noteq> ''no-done''} \<union> set extra"
  using emit_v0_good [OF assms] parse_adv_bytes [OF gogit_omax [OF assms(1)] assms(3)] caps_set caps_distinct
  by blast

definition demo_adv :: ref_advertisement where
  "demo_adv = \<lparr>ad_service = ''git-upload-pack'',
     ad_refs = [\<lparr>ad_hash = replicate 40 (CHR ''a''), ad_name = ''HEAD''\<rparr>,
                \<lparr>ad_hash = replicate 40 (CHR ''a''), ad_name = ''refs/heads/main''\<rparr>],
     ad_caps = [''multi_ack'', ''no-done'', ''side-band-64k'']\<rparr>"

theorem advertisement_roundtrip_witness:
  "\<exists>out caps. emit_ref_advertisement_v0 wire_gogit fresh_writer demo_adv [''filter''] = (fresh_writer\<lparr>wout := out\<rparr>, None) \<and>
    parse_ref_advertisement 65520 (bytes_source out) = Inr (demo_adv\<lparr>ad_caps := caps\<rparr>) \<and>
    ''no-done'' \<notin> set caps \<and> ''filter'' \<in> set caps"
proof -
  have "wsched fresh_writer = []" "wout fresh_writer = []" "g_omax wire_gogit = 65520"
    by (simp_all add: fresh_writer_def wire_gogit_def)
  moreover have "adv_ok demo_adv [''filter'']" by code_simp
  ultimately show ?thesis
    using advertisement_roundtrip [OF wire_gogit_ok, of fresh_writer demo_adv "[''filter'']"] by fastforce
qed

section \<open>Push requests\<close>

text \<open>C23: a receive-pack request is parsed to exactly its ref-update commands, with the
  capabilities of the first line, and to the offset of its packfile: the end of the command
  list when a packfile follows, and none for a push that only deletes.\<close>

theorem push_request_parsed:
  assumes "max_payload \<le> omax" and "command_ok c" and "\<forall>d \<in> set cs. command_ok d \<and> rp_caps d = []"
    and "head = command_pkts True (c # cs) @ ''0000''"
  shows "parse_receive_pack omax (bytes_source (head @ tail)) =
      Inr \<lparr>rp_commands = c # cs, rp_offset = (if has_prefix tail ''PACK'' then int (length head) else -1)\<rparr>"
  unfolding assms(4) by (rule parse_receive_pack_lines [OF assms(1-3)])

theorem push_request_parsed_witness:
  "parse_receive_pack 65520 (bytes_source (command_pkts True
       [\<lparr>rp_old = ''a1'', rp_new = ''b2'', rp_ref = ''refs/heads/x'', rp_caps = [''report-status'']\<rparr>] @ ''0000'' @ ''PACK..'')) =
    Inr \<lparr>rp_commands = [\<lparr>rp_old = ''a1'', rp_new = ''b2'', rp_ref = ''refs/heads/x'', rp_caps = [''report-status'']\<rparr>],
         rp_offset = 41\<rparr>"
proof -
  let ?c = "\<lparr>rp_old = ''a1'', rp_new = ''b2'', rp_ref = ''refs/heads/x'', rp_caps = [''report-status'']\<rparr>"
  have c: "command_ok ?c" by code_simp
  have "parse_receive_pack 65520 (bytes_source ((command_pkts True [?c] @ ''0000'') @ ''PACK..'')) =
      Inr \<lparr>rp_commands = [?c], rp_offset = (if has_prefix ''PACK..'' ''PACK''
              then int (length (command_pkts True [?c] @ ''0000'')) else -1)\<rparr>"
    by (rule push_request_parsed [OF _ c _ refl]) (simp_all add: max_payload_def)
  moreover have "has_prefix ''PACK..'' ''PACK''" "length (command_pkts True [?c] @ ''0000'') = 41"
    by code_simp+
  ultimately show ?thesis by simp
qed

section \<open>Fetch requests\<close>

text \<open>C24: an upload-pack request is parsed back to the wants, capabilities, shallow commits,
  depth, haves and end that the client wrote.\<close>

theorem fetch_request_roundtrip:
  assumes "max_payload \<le> omax" and "request_ok r"
  shows "parse_upload_pack_request omax (bytes_source (request_bytes r)) = Inr r"
  by (rule parse_request_bytes [OF assms])

definition demo_fetch_request :: up_request where
  "demo_fetch_request = \<lparr>up_wants = [''aa11'', ''bb22''], up_haves = [''cc33''], up_done = True,
     up_caps = [''filter'', ''side-band-64k''], up_deepen = 12, up_deepen_not = [], up_deepen_since = [],
     up_shallows = [''dd44'']\<rparr>"

theorem fetch_request_roundtrip_witness:
  "parse_upload_pack_request 65520 (bytes_source (request_bytes demo_fetch_request)) = Inr demo_fetch_request"
proof -
  have "request_ok demo_fetch_request" by code_simp
  then show ?thesis by (rule fetch_request_roundtrip [rotated]) (simp add: max_payload_def)
qed

text \<open>C25: on an SSH channel a fetch request is framed at its exact end: the bytes handed to the
  proxy are the client's request up to its \<open>done\<close> line, what follows stays on the channel, and
  whatever the channel carries, the frame is a prefix of it and never exceeds the cap.\<close>

theorem ssh_request_framed:
  assumes "max_payload \<le> omax"
  shows "(request_ok r \<and> up_done r \<and> length (request_bytes r) \<le> max_request_bytes \<longrightarrow>
      read_upload_pack_request omax (bytes_source (request_bytes r @ rest)) = Inr (request_bytes r)) \<and>
    (\<forall>src b. read_upload_pack_request omax src = Inr b \<longrightarrow>
      length b \<le> max_request_bytes \<and> (\<exists>t. src_bytes src = b @ t))"
proof (intro conjI impI allI)
  assume "request_ok r \<and> up_done r \<and> length (request_bytes r) \<le> max_request_bytes"
  then show "read_upload_pack_request omax (bytes_source (request_bytes r @ rest)) = Inr (request_bytes r)"
    using frame_request [OF assms, of r rest] by (auto simp: read_upload_pack_request_def)
next
  fix src b assume "read_upload_pack_request omax src = Inr b"
  then have "frame_loop omax (scanner_on src) [] = (Inr b, snd (frame_loop omax (scanner_on src) []))"
    by (simp add: read_upload_pack_request_def prod_eq_iff)
  from frame_loop_prefix [OF this]
  show "length b \<le> max_request_bytes" "\<exists>t. src_bytes src = b @ t" by (auto simp: max_request_bytes_def)
qed

theorem ssh_request_framed_witness:
  "read_upload_pack_request 65520 (bytes_source (request_bytes demo_fetch_request @ ''next'')) =
     Inr (request_bytes demo_fetch_request)"
proof -
  have "request_ok demo_fetch_request" "up_done demo_fetch_request"
    "length (request_bytes demo_fetch_request) \<le> max_request_bytes" by code_simp+
  then show ?thesis
    using ssh_request_framed [of 65520 demo_fetch_request "''next''"] by (simp add: max_payload_def)
qed

end
