(* ===== verification/Repomatch.thy ===== *)
theory Repomatch
  imports GoPath "HOL-Library.Product_Lexorder"
begin

text \<open>
  Matching of repository paths (\<open>internal/credentials/repomatch/repomatch.go\<close>): the
  validation of the patterns, the matcher built from pattern/value pairs, and its lookup. The
  value type is a type variable, as the type parameter is in the code. \<open>path.Match\<close> is
  \<open>path_match\<close>. The precedence of the lookup is stated over the list of pairs, without the
  maps and the sort that implement it.
\<close>

section \<open>Patterns\<close>

record 'v pair =
  pr_pattern :: string
  pr_value :: 'v

record 'v pattern_entry =
  en_pattern :: string
  en_order :: nat
  en_value :: 'v

record 'v repo_matcher =
  rm_exact :: "string \<rightharpoonup> 'v"
  rm_wildcards :: "'v pattern_entry list"
  rm_order :: "string list"

definition is_wildcard :: "string \<Rightarrow> bool" where
  "is_wildcard p \<longleftrightarrow> contains p ''*''"

definition validate_repo :: "string \<Rightarrow> go_error option" where
  "validate_repo p =
     (if p = [] then Some ''empty pattern''
      else if p = ''*'' then Some ''bare * catch-all not allowed''
      else if contains p ''**'' then Some ''** not allowed (use single-segment *)''
      else (case path_match p [] of None \<Rightarrow> Some ''syntax error in pattern'' | Some _ \<Rightarrow> None))"

section \<open>Construction\<close>

text \<open>One turn of the loop of \<open>New\<close>; \<open>i\<close> is the index, \<open>seen\<close> the patterns read so far.\<close>

fun add_pairs ::
  "nat \<Rightarrow> string set \<Rightarrow> 'v pair list \<Rightarrow> 'v repo_matcher \<Rightarrow> go_error + 'v repo_matcher" where
  "add_pairs i seen [] m = Inr m"
| "add_pairs i seen (p # ps) m =
     (case validate_repo (pr_pattern p) of
        Some e \<Rightarrow> Inl (''repomatch: pattern '' @ go_quote (pr_pattern p) @ '': '' @ e)
      | None \<Rightarrow>
          if pr_pattern p \<in> seen then
            Inl (''repomatch: duplicate repo pattern '' @ go_quote (pr_pattern p))
          else if is_wildcard (pr_pattern p) then
            add_pairs (Suc i) (insert (pr_pattern p) seen) ps
              (m\<lparr>rm_wildcards := rm_wildcards m @
                   [\<lparr>en_pattern = pr_pattern p, en_order = i, en_value = pr_value p\<rparr>],
                 rm_order := rm_order m @ [pr_pattern p]\<rparr>)
          else
            add_pairs (Suc i) (insert (pr_pattern p) seen) ps
              (m\<lparr>rm_exact := (rm_exact m)(pr_pattern p \<mapsto> pr_value p)\<rparr>))"

text \<open>The order of the wildcards: the longest pattern first, then the earliest declared.\<close>

definition precedence :: "'v pattern_entry \<Rightarrow> int \<times> nat" where
  "precedence e = (- int (length (en_pattern e)), en_order e)"

definition empty_matcher :: "'v repo_matcher" where
  "empty_matcher = \<lparr>rm_exact = Map.empty, rm_wildcards = [], rm_order = []\<rparr>"

definition new_matcher_of :: "'v pair list \<Rightarrow> go_error + 'v repo_matcher" where
  "new_matcher_of pairs =
     (case add_pairs 0 {} pairs empty_matcher of
        Inl e \<Rightarrow> Inl e
      | Inr m \<Rightarrow> Inr (m\<lparr>rm_wildcards := sort_key precedence (rm_wildcards m)\<rparr>))"

section \<open>Lookup\<close>

definition repo_hit :: "string \<Rightarrow> string \<Rightarrow> bool" where
  "repo_hit pattern repo \<longleftrightarrow> path_match pattern repo = Some True"

definition match_repo :: "'v repo_matcher \<Rightarrow> string \<Rightarrow> 'v option" where
  "match_repo m repo =
     (case rm_exact m repo of
        Some v \<Rightarrow> Some v
      | None \<Rightarrow> map_option en_value (find (\<lambda>e. repo_hit (en_pattern e) repo) (rm_wildcards m)))"

definition wildcard_patterns :: "'v repo_matcher \<Rightarrow> string list" where
  "wildcard_patterns m = rm_order m"

text \<open>\<open>NewBoolMatcher\<close>: the public_repos allowlist.\<close>

definition new_bool_matcher :: "string list \<Rightarrow> go_error + (string \<Rightarrow> bool)" where
  "new_bool_matcher patterns =
     (case new_matcher_of (map (\<lambda>p. \<lparr>pr_pattern = p, pr_value = ()\<rparr>) patterns) of
        Inl e \<Rightarrow> Inl e
      | Inr m \<Rightarrow> Inr (\<lambda>repo. match_repo m repo \<noteq> None))"

section \<open>The precedence\<close>

text \<open>
  The pair a repository resolves to: an exact pattern, or without one the longest matching
  wildcard, the earliest declared among equally long ones.
\<close>

definition repo_winner :: "'v pair list \<Rightarrow> string \<Rightarrow> nat \<Rightarrow> bool" where
  "repo_winner pairs repo i \<longleftrightarrow>
     i < length pairs \<and>
     (let pat = (\<lambda>j. pr_pattern (pairs ! j)) in
      if \<exists>j < length pairs. \<not> is_wildcard (pat j) \<and> pat j = repo
      then \<not> is_wildcard (pat i) \<and> pat i = repo
      else is_wildcard (pat i) \<and> repo_hit (pat i) repo \<and>
           (\<forall>j < length pairs. is_wildcard (pat j) \<and> repo_hit (pat j) repo \<longrightarrow>
              length (pat j) < length (pat i) \<or> (length (pat j) = length (pat i) \<and> i \<le> j)))"

definition entries_of :: "nat \<Rightarrow> 'v pair list \<Rightarrow> 'v pattern_entry list" where
  "entries_of i pairs =
     map (\<lambda>(j, p). \<lparr>en_pattern = pr_pattern p, en_order = j, en_value = pr_value p\<rparr>)
       (filter (\<lambda>(j, p). is_wildcard (pr_pattern p)) (enumerate i pairs))"

definition exact_of :: "'v pair list \<Rightarrow> string \<rightharpoonup> 'v" where
  "exact_of pairs =
     map_of (map (\<lambda>p. (pr_pattern p, pr_value p)) (filter (\<lambda>p. \<not> is_wildcard (pr_pattern p)) pairs))"

lemma add_pairs_Inr:
  "add_pairs i seen pairs m = Inr m' \<Longrightarrow>
   distinct (map pr_pattern pairs) \<and> seen \<inter> pr_pattern ` set pairs = {} \<and>
   (\<forall>p \<in> set pairs. validate_repo (pr_pattern p) = None) \<and>
   rm_wildcards m' = rm_wildcards m @ entries_of i pairs \<and>
   rm_order m' = rm_order m @ filter is_wildcard (map pr_pattern pairs) \<and>
   rm_exact m' = rm_exact m ++ exact_of pairs"
proof (induction pairs arbitrary: i seen m)
  case Nil
  then show ?case by (simp add: entries_of_def exact_of_def)
next
  case (Cons p ps)
  have v: "validate_repo (pr_pattern p) = None" and s: "pr_pattern p \<notin> seen"
    using Cons.prems by (auto split: option.splits if_splits)
  show ?case
  proof (cases "is_wildcard (pr_pattern p)")
    case True
    then have "add_pairs (Suc i) (insert (pr_pattern p) seen) ps
        (m\<lparr>rm_wildcards := rm_wildcards m @
             [\<lparr>en_pattern = pr_pattern p, en_order = i, en_value = pr_value p\<rparr>],
           rm_order := rm_order m @ [pr_pattern p]\<rparr>) = Inr m'"
      using Cons.prems v s by simp
    from Cons.IH [OF this] show ?thesis
      using v s True by (auto simp: entries_of_def exact_of_def)
  next
    case False
    then have "add_pairs (Suc i) (insert (pr_pattern p) seen) ps
        (m\<lparr>rm_exact := (rm_exact m)(pr_pattern p \<mapsto> pr_value p)\<rparr>) = Inr m'"
      using Cons.prems v s by simp
    note IH = Cons.IH [OF this]
    have "exact_of ps (pr_pattern p) = None"
      using IH by (auto simp: exact_of_def map_of_eq_None_iff)
    then have "(rm_exact m)(pr_pattern p \<mapsto> pr_value p) ++ exact_of ps = rm_exact m ++ exact_of (p # ps)"
      using False by (auto simp: exact_of_def map_add_def fun_eq_iff split: option.splits)
    moreover have "rm_exact m' = (rm_exact m)(pr_pattern p \<mapsto> pr_value p) ++ exact_of ps"
      using IH by (auto simp del: fun_upd_apply simp: fun_upd_def)
    ultimately have "rm_exact m' = rm_exact m ++ exact_of (p # ps)" by (rule trans [rotated])
    then show ?thesis
      using IH v s False by (simp add: entries_of_def)
  qed
qed

lemma find_sorted:
  "find P ys = Some e \<Longrightarrow> sorted (map f ys) \<Longrightarrow>
   P e \<and> e \<in> set ys \<and> (\<forall>x \<in> set ys. P x \<longrightarrow> f e \<le> f x)"
  by (induction ys) (auto split: if_splits)

lemma find_sort_key:
  "find P (sort_key f xs) = Some e \<Longrightarrow> P e \<and> e \<in> set xs \<and> (\<forall>x \<in> set xs. P x \<longrightarrow> f e \<le> f x)"
  using find_sorted [of P "sort_key f xs" e f] by simp

lemma entries_of_in:
  "e \<in> set (entries_of 0 pairs) \<longleftrightarrow>
   (\<exists>i < length pairs. is_wildcard (pr_pattern (pairs ! i)) \<and>
      e = \<lparr>en_pattern = pr_pattern (pairs ! i), en_order = i, en_value = pr_value (pairs ! i)\<rparr>)"
  by (auto simp: entries_of_def in_set_enumerate_eq image_iff)

lemma entry_in:
  "i < length pairs \<Longrightarrow> is_wildcard (pr_pattern (pairs ! i)) \<Longrightarrow>
   \<lparr>en_pattern = pr_pattern (pairs ! i), en_order = i, en_value = pr_value (pairs ! i)\<rparr>
     \<in> set (entries_of 0 pairs)"
  by (auto simp: entries_of_in)

lemma entries_of_all:
  "(\<forall>e \<in> set (entries_of 0 pairs). Q (en_pattern e)) \<longleftrightarrow>
   (\<forall>i < length pairs. is_wildcard (pr_pattern (pairs ! i)) \<longrightarrow> Q (pr_pattern (pairs ! i)))"
proof
  assume "\<forall>e \<in> set (entries_of 0 pairs). Q (en_pattern e)"
  then show "\<forall>i < length pairs. is_wildcard (pr_pattern (pairs ! i)) \<longrightarrow> Q (pr_pattern (pairs ! i))"
    using entry_in by fastforce
qed (auto simp: entries_of_in)

lemma exact_of_Some:
  assumes "distinct (map pr_pattern pairs)"
  shows "exact_of pairs repo = Some v \<longleftrightarrow>
    (\<exists>i < length pairs. \<not> is_wildcard (pr_pattern (pairs ! i)) \<and> pr_pattern (pairs ! i) = repo \<and>
       v = pr_value (pairs ! i))"
proof -
  let ?ps = "filter (\<lambda>p. \<not> is_wildcard (pr_pattern p)) pairs"
  have "distinct (map fst (map (\<lambda>p. (pr_pattern p, pr_value p)) ?ps))"
    using distinct_map_filter [OF assms] by (simp add: comp_def)
  then have "exact_of pairs repo = Some v \<longleftrightarrow>
      (repo, v) \<in> set (map (\<lambda>p. (pr_pattern p, pr_value p)) ?ps)"
    unfolding exact_of_def by (rule map_of_eq_Some_iff)
  then show ?thesis by (auto simp: image_iff in_set_conv_nth)
qed

lemma match_repo_winner:
  assumes "new_matcher_of pairs = Inr m"
  shows "match_repo m repo = Some v \<longleftrightarrow> (\<exists>i. repo_winner pairs repo i \<and> v = pr_value (pairs ! i))"
proof -
  obtain m0 where m0: "add_pairs 0 {} pairs empty_matcher = Inr m0"
      "m = m0\<lparr>rm_wildcards := sort_key precedence (rm_wildcards m0)\<rparr>"
    using assms by (auto simp: new_matcher_of_def split: sum.splits)
  have ok: "distinct (map pr_pattern pairs)" "rm_exact m = exact_of pairs"
      "rm_wildcards m = sort_key precedence (entries_of 0 pairs)"
    using add_pairs_Inr [OF m0(1)] m0(2) by (simp_all add: empty_matcher_def)
  note exact = exact_of_Some [OF ok(1), of repo]
  have uniq: "i = j" if "i < length pairs" "j < length pairs" "pr_pattern (pairs ! i) = pr_pattern (pairs ! j)" for i j
    using ok(1) that by (metis length_map nth_eq_iff_index_eq nth_map)
  show ?thesis
  proof (cases "exact_of pairs repo")
    case (Some u)
    then obtain k where k: "k < length pairs" "\<not> is_wildcard (pr_pattern (pairs ! k))"
        "pr_pattern (pairs ! k) = repo" "u = pr_value (pairs ! k)"
      using exact [of u] by auto
    then have "\<exists>j < length pairs. \<not> is_wildcard (pr_pattern (pairs ! j)) \<and> pr_pattern (pairs ! j) = repo"
      by blast
    then have "repo_winner pairs repo i \<longleftrightarrow> i = k" for i
      using uniq k by (auto simp: repo_winner_def Let_def)
    then show ?thesis using Some k(4) by (auto simp: match_repo_def ok(2))
  next
    case None
    then have no: "\<not> (\<exists>j < length pairs. \<not> is_wildcard (pr_pattern (pairs ! j)) \<and> pr_pattern (pairs ! j) = repo)"
      using exact by auto
    let ?P = "\<lambda>e. repo_hit (en_pattern e) repo"
    have run: "match_repo m repo = map_option en_value (find ?P (sort_key precedence (entries_of 0 pairs)))"
      using None by (simp add: match_repo_def ok)
    have le: "precedence x \<le> precedence y \<longleftrightarrow> length (en_pattern y) < length (en_pattern x) \<or>
        (length (en_pattern y) = length (en_pattern x) \<and> en_order x \<le> en_order y)" for x y :: "'a pattern_entry"
      by (auto simp: precedence_def less_eq_prod_def)
    show ?thesis
    proof (cases "find ?P (sort_key precedence (entries_of 0 pairs))")
      case None
      then have "\<forall>e \<in> set (entries_of 0 pairs). \<not> ?P e" by (auto simp: find_None_iff)
      then have "\<forall>i < length pairs. is_wildcard (pr_pattern (pairs ! i)) \<longrightarrow>
          \<not> repo_hit (pr_pattern (pairs ! i)) repo"
        using entries_of_all [of pairs "\<lambda>p. \<not> repo_hit p repo"] by blast
      then have "\<not> repo_winner pairs repo i" for i
        using no by (auto simp: repo_winner_def Let_def)
      then show ?thesis using None run by simp
    next
      case (Some e)
      note best = find_sort_key [OF Some]
      then obtain k where k: "k < length pairs" "is_wildcard (pr_pattern (pairs ! k))"
          "e = \<lparr>en_pattern = pr_pattern (pairs ! k), en_order = k, en_value = pr_value (pairs ! k)\<rparr>"
        by (auto simp: entries_of_in)
      have best_k: "length (pr_pattern (pairs ! j)) < length (pr_pattern (pairs ! k)) \<or>
          (length (pr_pattern (pairs ! j)) = length (pr_pattern (pairs ! k)) \<and> k \<le> j)"
        if "j < length pairs" "is_wildcard (pr_pattern (pairs ! j))" "repo_hit (pr_pattern (pairs ! j)) repo" for j
        using conjunct2 [OF conjunct2 [OF best], rule_format, OF entry_in [OF that(1,2)]] that(3)
        by (simp add: le k(3))
      moreover have hit: "repo_hit (pr_pattern (pairs ! k)) repo" using best k(3) by simp
      ultimately have w: "repo_winner pairs repo k"
        unfolding repo_winner_def Let_def if_not_P [OF no] using k(1,2) by blast
      have only: "i = k" if "repo_winner pairs repo i" for i
      proof -
        have "i < length pairs" "is_wildcard (pr_pattern (pairs ! i))" "repo_hit (pr_pattern (pairs ! i)) repo"
            "length (pr_pattern (pairs ! k)) < length (pr_pattern (pairs ! i)) \<or>
             (length (pr_pattern (pairs ! k)) = length (pr_pattern (pairs ! i)) \<and> i \<le> k)"
          using that k(1,2) hit unfolding repo_winner_def Let_def if_not_P [OF no] by blast+
        then show ?thesis using best_k [of i] by linarith
      qed
      have "match_repo m repo = Some (pr_value (pairs ! k))" using run Some k(3) by simp
      then show ?thesis using w only by (metis option.inject)
    qed
  qed
qed

lemma match_repo_None:
  assumes "new_matcher_of pairs = Inr m"
  shows "match_repo m repo = None \<longleftrightarrow> (\<forall>p \<in> set pairs.
    if is_wildcard (pr_pattern p) then \<not> repo_hit (pr_pattern p) repo else pr_pattern p \<noteq> repo)"
proof -
  obtain m0 where m0: "add_pairs 0 {} pairs empty_matcher = Inr m0"
      "m = m0\<lparr>rm_wildcards := sort_key precedence (rm_wildcards m0)\<rparr>"
    using assms by (auto simp: new_matcher_of_def split: sum.splits)
  have ok: "distinct (map pr_pattern pairs)" "rm_exact m = exact_of pairs"
      "rm_wildcards m = sort_key precedence (entries_of 0 pairs)"
    using add_pairs_Inr [OF m0(1)] m0(2) by (simp_all add: empty_matcher_def)
  have "exact_of pairs repo = None \<longleftrightarrow>
      (\<forall>p \<in> set pairs. \<not> is_wildcard (pr_pattern p) \<longrightarrow> pr_pattern p \<noteq> repo)"
    by (auto simp: exact_of_def map_of_eq_None_iff image_iff)
  moreover have "find (\<lambda>e. repo_hit (en_pattern e) repo) (rm_wildcards m) = None \<longleftrightarrow>
      (\<forall>p \<in> set pairs. is_wildcard (pr_pattern p) \<longrightarrow> \<not> repo_hit (pr_pattern p) repo)"
    unfolding ok(3) find_None_iff set_sort
    by (auto simp: entries_of_in all_set_conv_all_nth)
  ultimately show ?thesis by (auto simp: match_repo_def ok(2) split: option.splits)
qed

end
