(* ===== verification/Access.thy ===== *)
theory Access
  imports Repomatch Port
begin

text \<open>
  Who may do what: the credential vault (\<open>internal/credentials/profile/store.go\<close>), the two
  authenticators (\<open>internal/auth/token\<close>, \<open>internal/auth/keyauth\<close>) and the access decision of
  the git leg (\<open>internal/access/access.go\<close>). Files, the environment and the YAML parser are
  parameters of the vault, the parser of authorized keys and their fingerprints (golang.org/x/
  crypto/ssh) parameters of the key authenticator. The loops over Go maps take the order of
  the iteration as a list. What the vault logs is part of its result.

  The locale \<open>credential_store\<close> is the contract of \<open>port.CredentialStore\<close> the access decision
  and the upstream legs rely on; the locale \<open>authenticator\<close> is that of \<open>port.Authenticator\<close>.
\<close>

section \<open>The vault\<close>

record raw_profile =
  pf_name :: string
  pf_description :: string
  pf_username :: string
  pf_password :: string
  pf_token :: string
  pf_repos :: "string list"

record profile_wildcard =
  pw_pattern :: string
  pw_name :: string
  pw_description :: string

record profile_info =
  pi_name :: string
  pi_description :: string
  pi_repos :: "string list"
  pi_has_token :: bool

record vault =
  vt_matcher :: "credentials repo_matcher option"
  vt_wildcards :: "profile_wildcard list"
  vt_profiles :: "profile_info list"
  vt_tokens :: "string \<rightharpoonup> string"

definition empty_vault :: vault where
  "empty_vault = \<lparr>vt_matcher = None, vt_wildcards = [], vt_profiles = [], vt_tokens = Map.empty\<rparr>"

definition letter :: "char \<Rightarrow> bool" where
  "letter c \<longleftrightarrow> (let n = (of_char c :: nat) in 65 \<le> n \<and> n \<le> 90 \<or> 97 \<le> n \<and> n \<le> 122)"

text \<open>\<open>^[A-Za-z_][A-Za-z0-9_]*$\<close>.\<close>

definition valid_name :: "string \<Rightarrow> bool" where
  "valid_name s \<longleftrightarrow>
     (case s of [] \<Rightarrow> False
      | c # cs \<Rightarrow> (letter c \<or> c = CHR ''_'') \<and>
          list_all (\<lambda>d. letter d \<or> d = CHR ''_'' \<or> digit_val d \<noteq> None) cs)"

text \<open>\<open>strings.ToUpper\<close> on ASCII text, which valid names are.\<close>

definition upper_byte :: "char \<Rightarrow> char" where
  "upper_byte c = (let n = (of_char c :: nat) in if 97 \<le> n \<and> n \<le> 122 then char_of (n - 32) else c)"

definition to_upper :: "string \<Rightarrow> string" where
  "to_upper s = map upper_byte s"

definition env_or :: "(string \<rightharpoonup> string) \<Rightarrow> string \<Rightarrow> string \<Rightarrow> string" where
  "env_or env name fallback =
     (case env name of Some v \<Rightarrow> if v \<noteq> [] then v else fallback | None \<Rightarrow> fallback)"

definition resolve_creds :: "(string \<rightharpoonup> string) \<Rightarrow> raw_profile \<Rightarrow> credentials" where
  "resolve_creds env rp =
     (let up = to_upper (pf_name rp) in
      \<lparr>cr_username = env_or env (up @ ''_USERNAME'') (pf_username rp),
       cr_password = env_or env (up @ ''_PASSWORD'') (pf_password rp),
       cr_token = env_or env (up @ ''_TOKEN'') (pf_token rp)\<rparr>)"

text \<open>The warning of a profile with no credential or only one of the two, if any.\<close>

definition profile_warning :: "raw_profile \<Rightarrow> credentials \<Rightarrow> string list" where
  "profile_warning rp c =
     (let up = to_upper (pf_name rp) in
      if cr_password c = [] \<and> cr_token c = [] then
        [''profile '' @ go_quote (pf_name rp) @ '' ('' @ pf_description rp @
         '') has no usable credential; set '' @ up @ ''_PASSWORD/'' @ up @
         ''_TOKEN (or a file value); repos under it will not be credentialed'']
      else if cr_password c = [] then
        [''profile '' @ go_quote (pf_name rp) @ '' ('' @ pf_description rp @
         '') has token but no password; the git leg will authenticate as x-access-token:<token> (GitHub PAT Basic form). For a non-GitHub upstream, set ''
         @ up @ ''_USERNAME/'' @ up @ ''_PASSWORD (or a file value) instead'']
      else if cr_token c = [] then
        [''profile '' @ go_quote (pf_name rp) @ '' ('' @ pf_description rp @
         '') has password but no token '' @ [CHR 0xE2, CHR 0x80, CHR 0x94] @ '' git-only; broker ops will not be credentialed; set '' @ up @
         ''_TOKEN (or a file value) to enable it'']
      else [])"

text \<open>The state of the loop of \<open>New\<close>: the store, the pairs for the matcher, and the log.\<close>

record loading =
  ld_vault :: vault
  ld_seen :: "string set"
  ld_pairs :: "credentials pair list"
  ld_log :: "string list"

definition load_profile :: "(string \<rightharpoonup> string) \<Rightarrow> raw_profile \<Rightarrow> loading \<Rightarrow> loading" where
  "load_profile env rp ld =
     (let c = resolve_creds env rp; s = ld_vault ld in
      \<lparr>ld_vault = s\<lparr>
         vt_profiles := vt_profiles s @
           [\<lparr>pi_name = pf_name rp, pi_description = pf_description rp, pi_repos = pf_repos rp,
             pi_has_token = (cr_token c \<noteq> [])\<rparr>],
         vt_tokens := (if cr_token c \<noteq> [] then (vt_tokens s)(pf_name rp \<mapsto> cr_token c) else vt_tokens s),
         vt_wildcards := vt_wildcards s @
           map (\<lambda>p. \<lparr>pw_pattern = p, pw_name = pf_name rp, pw_description = pf_description rp\<rparr>)
             (filter is_wildcard (pf_repos rp))\<rparr>,
       ld_seen = insert (to_upper (pf_name rp)) (ld_seen ld),
       ld_pairs = ld_pairs ld @ map (\<lambda>p. \<lparr>pr_pattern = p, pr_value = c\<rparr>) (pf_repos rp),
       ld_log = ld_log ld @ profile_warning rp c\<rparr>)"

fun load_profiles :: "(string \<rightharpoonup> string) \<Rightarrow> raw_profile list \<Rightarrow> loading \<Rightarrow> loading \<times> go_error option" where
  "load_profiles env [] ld = (ld, None)"
| "load_profiles env (rp # rps) ld =
     (if \<not> valid_name (pf_name rp) then
        (ld, Some (''profile: invalid name '' @ go_quote (pf_name rp) @
                   '' (must match ^[A-Za-z_][A-Za-z0-9_]*$)''))
      else if to_upper (pf_name rp) \<in> ld_seen ld then
        (ld, Some (''profile: duplicate name '' @ go_quote (pf_name rp) @ '' (case-insensitive)''))
      else if pf_repos rp = [] then
        (ld, Some (''profile '' @ go_quote (pf_name rp) @ '': repos is empty''))
      else load_profiles env rps (load_profile env rp ld))"

definition load_vault ::
  "(string \<rightharpoonup> string) \<Rightarrow> raw_profile list \<Rightarrow> string list \<times> (go_error + vault)" where
  "load_vault env rps =
     (case load_profiles env rps \<lparr>ld_vault = empty_vault, ld_seen = {}, ld_pairs = [], ld_log = []\<rparr> of
        (ld, Some e) \<Rightarrow> (ld_log ld, Inl e)
      | (ld, None) \<Rightarrow>
          (ld_log ld,
           case new_matcher_of (ld_pairs ld) of
             Inl e \<Rightarrow> Inl e
           | Inr m \<Rightarrow> Inr ((ld_vault ld)\<lparr>vt_matcher := Some m\<rparr>)))"

text \<open>\<open>profile.New\<close>: \<open>read\<close> is \<open>os.ReadFile\<close>, \<open>yaml\<close> the parser of the vault file.\<close>

definition new_vault ::
  "(string \<Rightarrow> go_error + string) \<Rightarrow> (string \<Rightarrow> go_error + raw_profile list) \<Rightarrow>
   (string \<rightharpoonup> string) \<Rightarrow> string \<Rightarrow> string list \<times> (go_error + vault)" where
  "new_vault read yaml env path =
     (if path = [] then ([], Inr empty_vault)
      else (case read path of
              Inl e \<Rightarrow> ([], Inl (''profile: read '' @ path @ '': '' @ e))
            | Inr data \<Rightarrow>
                (case yaml data of
                   Inl e \<Rightarrow> ([], Inl (''profile: parse '' @ path @ '': '' @ e))
                 | Inr rps \<Rightarrow> load_vault env rps)))"

definition credentials_for :: "vault \<Rightarrow> string \<Rightarrow> credentials option" where
  "credentials_for s repo =
     (case vt_matcher s of
        None \<Rightarrow> None
      | Some m \<Rightarrow>
          (case match_repo m repo of
             None \<Rightarrow> None
           | Some c \<Rightarrow> if cr_password c = [] \<and> cr_token c = [] then None else Some c))"

definition token_for_profile :: "vault \<Rightarrow> string \<Rightarrow> string option" where
  "token_for_profile s name = vt_tokens s name"

section \<open>Access\<close>

datatype access_decision = DecisionAllow | DecisionDeny

definition decide ::
  "(string \<Rightarrow> credentials option) option \<Rightarrow> (string \<Rightarrow> bool) option \<Rightarrow> string \<Rightarrow> bool \<Rightarrow>
   access_decision" where
  "decide creds public repo write =
     (if (case creds of None \<Rightarrow> False | Some lookup \<Rightarrow> lookup repo \<noteq> None) then DecisionAllow
      else if write then DecisionDeny
      else if (case public of None \<Rightarrow> False | Some match \<Rightarrow> match repo) then DecisionAllow
      else DecisionDeny)"

text \<open>
  \<open>applyUpstreamCreds\<close> and \<open>applyCreds\<close>: the Basic credential of a request for a repository on
  the leg to the upstream.
\<close>

definition upstream_basic :: "(string \<Rightarrow> credentials option) option \<Rightarrow> string \<Rightarrow> (string \<times> string) option" where
  "upstream_basic creds repo =
     (case creds of
        None \<Rightarrow> None
      | Some lookup \<Rightarrow> (case lookup repo of None \<Rightarrow> None | Some c \<Rightarrow> basic_user_password c))"

text \<open>
  \<open>port.CredentialStore\<close>: a credential it returns is usable, so that a write, which needs one,
  is authenticated with a secret.
\<close>

locale credential_store =
  fixes lookup :: "string \<Rightarrow> credentials option"
  assumes usable: "lookup repo = Some c \<Longrightarrow> cr_password c \<noteq> [] \<or> cr_token c \<noteq> []"
begin

lemma write_authenticated:
  assumes "decide (Some lookup) public repo True = DecisionAllow"
  shows "\<exists>user secret. upstream_basic (Some lookup) repo = Some (user, secret) \<and> secret \<noteq> []"
proof -
  obtain c where c: "lookup repo = Some c" using assms by (auto simp: decide_def split: if_splits)
  then show ?thesis using basic_password_nonempty [OF usable [OF c]] by (simp add: upstream_basic_def)
qed

lemma anonymous_public:
  assumes "decide (Some lookup) public repo write = DecisionAllow"
    and "upstream_basic (Some lookup) repo = None"
  shows "\<not> write \<and> (\<exists>match. public = Some match \<and> match repo)"
proof -
  have "lookup repo = None"
    using assms(2) basic_password_nonempty usable
    by (fastforce simp: upstream_basic_def split: option.splits)
  then show ?thesis using assms(1) by (auto simp: decide_def split: if_splits option.splits)
qed

end

lemma credentials_usable:
  "credentials_for s repo = Some c \<Longrightarrow> cr_password c \<noteq> [] \<or> cr_token c \<noteq> []"
  by (auto simp: credentials_for_def split: option.splits if_splits)

interpretation stored: credential_store "credentials_for s" for s
  by unfold_locales (rule credentials_usable)

section \<open>Authenticators\<close>

text \<open>
  \<open>token.Authenticator\<close>: the loop over the configured tokens, in the order of the iteration,
  compares every one in constant time.
\<close>

definition token_authenticate :: "(string \<times> string) list \<Rightarrow> string \<Rightarrow> go_error + string" where
  "token_authenticate tokens token =
     (if token = [] then Inl ''token: empty credential''
      else (case find (\<lambda>(want, name). want = token) tokens of
              Some (want, name) \<Rightarrow> Inr name
            | None \<Rightarrow> Inl ''token: invalid credential''))"

text \<open>
  \<open>keyauth.New\<close>: \<open>parse\<close> is \<open>ssh.ParseAuthorizedKey\<close> and \<open>fp\<close> \<open>ssh.FingerprintSHA256\<close>; the map
  of authorized keys is listed in the order of the iteration.
\<close>

fun keyauth_loop ::
  "(string \<Rightarrow> go_error + 'k) \<Rightarrow> ('k \<Rightarrow> string) \<Rightarrow> (string \<times> string) list \<Rightarrow> (string \<rightharpoonup> string) \<Rightarrow>
   go_error + (string \<rightharpoonup> string)" where
  "keyauth_loop parse fp [] keys = Inr keys"
| "keyauth_loop parse fp ((name, key) # rest) keys =
     (if key = [] then Inl (''keyauth: agent '' @ go_quote name @ '' has empty authorized key'')
      else (case parse key of
              Inl e \<Rightarrow> Inl (''keyauth: agent '' @ go_quote name @ '': parse authorized key: '' @ e)
            | Inr pk \<Rightarrow>
                (case keys (fp pk) of
                   Some other \<Rightarrow>
                     if other \<noteq> name then
                       Inl (''keyauth: duplicate authorized key (fingerprint '' @ fp pk @ '') for agents '' @
                            go_quote other @ '' and '' @ go_quote name)
                     else keyauth_loop parse fp rest (keys(fp pk \<mapsto> name))
                 | None \<Rightarrow> keyauth_loop parse fp rest (keys(fp pk \<mapsto> name)))))"

definition new_keyauth ::
  "(string \<Rightarrow> go_error + 'k) \<Rightarrow> ('k \<Rightarrow> string) \<Rightarrow> (string \<times> string) list \<Rightarrow>
   go_error + (string \<rightharpoonup> string)" where
  "new_keyauth parse fp authorized = keyauth_loop parse fp authorized Map.empty"

definition key_authenticate :: "(string \<rightharpoonup> string) \<Rightarrow> string \<Rightarrow> go_error + string" where
  "key_authenticate keys fingerprint =
     (if fingerprint = [] then Inl ''keyauth: empty fingerprint''
      else (case keys fingerprint of
              None \<Rightarrow> Inl ''keyauth: unknown public key''
            | Some name \<Rightarrow> Inr name))"

definition fingerprint_for_agent :: "(string \<times> string) list \<Rightarrow> string \<Rightarrow> string" where
  "fingerprint_for_agent entries name =
     (case find (\<lambda>(fp, n). n = name) entries of Some (fp, n) \<Rightarrow> fp | None \<Rightarrow> [])"

text \<open>
  \<open>port.Authenticator\<close>: the empty credential is refused, and a resolved identity is one the
  operator configured for exactly this credential.
\<close>

locale authenticator =
  fixes authenticate :: "string \<Rightarrow> go_error + string"
    and configured :: "(string \<times> string) set"
  assumes rejects_empty: "\<exists>e. authenticate [] = Inl e"
    and resolves: "authenticate cred = Inr name \<Longrightarrow> (cred, name) \<in> configured"
    and complete: "cred \<noteq> [] \<Longrightarrow> (cred, name) \<in> configured \<Longrightarrow> \<exists>n. authenticate cred = Inr n"
begin

lemma refused:
  "(\<exists>e. authenticate cred = Inl e) \<longleftrightarrow> cred = [] \<or> cred \<notin> fst ` configured"
proof
  assume "\<exists>e. authenticate cred = Inl e"
  then show "cred = [] \<or> cred \<notin> fst ` configured" using complete by force
next
  assume "cred = [] \<or> cred \<notin> fst ` configured"
  then show "\<exists>e. authenticate cred = Inl e"
    using rejects_empty resolves [of cred] by (cases "authenticate cred") force+
qed

end

lemma find_member: "find P xs = Some x \<Longrightarrow> P x \<and> x \<in> set xs"
  by (induction xs) (auto split: if_splits)

interpretation by_token: authenticator "token_authenticate tokens" "set tokens" for tokens
proof unfold_locales
  fix cred name
  show "token_authenticate tokens cred = Inr name \<Longrightarrow> (cred, name) \<in> set tokens"
    by (auto simp: token_authenticate_def split: if_splits option.splits dest: find_member)
  show "cred \<noteq> [] \<Longrightarrow> (cred, name) \<in> set tokens \<Longrightarrow> \<exists>n. token_authenticate tokens cred = Inr n"
    by (auto simp: token_authenticate_def find_None_iff split: option.splits)
qed (simp add: token_authenticate_def)

lemma keyauth_loop_Inr:
  "keyauth_loop parse fp authorized keys = Inr keys' \<Longrightarrow>
   (\<forall>(name, key) \<in> set authorized. key \<noteq> [] \<and> (\<exists>pk. parse key = Inr pk \<and> keys' (fp pk) = Some name)) \<and>
   (\<forall>f name. keys' f = Some name \<longleftrightarrow> keys f = Some name \<or>
      (\<exists>key pk. (name, key) \<in> set authorized \<and> parse key = Inr pk \<and> fp pk = f))"
proof (induction authorized arbitrary: keys)
  case Nil
  then show ?case by simp
next
  case (Cons a rest)
  obtain name key where a: "a = (name, key)" by (cases a)
  obtain pk where pk: "key \<noteq> []" "parse key = Inr pk" "keys (fp pk) = None \<or> keys (fp pk) = Some name"
      "keyauth_loop parse fp rest (keys(fp pk \<mapsto> name)) = Inr keys'"
    using Cons.prems a by (auto split: if_splits sum.splits option.splits)
  note IH = conjunct1 [OF Cons.IH [OF pk(4)]] conjunct2 [OF Cons.IH [OF pk(4)], rule_format]
  have "keys' (fp pk) = Some name" by (simp add: IH(2))
  then have "\<forall>(n, k) \<in> set (a # rest). k \<noteq> [] \<and> (\<exists>q. parse k = Inr q \<and> keys' (fp q) = Some n)"
    using IH(1) pk(1,2) by (simp add: a)
  moreover have "keys' f = Some n \<longleftrightarrow> keys f = Some n \<or>
      (\<exists>k q. (n, k) \<in> set (a # rest) \<and> parse k = Inr q \<and> fp q = f)" for f n
    using pk(2,3) by (auto simp: IH(2) a)
  ultimately show ?case by blast
qed

lemma new_keyauth_exact:
  assumes "new_keyauth parse fp authorized = Inr keys" and "f \<noteq> []"
  shows "key_authenticate keys f = Inr name \<longleftrightarrow>
    (\<exists>key pk. (name, key) \<in> set authorized \<and> parse key = Inr pk \<and> fp pk = f)"
proof -
  have "key_authenticate keys f = Inr name \<longleftrightarrow> keys f = Some name"
    using assms(2) by (simp add: key_authenticate_def split: option.splits)
  then show ?thesis
    using keyauth_loop_Inr [OF assms(1) [unfolded new_keyauth_def]] by simp
qed

interpretation by_key: authenticator "key_authenticate keys" "{(f, name). keys f = Some name}" for keys
  by unfold_locales (auto simp: key_authenticate_def split: if_splits option.splits)

section \<open>What the vault says\<close>

text \<open>
  The secret-free views: the log, the profile summaries and the wildcard patterns depend on
  the secrets only through their presence.
\<close>

definition same_public :: "(string \<rightharpoonup> string) \<Rightarrow> (string \<rightharpoonup> string) \<Rightarrow> raw_profile \<Rightarrow> raw_profile \<Rightarrow> bool" where
  "same_public env env' p p' \<longleftrightarrow>
     pf_name p = pf_name p' \<and> pf_description p = pf_description p' \<and> pf_repos p = pf_repos p' \<and>
     (cr_password (resolve_creds env p) = [] \<longleftrightarrow> cr_password (resolve_creds env' p') = []) \<and>
     (cr_token (resolve_creds env p) = [] \<longleftrightarrow> cr_token (resolve_creds env' p') = [])"

definition same_loading :: "loading \<Rightarrow> loading \<Rightarrow> bool" where
  "same_loading a b \<longleftrightarrow>
     ld_log a = ld_log b \<and> ld_seen a = ld_seen b \<and>
     map pr_pattern (ld_pairs a) = map pr_pattern (ld_pairs b) \<and>
     vt_profiles (ld_vault a) = vt_profiles (ld_vault b) \<and>
     vt_wildcards (ld_vault a) = vt_wildcards (ld_vault b)"

lemma load_profile_same:
  "same_loading a b \<Longrightarrow> same_public env env' p p' \<Longrightarrow>
   same_loading (load_profile env p a) (load_profile env' p' b)"
  by (auto simp: same_loading_def same_public_def load_profile_def profile_warning_def Let_def comp_def)

lemma load_profiles_same:
  "list_all2 (same_public env env') ps ps' \<Longrightarrow> same_loading a b \<Longrightarrow>
   snd (load_profiles env ps a) = snd (load_profiles env' ps' b) \<and>
   same_loading (fst (load_profiles env ps a)) (fst (load_profiles env' ps' b))"
proof (induction ps ps' arbitrary: a b rule: list_all2_induct)
  case Nil
  then show ?case by simp
next
  case (Cons p ps p' ps')
  have eq: "pf_name p = pf_name p'" "pf_repos p = pf_repos p'" "ld_seen a = ld_seen b"
    using Cons by (simp_all add: same_public_def same_loading_def)
  show ?case
    using Cons.IH [OF load_profile_same [OF Cons.prems Cons.hyps(1)]] Cons.prems
    by (simp add: eq)
qed

lemma add_pairs_same:
  "map pr_pattern ps = map pr_pattern qs \<Longrightarrow>
   (case add_pairs i seen ps m of Inl e \<Rightarrow> Inl e | Inr m \<Rightarrow> Inr ()) =
   (case add_pairs i seen qs m' of Inl e \<Rightarrow> Inl e | Inr m \<Rightarrow> Inr ())"
proof (induction ps arbitrary: i seen m m' qs)
  case (Cons p ps)
  then obtain q qs' where "qs = q # qs'" "pr_pattern p = pr_pattern q" "map pr_pattern ps = map pr_pattern qs'"
    by (cases qs) auto
  then show ?case using Cons.IH [of qs'] by (simp split: option.splits)
qed simp

end
