(* ===== verification/Shallow.thy ===== *)
theory Shallow
  imports Gitx
begin

text \<open>
  The depth cut of a shallow fetch (\<open>depthExcludedSet\<close> of
  \<open>internal/gitproto/uploadpack_enforce.go\<close>): a breadth-first walk of the commit graph from
  the wants. Its specification is the inductive relation \<open>walk\<close>; \<open>depth_excluded_iff\<close> shows
  that the excluded commits are those at distance at least the depth.
\<close>

section \<open>The commit graph\<close>

text \<open>\<open>parentOf\<close>: a later entry of a commit replaces an earlier one, absent is empty.\<close>

definition parents_of :: "commit_parents list \<Rightarrow> string \<Rightarrow> string list" where
  "parents_of cps c =
     (case map_of (rev (map (\<lambda>cp. (cp_oid cp, cp_parents cp)) cps)) c of None \<Rightarrow> [] | Some ps \<Rightarrow> ps)"

definition all_parents :: "commit_parents list \<Rightarrow> string set" where
  "all_parents cps = (\<Union>cp \<in> set cps. set (cp_parents cp))"

lemma parents_of_all: "set (parents_of cps c) \<subseteq> all_parents cps"
proof (cases "map_of (rev (map (\<lambda>cp. (cp_oid cp, cp_parents cp)) cps)) c")
  case None
  then show ?thesis by (simp add: parents_of_def)
next
  case (Some ps)
  then have "(c, ps) \<in> set (map (\<lambda>cp. (cp_oid cp, cp_parents cp)) cps)" using map_of_SomeD by fastforce
  then show ?thesis using Some by (auto simp: parents_of_def all_parents_def)
qed

lemma finite_all_parents: "finite (all_parents cps)"
  by (simp add: all_parents_def)

section \<open>The walk\<close>

text \<open>
  \<open>gen\<close> lists the commits in the order they were first seen, with their generation; the
  queue holds the commits whose parents have not been looked at.
\<close>

type_synonym generations = "(string \<times> nat) list"

fun see_all :: "nat \<Rightarrow> string list \<Rightarrow> generations \<Rightarrow> string list \<Rightarrow> generations \<times> string list" where
  "see_all g [] gen queue = (gen, queue)"
| "see_all g (p # ps) gen queue =
     (if p \<in> fst ` set gen then see_all g ps gen queue
      else see_all g ps (gen @ [(p, g)]) (queue @ [p]))"

definition gen_of :: "generations \<Rightarrow> string \<Rightarrow> nat" where
  "gen_of gen c = (case map_of gen c of None \<Rightarrow> 0 | Some g \<Rightarrow> g)"

lemma see_all_cases:
  "see_all g ps gen queue = (gen', queue') \<Longrightarrow>
   \<exists>new. gen' = gen @ map (\<lambda>p. (p, g)) new \<and> queue' = queue @ new \<and> distinct new \<and>
     set new = set ps - fst ` set gen"
proof (induction ps arbitrary: gen queue)
  case Nil
  then show ?case by simp
next
  case (Cons p ps)
  show ?case
  proof (cases "p \<in> fst ` set gen")
    case True
    then have "see_all g ps gen queue = (gen', queue')" using Cons.prems by simp
    from Cons.IH [OF this] show ?thesis using True by auto
  next
    case False
    then have "see_all g ps (gen @ [(p, g)]) (queue @ [p]) = (gen', queue')" using Cons.prems by simp
    from Cons.IH [OF this] obtain new where new: "gen' = gen @ [(p, g)] @ map (\<lambda>p. (p, g)) new"
      "queue' = queue @ [p] @ new" "distinct new" "set new = set ps - fst ` set (gen @ [(p, g)])" by auto
    then show ?thesis using False by (intro exI [of _ "p # new"]) auto
  qed
qed

function bfs :: "commit_parents list \<Rightarrow> generations \<Rightarrow> string list \<Rightarrow> generations" where
  "bfs cps gen queue =
     (case queue of
        [] \<Rightarrow> gen
      | c # rest \<Rightarrow>
          (let (gen', queue') = see_all (gen_of gen c + 1) (parents_of cps c) gen rest in
           bfs cps gen' queue'))"
  by pat_completeness auto
termination
proof (relation "measures [\<lambda>(cps, gen, queue). card (all_parents cps - fst ` set gen),
                           \<lambda>(cps, gen, queue). length queue]")
  fix cps gen queue c rest x gen' queue'
  assume q: "queue = c # rest" and x: "x = see_all (gen_of gen c + 1) (parents_of cps c) gen rest"
    and xy: "(gen', queue') = x"
  obtain new where new: "gen' = gen @ map (\<lambda>p. (p, gen_of gen c + 1)) new" "queue' = rest @ new"
    "set new = set (parents_of cps c) - fst ` set gen"
    using see_all_cases [of "gen_of gen c + 1" "parents_of cps c" gen rest gen' queue'] x xy by auto
  have im: "fst ` set gen' = fst ` set gen \<union> set new" using new(1) by force
  show "((cps, gen', queue'), cps, gen, queue) \<in> measures
      [\<lambda>(cps, gen, queue). card (all_parents cps - fst ` set gen), \<lambda>(cps, gen, queue). length queue]"
  proof (cases "new = []")
    case True
    then show ?thesis using new q im by simp
  next
    case False
    then obtain p where "p \<in> set new" by (cases new) auto
    then have "p \<in> all_parents cps - fst ` set gen" "p \<notin> all_parents cps - fst ` set gen'"
      using new(3) parents_of_all [of cps c] im by auto
    then have "all_parents cps - fst ` set gen' \<subset> all_parents cps - fst ` set gen"
      using im by auto
    then have "card (all_parents cps - fst ` set gen') < card (all_parents cps - fst ` set gen)"
      by (intro psubset_card_mono) (simp_all add: finite_all_parents)
    then show ?thesis by simp
  qed
qed simp

declare bfs.simps [simp del]

definition generations_from :: "commit_parents list \<Rightarrow> string list \<Rightarrow> generations" where
  "generations_from cps wants =
     (let (gen, queue) = see_all 0 wants [] [] in bfs cps gen queue)"

text \<open>The set \<open>E\<close>, in the order of the walk: Go ranges over a map, in no fixed order.\<close>

definition depth_excluded :: "commit_parents list \<Rightarrow> string list \<Rightarrow> int \<Rightarrow> string list" where
  "depth_excluded cps wants depth =
     map fst (filter (\<lambda>(c, g). int g \<ge> depth) (generations_from cps wants))"

section \<open>Distances\<close>

inductive walk :: "commit_parents list \<Rightarrow> string list \<Rightarrow> string \<Rightarrow> nat \<Rightarrow> bool" for cps wants where
  want: "c \<in> set wants \<Longrightarrow> walk cps wants c 0"
| parent: "walk cps wants c n \<Longrightarrow> p \<in> set (parents_of cps c) \<Longrightarrow> walk cps wants p (Suc n)"

inductive_cases walk_zeroE: "walk cps wants c 0"

text \<open>
  The invariant of the loop: first sight is a walk, the queue is in order of generation, no
  generation is more than one above that of the queue's head, and the parents of a commit
  that has left the queue have been seen at most one generation later.
\<close>

definition bfs_inv :: "commit_parents list \<Rightarrow> string list \<Rightarrow> generations \<Rightarrow> string list \<Rightarrow> bool" where
  "bfs_inv cps wants gen queue \<longleftrightarrow>
     distinct (map fst gen) \<and> set queue \<subseteq> fst ` set gen \<and>
     (\<forall>(c, g) \<in> set gen. walk cps wants c g) \<and>
     (\<forall>c \<in> set wants. (c, 0) \<in> set gen) \<and>
     sorted (map (gen_of gen) queue) \<and>
     (queue \<noteq> [] \<longrightarrow> (\<forall>(c, g) \<in> set gen. g \<le> gen_of gen (hd queue) + 1)) \<and>
     (\<forall>(c, g) \<in> set gen. c \<notin> set queue \<longrightarrow>
        (\<forall>p \<in> set (parents_of cps c). \<exists>h \<le> g + 1. (p, h) \<in> set gen))"

lemma gen_of_in: "distinct (map fst gen) \<Longrightarrow> (c, g) \<in> set gen \<Longrightarrow> gen_of gen c = g"
  by (simp add: gen_of_def map_of_is_SomeI)

lemma gen_of_mem: "c \<in> fst ` set gen \<Longrightarrow> (c, gen_of gen c) \<in> set gen"
  by (force simp: gen_of_def split: option.splits dest: map_of_SomeD simp: map_of_eq_None_iff)

lemma bfs_inv_step:
  assumes inv: "bfs_inv cps wants gen (c # rest)"
    and s: "see_all (gen_of gen c + 1) (parents_of cps c) gen rest = (gen', queue')"
  shows "bfs_inv cps wants gen' queue'"
proof -
  let ?g = "gen_of gen c"
  obtain new where new: "gen' = gen @ map (\<lambda>p. (p, ?g + 1)) new" "queue' = rest @ new" "distinct new"
    "set new = set (parents_of cps c) - fst ` set gen"
    using see_all_cases [OF s] by auto
  have d: "distinct (map fst gen)" and sub: "set (c # rest) \<subseteq> fst ` set gen"
    and wk: "\<forall>(c, g) \<in> set gen. walk cps wants c g" and wa: "\<forall>c \<in> set wants. (c, 0) \<in> set gen"
    and so: "sorted (map (gen_of gen) (c # rest))"
    and up: "\<forall>(x, g) \<in> set gen. g \<le> ?g + 1"
    and done': "\<forall>(x, g) \<in> set gen. x \<notin> set (c # rest) \<longrightarrow>
        (\<forall>p \<in> set (parents_of cps x). \<exists>h \<le> g + 1. (p, h) \<in> set gen)"
    using inv by (auto simp: bfs_inv_def)
  have cin: "(c, ?g) \<in> set gen" using sub gen_of_mem by auto
  have d': "distinct (map fst gen')" using d new by (auto simp: comp_def)
  have old: "gen_of gen' x = gen_of gen x" if "x \<in> fst ` set gen" for x
    using gen_of_in [OF d', of x "gen_of gen x"] gen_of_mem [OF that] new(1) by simp
  have fresh: "gen_of gen' x = ?g + 1" if "x \<in> set new" for x
    using gen_of_in [OF d', of x "?g + 1"] that new(1) by simp
  have so': "sorted (map (gen_of gen') queue')"
  proof -
    have m: "map (gen_of gen') rest = map (gen_of gen) rest" using sub old by auto
    have n: "map (gen_of gen') new = replicate (length new) (?g + 1)"
      using fresh by (simp add: map_replicate_const [symmetric] cong: map_cong)
    have "\<forall>x \<in> set rest. gen_of gen x \<le> ?g + 1"
    proof
      fix x
      assume "x \<in> set rest"
      then have "(x, gen_of gen x) \<in> set gen" using sub by (intro gen_of_mem) auto
      then show "gen_of gen x \<le> ?g + 1" using up by auto
    qed
    then show ?thesis
      unfolding new(2) map_append m n sorted_append using so by auto
  qed
  have hd': "queue' \<noteq> [] \<Longrightarrow> ?g \<le> gen_of gen' (hd queue')"
    using new(2) so old sub fresh by (cases rest; cases new) auto
  have up': "queue' \<noteq> [] \<longrightarrow> (\<forall>(x, g) \<in> set gen'. g \<le> gen_of gen' (hd queue') + 1)"
  proof
    assume "queue' \<noteq> []"
    then have h: "?g \<le> gen_of gen' (hd queue')" by (rule hd')
    show "\<forall>(x, g) \<in> set gen'. g \<le> gen_of gen' (hd queue') + 1"
    proof clarify
      fix x g
      assume "(x, g) \<in> set gen'"
      then have "(x, g) \<in> set gen \<or> g = ?g + 1" using new(1) by auto
      then have "g \<le> ?g + 1" using up by auto
      then show "g \<le> gen_of gen' (hd queue') + 1" using h by linarith
    qed
  qed
  have wk': "\<forall>(x, g) \<in> set gen'. walk cps wants x g"
  proof -
    have "walk cps wants c ?g" using wk cin by auto
    then have "\<forall>p \<in> set new. walk cps wants p (?g + 1)" using new(4) walk.parent by auto
    then show ?thesis using wk new(1) by auto
  qed
  have dn': "\<forall>(x, g) \<in> set gen'. x \<notin> set queue' \<longrightarrow>
      (\<forall>p \<in> set (parents_of cps x). \<exists>h \<le> g + 1. (p, h) \<in> set gen')"
  proof (intro ballI, clarify)
    fix x g p
    assume xg: "(x, g) \<in> set gen'" and nq: "x \<notin> set queue'" and p: "p \<in> set (parents_of cps x)"
    then have xo: "(x, g) \<in> set gen" using new(1,2) by auto
    show "\<exists>h \<le> g + 1. (p, h) \<in> set gen'"
    proof (cases "x = c")
      case True
      then have g: "g = ?g" using gen_of_in [OF d xo] by simp
      show ?thesis
      proof (cases "p \<in> fst ` set gen")
        case True
        then have "(p, gen_of gen p) \<in> set gen" by (rule gen_of_mem)
        moreover from this have "gen_of gen p \<le> g + 1" using up g by auto
        ultimately show ?thesis using new(1) by auto
      next
        case False
        then have "p \<in> set new" using new(4) p True \<open>x = c\<close> by auto
        then show ?thesis using new(1) g by auto
      qed
    next
      case False
      then have "x \<notin> set (c # rest)" using nq new(2) by auto
      then obtain h where "h \<le> g + 1" "(p, h) \<in> set gen" using done' xo p by blast
      then show ?thesis using new(1) by auto
    qed
  qed
  have "set queue' \<subseteq> fst ` set gen'" using sub new(1,2) by (auto simp: image_Un image_image)
  then show ?thesis
    using d' wk' wa so' up' dn' new(1) by (simp add: bfs_inv_def)
qed

lemma bfs_result:
  "bfs_inv cps wants gen queue \<Longrightarrow> bfs_inv cps wants (bfs cps gen queue) []"
proof (induction cps gen queue rule: bfs.induct)
  case (1 cps gen queue)
  show ?case
  proof (cases queue)
    case Nil
    then show ?thesis using "1.prems" by (simp add: bfs.simps)
  next
    case (Cons c rest)
    obtain gen' queue' where s: "see_all (gen_of gen c + 1) (parents_of cps c) gen rest = (gen', queue')"
      by fastforce
    have "bfs_inv cps wants gen' queue'" using bfs_inv_step s "1.prems" Cons by blast
    then have "bfs_inv cps wants (bfs cps gen' queue') []"
      using "1.IH" [OF Cons refl] s by simp
    then show ?thesis using Cons s by (simp add: bfs.simps [of cps gen])
  qed
qed

lemma generations_inv: "bfs_inv cps wants (generations_from cps wants) []"
proof -
  obtain gen queue where s: "see_all 0 wants [] [] = (gen, queue)" by fastforce
  obtain new where new: "gen = map (\<lambda>p. (p, 0)) new" "queue = new" "distinct new" "set new = set wants"
    using see_all_cases [OF s] by auto
  have d: "distinct (map fst gen)" using new by (simp add: comp_def)
  then have g0: "gen_of gen x = 0" if "x \<in> set new" for x
    using gen_of_in [OF d, of x 0] that new(1) by auto
  have "map (gen_of gen) queue = replicate (length queue) 0"
    using g0 new(2) by (simp add: map_replicate_const [symmetric] cong: map_cong)
  moreover have "fst ` set gen = set new" using new(1) by force
  ultimately have "bfs_inv cps wants gen queue"
    using d new by (auto simp: bfs_inv_def intro: walk.want)
  then show ?thesis using bfs_result s by (simp add: generations_from_def)
qed

lemma generation_minimal:
  "walk cps wants c n \<Longrightarrow> \<exists>g \<le> n. (c, g) \<in> set (generations_from cps wants)"
proof (induction rule: walk.induct)
  case (want c)
  then show ?case using generations_inv [of cps wants] by (auto simp: bfs_inv_def)
next
  case (parent c n p)
  then obtain g where "g \<le> n" "(c, g) \<in> set (generations_from cps wants)" by blast
  then obtain h where "h \<le> g + 1" "(p, h) \<in> set (generations_from cps wants)"
    using generations_inv [of cps wants] parent.hyps(2) unfolding bfs_inv_def by fastforce
  then show ?case using \<open>g \<le> n\<close> by (metis Suc_eq_plus1 Suc_le_mono le_trans)
qed

lemma generation_walk: "(c, g) \<in> set (generations_from cps wants) \<Longrightarrow> walk cps wants c g"
  using generations_inv [of cps wants] by (auto simp: bfs_inv_def)

lemma depth_excluded_in:
  "c \<in> set (depth_excluded cps wants depth) \<longleftrightarrow>
   (\<exists>n. walk cps wants c n) \<and> (\<forall>n. walk cps wants c n \<longrightarrow> depth \<le> int n)"
proof -
  let ?gen = "generations_from cps wants"
  have d: "distinct (map fst ?gen)" using generations_inv [of cps wants] by (simp add: bfs_inv_def)
  show ?thesis
  proof
    assume "c \<in> set (depth_excluded cps wants depth)"
    then obtain g where g: "(c, g) \<in> set ?gen" "depth \<le> int g" by (auto simp: depth_excluded_def)
    have "depth \<le> int n" if w: "walk cps wants c n" for n
    proof -
      obtain h where "h \<le> n" "(c, h) \<in> set ?gen" using generation_minimal [OF w] by blast
      then have "h = g" using d g(1) by (metis gen_of_in)
      then show ?thesis using g(2) \<open>h \<le> n\<close> by simp
    qed
    then show "(\<exists>n. walk cps wants c n) \<and> (\<forall>n. walk cps wants c n \<longrightarrow> depth \<le> int n)"
      using generation_walk [OF g(1)] by blast
  next
    assume "(\<exists>n. walk cps wants c n) \<and> (\<forall>n. walk cps wants c n \<longrightarrow> depth \<le> int n)"
    then obtain g where "(c, g) \<in> set ?gen" "depth \<le> int g"
      using generation_minimal generation_walk by (metis (no_types))
    then show "c \<in> set (depth_excluded cps wants depth)" by (force simp: depth_excluded_def)
  qed
qed

end
