(* ===== verification/FetchEnforce.thy ===== *)
theory FetchEnforce
  imports PushEnforce Shallow Pathmatch
begin

text \<open>
  The read-protected fetch (\<open>internal/gitproto/uploadpack_enforce.go\<close>): the proxy assembles
  the packfile itself and leaves out the blobs at denied paths. \<open>serve_inner\<close> is
  \<open>serveUploadPackEnforcedInner\<close>, in the order of the code: refresh, validation of the wants,
  the on-demand check, the shallow plan or the plain object set, the withholding and the
  response; \<open>serve_enforced\<close> adds the repair and retry.

  The pack reader is a source and its \<open>packWait\<close> function a result; the response function
  counts its calls of \<open>packWait\<close>. \<open>io.Copy\<close> moves the remainder in pieces of its buffer
  size; a short read of the pipe would only move the frame boundaries.
\<close>

section \<open>Results and reasons\<close>

record fetch_result =
  fr_paths :: "string list"
  fr_oids :: "string list"
  fr_reason :: string

definition no_denial :: fetch_result where
  "no_denial = \<lparr>fr_paths = [], fr_oids = [], fr_reason = []\<rparr>"

definition err_plain_clone :: string where
  "err_plain_clone =
     ''read-protected repository requires a partial clone; retry with --filter=blob:none''"

definition err_deepen_since :: string where
  "err_deepen_since =
     ''shallow-since fetches (--shallow-since / deepen-since) are not yet supported through the read-protected path; retry without --shallow-since''"

definition err_malformed_want :: string where
  "err_malformed_want = ''malformed want: object id must be 40 hex characters''"

definition deny_reason :: "string \<Rightarrow> string" where
  "deny_reason oid = ''access to object '' @ oid @ '' denied by read policy''"

definition client_requested_filter :: "string list \<Rightarrow> bool" where
  "client_requested_filter caps \<longleftrightarrow>
     list_ex (\<lambda>c. c = ''filter'' \<or> has_prefix c ''filter='') caps"

definition upload_sideband :: "string list \<Rightarrow> sideband" where
  "upload_sideband caps =
     (case find (\<lambda>c. c = ''side-band-64k'' \<or> has_prefix c ''side-band-64k='' \<or>
                     c = ''side-band'' \<or> has_prefix c ''side-band='') caps of
        None \<Rightarrow> NoSideband
      | Some c \<Rightarrow>
          if c = ''side-band-64k'' \<or> has_prefix c ''side-band-64k='' then Sideband64k else Sideband)"

definition first_non_empty :: "string list \<Rightarrow> string" where
  "first_non_empty ss = (case find (\<lambda>s. s \<noteq> []) ss of None \<Rightarrow> [] | Some s \<Rightarrow> s)"

definition write_upload_pack_err :: "gogit \<Rightarrow> writer \<Rightarrow> string \<Rightarrow> writer \<times> go_error option" where
  "write_upload_pack_err G w reason = encode_string G w (''ERR '' @ reason @ [NL])"

section \<open>On-demand blobs\<close>

definition refused_want ::
  "pattern list \<Rightarrow> (string \<rightharpoonup> string) \<Rightarrow> path_index \<Rightarrow> string \<Rightarrow> bool" where
  "refused_want deny types paths oid \<longleftrightarrow>
     types oid = Some ''tree'' \<or>
     (types oid = Some ''blob'' \<and> (paths oid = [] \<or> list_ex (matcher_match deny) (paths oid)))"

text \<open>The object id the refusal names, if the fetch must be refused.\<close>

definition on_demand_deny ::
  "'r env \<Rightarrow> pattern list option \<Rightarrow> string list \<Rightarrow> 'r mirror \<Rightarrow> 'r mirror \<times> string option" where
  "on_demand_deny env deny wants m =
     (case deny of
        None \<Rightarrow> (m, None)
      | Some d \<Rightarrow>
          if wants = [] then (m, None)
          else
            (case object_types env wants m of
               (m1, Inl e) \<Rightarrow> (m1, Some (first_non_empty wants))
             | (m1, Inr types) \<Rightarrow>
                 (let blobs = filter (\<lambda>o'. types o' = Some ''blob'') wants in
                  case resolve_many env blobs m1 of
                    (m2, Inl e) \<Rightarrow> (m2, Some (first_non_empty blobs))
                  | (m2, Inr paths) \<Rightarrow> (m2, find (refused_want d types paths) wants))))"

section \<open>The shallow plan\<close>

definition cut_by :: "commit_parents list \<Rightarrow> string list \<Rightarrow> string list \<Rightarrow> string list" where
  "cut_by cps excluded shallows =
     dedup_from {}
       (map cp_oid
         (filter (\<lambda>cp. cp_oid cp \<notin> set excluded \<and> list_ex (\<lambda>p. p \<in> set excluded) (cp_parents cp)
                       \<and> cp_oid cp \<notin> set shallows) cps))"

definition resolved_shallows ::
  "commit_parents list \<Rightarrow> string list \<Rightarrow> string list \<Rightarrow> string list \<Rightarrow> string list" where
  "resolved_shallows cps excluded shallows emitted =
     (let present = (\<lambda>c. c \<in> set (map cp_oid cps)) in
      dedup_from (set emitted)
        (filter (\<lambda>s. present s \<and> s \<notin> set excluded \<and>
                     list_all (\<lambda>p. p \<notin> set excluded \<and> present p) (parents_of cps s)) shallows))"

definition shallow_lines :: "commit_parents list \<Rightarrow> string list \<Rightarrow> string list \<Rightarrow> string list" where
  "shallow_lines cps excluded shallows =
     (let cut = cut_by cps excluded shallows in
      map (\<lambda>c. ''shallow '' @ c) cut
      @ map (\<lambda>c. ''unshallow '' @ c) (resolved_shallows cps excluded shallows cut))"

definition plan_shallow ::
  "'r env \<Rightarrow> up_request \<Rightarrow> ('r, object_path list \<times> string list) mop" where
  "plan_shallow env req =
     bind_op (wrap_op ''shallow commit graph'' (commit_parents_op env (up_wants req)))
       (\<lambda>cps.
          bind_op
            (if up_deepen req > 0 then ret_op (depth_excluded cps (up_wants req) (up_deepen req))
             else bind_op (wrap_op ''shallow deepen-not'' (ancestors env (up_deepen_not req)))
                    (\<lambda>anc. ret_op (dedup_from {} anc)))
            (\<lambda>excluded.
               bind_op (wrap_op ''shallow objects''
                          (shallow_objects env (up_wants req) excluded (up_haves req)))
                 (\<lambda>objs. ret_op (objs, shallow_lines cps excluded (up_shallows req)))))"

section \<open>The response\<close>

fun encode_lines :: "gogit \<Rightarrow> writer \<Rightarrow> string list \<Rightarrow> writer \<times> go_error option" where
  "encode_lines G w [] = (w, None)"
| "encode_lines G w (l # ls) =
     (case encode_string G w (l @ [NL]) of
        (w', Some e) \<Rightarrow> (w', Some e)
      | (w', None) \<Rightarrow> encode_lines G w' ls)"

definition copy_buffer :: nat where "copy_buffer = 32768"
definition head_size :: nat where "head_size = 4096"

definition pieces :: "string \<Rightarrow> string list" where
  "pieces b = chunks copy_buffer b"

fun write_pieces :: "(string \<Rightarrow> string) \<Rightarrow> writer \<Rightarrow> string list \<Rightarrow> writer \<times> go_error option" where
  "write_pieces f w [] = (w, None)"
| "write_pieces f w (p # ps) =
     (case wwrite w (f p) of
        (w', Some e) \<Rightarrow> (w', Some e)
      | (w', None) \<Rightarrow> write_pieces f w' ps)"

definition frame_of :: "gogit \<Rightarrow> sideband \<Rightarrow> string \<Rightarrow> string" where
  "frame_of G t p = (if t = NoSideband then p else g_mux G t p)"

definition head_label :: "sideband \<Rightarrow> string" where
  "head_label t = (case t of Sideband64k \<Rightarrow> ''mux packfile head (64k)''
     | Sideband \<Rightarrow> ''mux packfile head'' | NoSideband \<Rightarrow> ''write packfile head'')"

definition stream_label :: "sideband \<Rightarrow> string" where
  "stream_label t = (case t of Sideband64k \<Rightarrow> ''stream packfile (64k)'' | _ \<Rightarrow> ''stream packfile'')"

definition flush_label :: "sideband \<Rightarrow> string" where
  "flush_label t = (case t of Sideband64k \<Rightarrow> ''flush sideband (64k)'' | _ \<Rightarrow> ''flush sideband'')"

text \<open>
  Streaming after the NAK: the head, the remainder, then \<open>packWait\<close>, and only then the
  terminating flush-pkt. The number is that of the calls of \<open>packWait\<close>.
\<close>

definition stream_pack ::
  "gogit \<Rightarrow> sideband \<Rightarrow> writer \<Rightarrow> source \<Rightarrow> go_error option \<Rightarrow> writer \<times> go_error option \<times> nat" where
  "stream_pack G t w pack wait =
     (case wwrite w (frame_of G t (take head_size (src_bytes pack))) of
        (w1, Some e) \<Rightarrow> (w1, Some (''gitproto: '' @ head_label t @ '': '' @ e), 1)
      | (w1, None) \<Rightarrow>
          (case write_pieces (frame_of G t) w1 (pieces (drop head_size (src_bytes pack))) of
             (w2, Some e) \<Rightarrow> (w2, Some (''gitproto: '' @ stream_label t @ '': '' @ e), 1)
           | (w2, None) \<Rightarrow>
               (case src_fail pack of
                  Some e \<Rightarrow> (w2, Some (''gitproto: '' @ stream_label t @ '': '' @ e), 1)
                | None \<Rightarrow>
                    (case wait of
                       Some e \<Rightarrow> (w2, Some (''gitproto: pack-objects failed mid-stream: '' @ e), 1)
                     | None \<Rightarrow>
                         if t = NoSideband then (w2, None, 1)
                         else
                           (case wwrite w2 ''0000'' of
                              (w3, Some e) \<Rightarrow> (w3, Some (''gitproto: '' @ flush_label t @ '': '' @ e), 1)
                            | (w3, None) \<Rightarrow> (w3, None, 1))))))"

text \<open>The shallow preamble: nothing at all for a plain fetch.\<close>

definition write_preamble :: "gogit \<Rightarrow> writer \<Rightarrow> string list \<Rightarrow> writer \<times> go_error option" where
  "write_preamble G w lines =
     (case wrap_error ''gitproto: encode shallow line'' (encode_lines G w lines) of
        (w', Some e) \<Rightarrow> (w', Some e)
      | (w', None) \<Rightarrow>
          if lines = [] then (w', None)
          else wrap_error ''gitproto: flush shallow section'' (enc_flush G w'))"

definition write_v0_response ::
  "gogit \<Rightarrow> writer \<Rightarrow> source \<Rightarrow> go_error option \<Rightarrow> string list \<Rightarrow> string list \<Rightarrow>
   writer \<times> go_error option \<times> nat" where
  "write_v0_response G w pack wait caps lines =
     (let t = upload_sideband caps; empty = (src_bytes pack = []) in
      case (if length (src_bytes pack) < head_size then src_fail pack else None) of
        Some e \<Rightarrow> (w, Some (''gitproto: read pack head: '' @ e), 1)
      | None \<Rightarrow>
          (case (if empty then wait else None) of
             Some e \<Rightarrow> (w, Some (''gitproto: pack-objects: '' @ e), 1)
           | None \<Rightarrow>
               (case write_preamble G w lines of
                  (w1, Some e) \<Rightarrow> (w1, Some e, if empty then 2 else 1)
                | (w1, None) \<Rightarrow>
                    (case wrap_error ''gitproto: encode NAK'' (encode_string G w1 (''NAK'' @ [NL])) of
                       (w2, Some e) \<Rightarrow> (w2, Some e, 1)
                     | (w2, None) \<Rightarrow>
                         if empty then
                           (if t = NoSideband then (w2, None, 1)
                            else
                              (let (w3, e) = wrap_error ''gitproto: flush sideband (empty)'' (wwrite w2 ''0000'')
                               in (w3, e, 1)))
                         else stream_pack G t w2 pack wait))))"

section \<open>Serving\<close>

type_synonym 'r served = "'r mirror \<times> writer \<times> fetch_result \<times> go_error option"

definition enforce_error :: "string \<Rightarrow> go_error" where
  "enforce_error e = ''gitproto: upload-pack enforce: '' @ e"

definition is_blob :: "(string \<rightharpoonup> string) \<Rightarrow> string \<Rightarrow> bool" where
  "is_blob types oid \<longleftrightarrow> types oid = Some ''blob''"

definition withhold ::
  "pattern list option \<Rightarrow> (string \<rightharpoonup> string) \<Rightarrow> path_index \<Rightarrow> string \<Rightarrow> bool" where
  "withhold deny types paths oid \<longleftrightarrow>
     is_blob types oid \<and>
     (case deny of None \<Rightarrow> False | Some d \<Rightarrow> list_ex (matcher_match d) (paths oid))"

text \<open>The last part: type and resolve the wanted objects, withhold, and answer.\<close>

definition serve_allowed ::
  "gogit \<Rightarrow> 'r env \<Rightarrow> pattern list option \<Rightarrow> up_request \<Rightarrow> (string \<rightharpoonup> string) \<Rightarrow> path_index \<Rightarrow>
   string list \<Rightarrow> string list \<Rightarrow> 'r mirror \<Rightarrow> writer \<Rightarrow> 'r served" where
  "serve_allowed G env deny req types paths oids lines m w =
     (let held = filter (withhold deny types paths) oids;
          allowed = filter (\<lambda>o'. \<not> withhold deny types paths o') oids;
          denied = concat (map paths held) in
      if held \<noteq> [] \<and> \<not> client_requested_filter (up_caps req) then
        (let (w', e) = write_upload_pack_err G w err_plain_clone in
         (m, w', \<lparr>fr_paths = denied, fr_oids = [], fr_reason = err_plain_clone\<rparr>, e))
      else
        (case pack_objects_stream env allowed read_enforce_thin m of
           (m1, Inl e) \<Rightarrow> (m1, w, no_denial, Some (enforce_error (''pack-objects: '' @ e)))
         | (m1, Inr ps) \<Rightarrow>
             (let (w', e, n) = write_v0_response G w (bytes_source (ps_bytes ps)) (ps_wait ps)
                                 (up_caps req) lines in
              (m1, w', \<lparr>fr_paths = denied, fr_oids = [], fr_reason = []\<rparr>, e))))"

definition serve_objects ::
  "gogit \<Rightarrow> 'r env \<Rightarrow> pattern list option \<Rightarrow> up_request \<Rightarrow> object_path list \<Rightarrow> string list \<Rightarrow>
   'r mirror \<Rightarrow> writer \<Rightarrow> 'r served" where
  "serve_objects G env deny req objs lines m w =
     (let oids = dedup_from {} (map op_oid objs) in
      case object_types env oids m of
        (m1, Inl e) \<Rightarrow> (m1, w, no_denial, Some (enforce_error (''object types: '' @ e)))
      | (m1, Inr types) \<Rightarrow>
          (case (if deny = None then (m1, Inr (\<lambda>_. []))
                 else resolve_many env (filter (is_blob types) oids) m1) of
             (m2, Inl e) \<Rightarrow> (m2, w, no_denial, Some (enforce_error (''resolve blob paths: '' @ e)))
           | (m2, Inr paths) \<Rightarrow> serve_allowed G env deny req types paths oids lines m2 w))"

definition deepens :: "up_request \<Rightarrow> bool" where
  "deepens req \<longleftrightarrow> up_deepen req > 0 \<or> up_deepen_not req \<noteq> []"

definition only_preamble :: "gogit \<Rightarrow> writer \<Rightarrow> string list \<Rightarrow> writer \<times> go_error option" where
  "only_preamble G w lines =
     (case wrap_error (enforce_error ''encode shallow line'') (encode_lines G w lines) of
        (w', Some e) \<Rightarrow> (w', Some e)
      | (w', None) \<Rightarrow> wrap_error (enforce_error ''flush shallow section'') (enc_flush G w'))"

text \<open>The object set: the shallow plan, the preliminary rounds, or the plain set.\<close>

definition serve_round ::
  "gogit \<Rightarrow> 'r env \<Rightarrow> pattern list option \<Rightarrow> up_request \<Rightarrow> 'r mirror \<Rightarrow> writer \<Rightarrow> 'r served" where
  "serve_round G env deny req m w =
     (if deepens req then
        (case plan_shallow env req m of
           (m1, Inl e) \<Rightarrow> (m1, w, no_denial, Some (enforce_error e))
         | (m1, Inr (objs, lines)) \<Rightarrow>
             if \<not> up_done req then
               (let (w', e) = only_preamble G w lines in (m1, w', no_denial, e))
             else serve_objects G env deny req objs lines m1 w)
      else if \<not> up_done req then
        (let (w', e) = wrap_error (enforce_error ''encode NAK (preliminary)'')
                         (encode_string G w (''NAK'' @ [NL])) in (m, w', no_denial, e))
      else
        (case wanted_objects env (up_wants req) (up_haves req) m of
           (m1, Inl e) \<Rightarrow> (m1, w, no_denial, Some (enforce_error (''wanted objects: '' @ e)))
         | (m1, Inr objs) \<Rightarrow> serve_objects G env deny req objs [] m1 w))"

definition serve_inner ::
  "gogit \<Rightarrow> 'r env \<Rightarrow> pattern list option \<Rightarrow> up_request \<Rightarrow> 'r mirror \<Rightarrow> writer \<Rightarrow> 'r served" where
  "serve_inner G env deny req m w =
     (case refresh env m of
        (m1, Inl e) \<Rightarrow> (m1, w, no_denial, Some (enforce_error (''refresh mirror: '' @ e)))
      | (m1, Inr _) \<Rightarrow>
          if list_ex (\<lambda>want. \<not> is_hex_sha want) (up_wants req) then
            (let (w', e) = write_upload_pack_err G w err_malformed_want in
             (m1, w', no_denial\<lparr>fr_reason := err_malformed_want\<rparr>, e))
          else
            (case on_demand_deny env deny (up_wants req) m1 of
               (m2, Some oid) \<Rightarrow>
                 (let (w', e) = write_upload_pack_err G w (deny_reason oid) in
                  (m2, w', no_denial\<lparr>fr_oids := [oid]\<rparr>, e))
             | (m2, None) \<Rightarrow>
                 if up_deepen_since req \<noteq> [] then
                   (let (w', e) = write_upload_pack_err G w err_deepen_since in
                    (m2, w', no_denial\<lparr>fr_reason := err_deepen_since\<rparr>, e))
                 else serve_round G env deny req m2 w))"

text \<open>The wrapper: one repair and one retry after a corruption error.\<close>

definition serve_enforced ::
  "gogit \<Rightarrow> 'r env \<Rightarrow> pattern list option \<Rightarrow> up_request \<Rightarrow> 'r mirror \<Rightarrow> writer \<Rightarrow> 'r served" where
  "serve_enforced G env deny req m w =
     (case serve_inner G env deny req m w of
        (m1, w1, res, err) \<Rightarrow>
          (case err of
             None \<Rightarrow> (m1, w1, res, err)
           | Some e \<Rightarrow>
               if \<not> is_corruption_error e then (m1, w1, res, err)
               else
                 (case repair env m1 of
                    (m2, Inl _) \<Rightarrow> (m2, w1, res, err)
                  | (m2, Inr _) \<Rightarrow>
                      (case refresh env m2 of
                         (m3, Inl _) \<Rightarrow> (m3, w1, res, err)
                       | (m3, Inr _) \<Rightarrow> serve_inner G env deny req m3 w1))))"

end
