(* ===== verification/FetchLaws.thy ===== *)
theory FetchLaws
  imports FetchEnforce WireLaws
begin

text \<open>
  Laws of the read-protected fetch: what a reply that carries no packfile looks like, what the
  response function writes on a stream that works or breaks, when the on-demand check refuses,
  and the trace of a run that assembles a packfile.
\<close>

section \<open>Written prefixes\<close>

text \<open>
  \<open>puts w w' e bs\<close>: from \<open>w\<close> to \<open>w'\<close> a prefix of \<open>bs\<close> was written, all of it when no error is
  reported.
\<close>

definition puts :: "writer \<Rightarrow> writer \<Rightarrow> go_error option \<Rightarrow> string \<Rightarrow> bool" where
  "puts w w' e bs \<longleftrightarrow> (\<exists>a b. bs = a @ b \<and> wout w' = wout w @ a \<and> (e = None \<longrightarrow> b = []))"

lemma puts_none: "puts w w (Some e) bs"
  by (auto simp: puts_def)

lemma puts_nil: "puts w w None []"
  by (simp add: puts_def)

lemma puts_wwrite: "wwrite w bs = (w', e) \<Longrightarrow> puts w w' e bs"
  unfolding puts_def by (rule wwrite_prefix)

lemma puts_trans: "puts w w1 None as \<Longrightarrow> puts w1 w2 e bs \<Longrightarrow> puts w w2 e (as @ bs)"
  unfolding puts_def by auto

lemma puts_stop: "puts w w1 (Some e) as \<Longrightarrow> puts w w1 (Some e') (as @ bs)"
  unfolding puts_def by auto

lemma puts_fail: "puts w w1 e as \<Longrightarrow> puts w w1 (Some e') as"
  unfolding puts_def by auto

lemma wrap_error_cases: "wrap_error what (w, e) = (w', e') \<Longrightarrow> w' = w \<and> (e' = None \<longleftrightarrow> e = None)"
  by (auto simp: wrap_error_def split: option.splits)

lemma puts_wrap: "puts w w1 e bs \<Longrightarrow> wrap_error what (w1, e) = (w', e') \<Longrightarrow> puts w w' e' bs"
  using wrap_error_cases [of what w1 e w' e'] by (auto simp: puts_def)

lemma puts_encode:
  assumes "gogit_ok G" and "p \<noteq> []" and "encode_string G w p = (w', e)"
  shows "puts w w' e (pkt p)"
proof (cases "length p > max_payload")
  case True
  then show ?thesis using assms by (auto simp: gogit_ok_def intro: puts_none)
next
  case False
  then have "wwrite w (pkt p) = (w', e)" using assms by (simp add: gogit_ok_def)
  then show ?thesis by (rule puts_wwrite)
qed

lemma puts_flush: "gogit_ok G \<Longrightarrow> enc_flush G w = (w', e) \<Longrightarrow> puts w w' e ''0000''"
  using puts_wwrite [of w "''0000''"] by (simp add: enc_flush_def gogit_ok_def)

definition line_bytes :: "string list \<Rightarrow> string" where
  "line_bytes ls = concat (map (\<lambda>l. pkt (l @ [NL])) ls)"

lemma puts_lines:
  assumes "gogit_ok G"
  shows "encode_lines G w ls = (w', e) \<Longrightarrow> puts w w' e (line_bytes ls)"
proof (induction ls arbitrary: w)
  case Nil
  then show ?case by (simp add: line_bytes_def puts_def)
next
  case (Cons l ls)
  obtain w1 e1 where s: "encode_string G w (l @ [NL]) = (w1, e1)" by fastforce
  have p: "puts w w1 e1 (pkt (l @ [NL]))" by (rule puts_encode [OF assms _ s]) simp
  show ?case
  proof (cases e1)
    case None
    then have "puts w1 w' e (line_bytes ls)" using Cons s by simp
    then show ?thesis using puts_trans p None by (simp add: line_bytes_def)
  next
    case (Some x)
    then have "w' = w1" "e = Some x" using Cons.prems s by (auto simp del: encode_string.simps)
    then show ?thesis using puts_stop p Some by (simp add: line_bytes_def)
  qed
qed

definition preamble_bytes :: "string list \<Rightarrow> string" where
  "preamble_bytes lines = (if lines = [] then [] else line_bytes lines @ ''0000'')"

lemma puts_preamble:
  assumes "gogit_ok G" and "write_preamble G w lines = (w', e)"
  shows "puts w w' e (preamble_bytes lines)"
proof -
  obtain w1 e1 where s: "encode_lines G w lines = (w1, e1)" by fastforce
  obtain w2 e2 where r: "wrap_error ''gitproto: encode shallow line'' (w1, e1) = (w2, e2)" by fastforce
  have p: "puts w w2 e2 (line_bytes lines)" by (rule puts_wrap [OF puts_lines [OF assms(1) s] r])
  show ?thesis
  proof (cases e2)
    case (Some x)
    then have "w' = w2" "e = Some x" using assms(2) s r by (auto simp: write_preamble_def)
    then show ?thesis using p Some puts_stop [of w w2 x "line_bytes lines" x "''0000''"]
      by (auto simp: preamble_bytes_def line_bytes_def)
  next
    case None
    obtain w3 e3 where f: "enc_flush G w2 = (w3, e3)" by fastforce
    show ?thesis
    proof (cases "lines = []")
      case True
      then show ?thesis using assms(2) s r None p
        by (auto simp: write_preamble_def preamble_bytes_def line_bytes_def)
    next
      case False
      then have "wrap_error ''gitproto: flush shallow section'' (w3, e3) = (w', e)"
        using assms(2) s r None f by (simp add: write_preamble_def)
      then have "puts w2 w' e ''0000''" using puts_wrap puts_flush [OF assms(1) f] by blast
      then show ?thesis using puts_trans p None False by (simp add: preamble_bytes_def)
    qed
  qed
qed

lemma puts_only_preamble:
  assumes "gogit_ok G" and "only_preamble G w lines = (w', e)"
  shows "puts w w' e (line_bytes lines @ ''0000'')"
proof -
  let ?a = "enforce_error ''encode shallow line''" and ?b = "enforce_error ''flush shallow section''"
  obtain w1 e1 where s: "encode_lines G w lines = (w1, e1)" by fastforce
  obtain w2 e2 where r: "wrap_error ?a (w1, e1) = (w2, e2)" by fastforce
  have p: "puts w w2 e2 (line_bytes lines)" by (rule puts_wrap [OF puts_lines [OF assms(1) s] r])
  show ?thesis
  proof (cases e2)
    case (Some x)
    then have "w' = w2" "e = Some x" using assms(2) s r by (auto simp: only_preamble_def)
    then show ?thesis using p Some puts_stop by blast
  next
    case None
    obtain w3 e3 where f: "enc_flush G w2 = (w3, e3)" by fastforce
    have "wrap_error ?b (w3, e3) = (w', e)" using assms(2) s r None f by (simp add: only_preamble_def)
    then have "puts w2 w' e ''0000''" using puts_wrap puts_flush [OF assms(1) f] by blast
    then show ?thesis using puts_trans p None by blast
  qed
qed

section \<open>Replies without a packfile\<close>

definition nak :: string where "nak = ''NAK'' @ [NL]"

definition reply_unit :: "string \<Rightarrow> bool" where
  "reply_unit u \<longleftrightarrow>
     u = ''0000'' \<or>
     (\<exists>p. u = pkt p \<and> (p = nak \<or> has_prefix p ''ERR '' \<or> has_prefix p ''shallow '' \<or> has_prefix p ''unshallow ''))"

lemma reply_unit_err: "reply_unit (pkt (''ERR '' @ s))"
  unfolding reply_unit_def by (metis has_prefix_append)

lemma reply_unit_shallow:
  assumes "\<exists>c. l = ''shallow '' @ c \<or> l = ''unshallow '' @ c"
  shows "reply_unit (pkt (l @ [NL]))"
  using assms unfolding reply_unit_def by (metis append.assoc has_prefix_append)

text \<open>A prefix of refusal, negotiation and shallow lines: no byte of a packfile.\<close>

definition pack_free :: "string \<Rightarrow> bool" where
  "pack_free out \<longleftrightarrow> (\<exists>us t. (\<forall>u \<in> set us. reply_unit u) \<and> concat us = out @ t)"

lemma pack_free_puts:
  assumes "puts w w' e (concat us)" and "\<forall>u \<in> set us. reply_unit u"
  shows "\<exists>out. wout w' = wout w @ out \<and> pack_free out"
  using assms unfolding puts_def pack_free_def by metis

lemma pack_free_none: "\<exists>out. wout w = wout w @ out \<and> pack_free out"
  by (rule exI [of _ "[]"]) (auto simp: pack_free_def intro: exI [of _ "[]"])

lemma pack_free_err:
  assumes "gogit_ok G" and "write_upload_pack_err G w reason = (w', e)"
  shows "\<exists>out. wout w' = wout w @ out \<and> pack_free out"
proof -
  have "puts w w' e (pkt (''ERR '' @ reason @ [NL]))"
    using assms by (intro puts_encode [OF assms(1)]) (simp_all add: write_upload_pack_err_def)
  then show ?thesis
    by (intro pack_free_puts [of w w' e "[pkt (''ERR '' @ reason @ [NL])]"])
       (simp_all only: concat.simps append_Nil2 set_simps ball_simps reply_unit_err simp_thms)
qed

lemma shallow_line_kinds:
  "l \<in> set (shallow_lines cps excluded shallows) \<Longrightarrow> \<exists>c. l = ''shallow '' @ c \<or> l = ''unshallow '' @ c"
  by (auto simp: shallow_lines_def Let_def)

lemma plan_lines:
  assumes "plan_shallow env req m = (m', Inr (objs, lines))"
  shows "\<exists>cps excluded. lines = shallow_lines cps excluded (up_shallows req)"
  using assms by (auto simp: plan_shallow_def bind_op_Inr ret_op_Inr)

lemma pack_free_preamble:
  assumes "gogit_ok G" and "only_preamble G w lines = (w', e)"
    and "\<forall>l \<in> set lines. \<exists>c. l = ''shallow '' @ c \<or> l = ''unshallow '' @ c"
  shows "\<exists>out. wout w' = wout w @ out \<and> pack_free out"
proof -
  let ?us = "map (\<lambda>l. pkt (l @ [NL])) lines @ [''0000'']"
  have "reply_unit u" if u: "u \<in> set ?us" for u
  proof (cases "u = ''0000''")
    case False
    then obtain l where "l \<in> set lines" "u = pkt (l @ [NL])" using u by auto
    then show ?thesis using assms(3) reply_unit_shallow by blast
  qed (simp add: reply_unit_def)
  moreover have "puts w w' e (concat ?us)"
    using puts_only_preamble [OF assms(1,2)] by (simp add: line_bytes_def)
  ultimately show ?thesis using pack_free_puts by blast
qed

section \<open>The response\<close>

definition pack_section :: "gogit \<Rightarrow> sideband \<Rightarrow> string \<Rightarrow> string" where
  "pack_section G t b =
     (if b = [] then []
      else frame_of G t (take head_size b) @ concat (map (frame_of G t) (pieces (drop head_size b))))"

definition trailer :: "sideband \<Rightarrow> string" where
  "trailer t = (if t = NoSideband then [] else ''0000'')"

lemma puts_pieces: "write_pieces f w ps = (w', e) \<Longrightarrow> puts w w' e (concat (map f ps))"
proof (induction ps arbitrary: w)
  case Nil
  then show ?case by (simp add: puts_def)
next
  case (Cons p ps)
  obtain w1 e1 where s: "wwrite w (f p) = (w1, e1)" by fastforce
  note p = puts_wwrite [OF s]
  show ?case
  proof (cases e1)
    case None
    then have "puts w1 w' e (concat (map f ps))" using Cons s by (simp del: wwrite.simps)
    then show ?thesis using puts_trans p None by simp
  next
    case (Some x)
    then have "w' = w1" "e = Some x" using Cons.prems s by (auto simp del: wwrite.simps)
    then show ?thesis using puts_stop p Some by simp
  qed
qed

text \<open>
  Streaming: nothing but a prefix of the packfile's frames, and the terminator only after
  pack-objects reported success.
\<close>

lemma stream_pack_puts:
  assumes "stream_pack G t w pack wait = (w', e, n)" and "src_bytes pack \<noteq> []"
  shows "n = 1 \<and> puts w w' e (pack_section G t (src_bytes pack) @ trailer t) \<and>
    (wait \<noteq> None \<or> src_fail pack \<noteq> None \<longrightarrow>
      e \<noteq> None \<and> puts w w' e (pack_section G t (src_bytes pack)))"
proof -
  let ?hd = "frame_of G t (take head_size (src_bytes pack))"
  let ?tl = "concat (map (frame_of G t) (pieces (drop head_size (src_bytes pack))))"
  have sec: "pack_section G t (src_bytes pack) = ?hd @ ?tl" using assms(2) by (simp add: pack_section_def)
  obtain w1 e1 where s1: "wwrite w ?hd = (w1, e1)" by fastforce
  obtain w2 e2 where s2: "write_pieces (frame_of G t) w1 (pieces (drop head_size (src_bytes pack))) = (w2, e2)"
    by fastforce
  obtain w3 e3 where s3: "wwrite w2 ''0000'' = (w3, e3)" by fastforce
  note p1 = puts_wwrite [OF s1] and p2 = puts_pieces [OF s2] and p3 = puts_wwrite [OF s3]
  have run: "(w', e, n) = (case e1 of
      Some x \<Rightarrow> (w1, Some (''gitproto: '' @ head_label t @ '': '' @ x), 1)
    | None \<Rightarrow> (case e2 of
        Some x \<Rightarrow> (w2, Some (''gitproto: '' @ stream_label t @ '': '' @ x), 1)
      | None \<Rightarrow> (case src_fail pack of
          Some x \<Rightarrow> (w2, Some (''gitproto: '' @ stream_label t @ '': '' @ x), 1)
        | None \<Rightarrow> (case wait of
            Some x \<Rightarrow> (w2, Some (''gitproto: pack-objects failed mid-stream: '' @ x), 1)
          | None \<Rightarrow> if t = NoSideband then (w2, None, 1)
             else (case e3 of Some x \<Rightarrow> (w3, Some (''gitproto: '' @ flush_label t @ '': '' @ x), 1)
                   | None \<Rightarrow> (w3, None, 1))))))"
    using assms(1) s1 s2 s3
    by (cases e1; cases e2; cases "src_fail pack"; cases wait; cases e3)
       (simp_all add: stream_pack_def del: wwrite.simps split: if_splits)
  have a: "puts w w1 (Some x) (?hd @ bs)" if "e1 = Some y" for x y bs
    using p1 that puts_stop by blast
  have b: "puts w w2 e2 (?hd @ ?tl)" if "e1 = None"
    using puts_trans p1 p2 that by blast
  have c: "puts w w2 (Some x) ((?hd @ ?tl) @ bs)" if "e1 = None" for x bs
  proof (cases e2)
    case (Some y)
    then show ?thesis using puts_stop b [OF that] by blast
  next
    case None
    then have "puts w w2 None (?hd @ ?tl)" using b [OF that] by simp
    then show ?thesis by (auto simp: puts_def)
  qed
  have d: "puts w w3 e3 ((?hd @ ?tl) @ ''0000'')" if "e1 = None" "e2 = None"
    using puts_trans b [OF that(1)] p3 that(2) by blast
  have stop: ?thesis if "w' = w2" "e = Some x" "n = 1" "e1 = None" for x
    using c [OF that(4), of x "trailer t"] c [OF that(4), of x "[]"] that by (simp add: sec)
  show ?thesis
  proof (cases e1)
    case (Some x)
    then have "w' = w1" "\<exists>y. e = Some y" "n = 1" using run by auto
    then show ?thesis using a [OF Some] by (auto simp: sec)
  next
    case e1: None
    show ?thesis
    proof (cases "e2 \<noteq> None \<or> src_fail pack \<noteq> None \<or> wait \<noteq> None")
      case True
      then have "w' = w2 \<and> (\<exists>y. e = Some y) \<and> n = 1" using run e1 by (auto split: option.splits)
      then show ?thesis using stop e1 by blast
    next
      case False
      then have ok: "e2 = None" "src_fail pack = None" "wait = None" by auto
      show ?thesis
      proof (cases "t = NoSideband")
        case True
        then have "w' = w2" "e = None" "n = 1" using run e1 ok by auto
        then show ?thesis using b [OF e1] ok True unfolding sec trailer_def by simp
      next
        case False
        then have "w' = w3 \<and> (e = None \<longleftrightarrow> e3 = None) \<and> n = 1"
          using run e1 ok by (auto split: option.splits)
        moreover from this have "puts w w' e ((?hd @ ?tl) @ ''0000'')"
          using d [OF e1 ok(1)] by (auto simp: puts_def)
        ultimately show ?thesis using ok False unfolding sec trailer_def by simp
      qed
    qed
  qed
qed

text \<open>The whole response: the preamble, the NAK, the packfile and the terminator.\<close>

definition response_bytes :: "gogit \<Rightarrow> string list \<Rightarrow> string list \<Rightarrow> string \<Rightarrow> string" where
  "response_bytes G caps lines b =
     preamble_bytes lines @ pkt nak @ pack_section G (upload_sideband caps) b"

lemma response_empty:
  assumes "gogit_ok G" and "write_v0_response G w pack None caps lines = (w', e, n)"
    and "src_bytes pack = []" and "src_fail pack = None"
  shows "puts w w' e (response_bytes G caps lines [] @ trailer (upload_sideband caps)) \<and>
    n = (if snd (write_preamble G w lines) = None then 1 else 2)"
proof -
  let ?t = "upload_sideband caps"
  obtain w1 e1 where s1: "write_preamble G w lines = (w1, e1)" by fastforce
  obtain w2 e2 where s2: "wrap_error ''gitproto: encode NAK'' (encode_string G w1 (''NAK'' @ [NL])) = (w2, e2)" by fastforce
  obtain w3 e3 where s3: "wrap_error ''gitproto: flush sideband (empty)'' (wwrite w2 ''0000'') = (w3, e3)"
    by fastforce
  note p1 = puts_preamble [OF assms(1) s1]
  have p2: "puts w1 w2 e2 (pkt nak)"
    by (rule puts_wrap [OF puts_encode [OF assms(1)], of nak w1 "fst (encode_string G w1 nak)"
          "snd (encode_string G w1 nak)"]) (use s2 in \<open>simp_all add: nak_def del: encode_string.simps\<close>)
  have p3: "puts w2 w3 e3 ''0000''"
    by (rule puts_wrap [OF puts_wwrite, of w2 "''0000''" "fst (wwrite w2 ''0000'')" "snd (wwrite w2 ''0000'')"])
       (use s3 in \<open>simp_all del: wwrite.simps\<close>)
  have bytes: "response_bytes G caps lines [] = preamble_bytes lines @ pkt nak"
    by (simp add: response_bytes_def pack_section_def)
  show ?thesis
  proof (cases e1)
    case (Some x)
    then have "w' = w1" "e = Some x" "n = 2"
      using assms(2) unfolding write_v0_response_def Let_def by (simp_all add: assms(3,4) s1 Some head_size_def)
    then show ?thesis using puts_stop [of w w1 x] p1 Some s1 unfolding bytes by auto
  next
    case e1: None
    have p12: "puts w w2 e2 (preamble_bytes lines @ pkt nak)" using puts_trans p1 p2 e1 by blast
    have run: "(w', e, n) = (case e2 of Some x \<Rightarrow> (w2, Some x, 1)
        | None \<Rightarrow> if ?t = NoSideband then (w2, None, 1) else (w3, e3, 1))"
      using assms(2) s2 s3 unfolding write_v0_response_def Let_def
      by (cases e2) (auto simp: assms(3,4) s1 e1 head_size_def
          simp del: encode_string.simps wwrite.simps split: if_splits)
    show ?thesis
    proof (cases e2)
      case (Some x)
      then show ?thesis
        using run puts_stop [of w w2 x "preamble_bytes lines @ pkt nak" x "trailer ?t"] p12 s1 e1
        unfolding bytes by auto
    next
      case None
      have "puts w w3 e3 ((preamble_bytes lines @ pkt nak) @ ''0000'')"
        using puts_trans p12 p3 None by blast
      then show ?thesis using run None p12 s1 e1 unfolding bytes trailer_def by auto
    qed
  qed
qed

lemma response_stream:
  assumes "gogit_ok G" and "write_v0_response G w pack wait caps lines = (w', e, n)"
    and "src_bytes pack \<noteq> []" and "\<not> (length (src_bytes pack) < head_size \<and> src_fail pack \<noteq> None)"
  shows "n = 1 \<and> puts w w' e (response_bytes G caps lines (src_bytes pack) @ trailer (upload_sideband caps)) \<and>
    (wait \<noteq> None \<or> src_fail pack \<noteq> None \<longrightarrow>
      e \<noteq> None \<and> puts w w' e (response_bytes G caps lines (src_bytes pack)))"
proof -
  let ?t = "upload_sideband caps" and ?sec = "pack_section G (upload_sideband caps) (src_bytes pack)"
  obtain w1 e1 where s1: "write_preamble G w lines = (w1, e1)" by fastforce
  obtain w2 e2 where s2: "wrap_error ''gitproto: encode NAK'' (encode_string G w1 (''NAK'' @ [NL])) = (w2, e2)" by fastforce
  obtain w3 e3 k where s3: "stream_pack G ?t w2 pack wait = (w3, e3, k)" by (metis prod_cases3)
  note p1 = puts_preamble [OF assms(1) s1] and p3 = stream_pack_puts [OF s3 assms(3)]
  have p2: "puts w1 w2 e2 (pkt nak)"
    by (rule puts_wrap [OF puts_encode [OF assms(1)], of nak w1 "fst (encode_string G w1 nak)"
          "snd (encode_string G w1 nak)"]) (use s2 in \<open>simp_all add: nak_def del: encode_string.simps\<close>)
  have head: "(if length (src_bytes pack) < head_size then src_fail pack else None) = None"
    using assms(4) by auto
  have run: "(w', e, n) = (case e1 of Some x \<Rightarrow> (w1, Some x, 1)
      | None \<Rightarrow> (case e2 of Some x \<Rightarrow> (w2, Some x, 1) | None \<Rightarrow> (w3, e3, k)))"
    using assms(2) s1 s2 s3 unfolding write_v0_response_def Let_def
    by (cases e1; cases e2) (auto simp: assms(3) head simp del: encode_string.simps)
  have stop: ?thesis if "w' = v" "e = Some x" "n = 1" "puts w v (Some y) bs"
    "response_bytes G caps lines (src_bytes pack) = bs @ cs" for v x y bs cs
    using puts_stop [OF that(4), of x "cs @ trailer ?t"] puts_stop [OF that(4), of x cs] that by simp
  show ?thesis
  proof (cases e1)
    case (Some x)
    then show ?thesis
      using run p1 by (intro stop [where y = x and bs = "preamble_bytes lines"]) (auto simp: response_bytes_def)
  next
    case e1: None
    have p12: "puts w w2 e2 (preamble_bytes lines @ pkt nak)" using puts_trans p1 p2 e1 by blast
    show ?thesis
    proof (cases e2)
      case (Some x)
      then show ?thesis
        using run p12 e1
        by (intro stop [where y = x and bs = "preamble_bytes lines @ pkt nak"]) (auto simp: response_bytes_def)
    next
      case None
      then have r: "w' = w3" "e = e3" "n = k" using run e1 by auto
      have "puts w w3 e3 ((preamble_bytes lines @ pkt nak) @ b)" if "puts w2 w3 e3 b" for b
        using puts_trans p12 that None by blast
      then show ?thesis using p3 r unfolding response_bytes_def by simp
    qed
  qed
qed

end
