(* ===== verification/FetchRuns.thy ===== *)
theory FetchRuns
  imports FetchLaws
begin

text \<open>
  The runs of the read-protected fetch: which of them send a packfile, what they put into it,
  and which of them are refused.
\<close>

section \<open>Object types\<close>

lemma space_len_SP_pos: "space_len (SP # s) \<noteq> 0"
  by (simp add: space_len_SP)

lemma fields_from_words:
  "x \<in> set (fields_from acc s) \<Longrightarrow> SP \<notin> set acc \<Longrightarrow> x \<noteq> [] \<and> SP \<notin> set x"
proof (induction acc s rule: fields_from.induct)
  case (1 acc s)
  show ?case
  proof (cases s)
    case Nil
    then show ?thesis using "1.prems" by (auto simp: fields_from.simps split: if_splits)
  next
    case (Cons c cs)
    show ?thesis
    proof (cases "space_len s = 0")
      case True
      then have "c \<noteq> SP" using Cons space_len_SP_pos by metis
      then show ?thesis using "1.IH"(1) [of c cs] "1.prems" Cons True by (simp add: fields_from.simps)
    next
      case False
      then show ?thesis using "1.IH"(2) [of c cs] "1.prems" Cons
        by (subst (asm) (2) fields_from.simps) (auto split: if_splits)
    qed
  qed
qed

lemma go_fields_words: "x \<in> set (go_fields s) \<Longrightarrow> x \<noteq> [] \<and> SP \<notin> set x"
  using fields_from_words [of x "[]" s] by (simp add: go_fields_def)

lemma type_entries_words:
  "(\<And>o1. types o1 \<noteq> None \<Longrightarrow> o1 \<noteq> [] \<and> SP \<notin> set o1) \<Longrightarrow>
   foldl type_entry types lines oid \<noteq> None \<Longrightarrow> oid \<noteq> [] \<and> SP \<notin> set oid"
proof (induction lines arbitrary: types)
  case (Cons line lines)
  have "o1 \<noteq> [] \<and> SP \<notin> set o1" if "type_entry types line o1 \<noteq> None" for o1
  proof (cases "types o1 = None")
    case True
    then have "o1 \<in> set (go_fields line)"
      using that by (auto simp: type_entry_def split: list.splits if_splits)
    then show ?thesis by (rule go_fields_words)
  next
    case False
    then show ?thesis using Cons.prems(1) by blast
  qed
  then show ?case using Cons.IH [of "type_entry types line"] Cons.prems(2) by simp
qed auto

lemma object_types_words:
  assumes "object_types env oids m = (m', Inr types)" and "types oid \<noteq> None"
  shows "oid \<noteq> [] \<and> SP \<notin> set oid"
proof (cases "oids = []")
  case True
  then show ?thesis using assms by (simp add: object_types_def ret_op_Inr)
next
  case False
  then obtain out where "types = foldl type_entry Map.empty (split_clean_lines out)"
    using assms(1) by (auto simp: object_types_def bind_op_Inr ret_op_Inr)
  then show ?thesis using assms(2) type_entries_words [of Map.empty "split_clean_lines out" oid] by auto
qed

section \<open>The packfile of a served fetch\<close>

text \<open>\<open>listed env m oid p\<close>: \<open>ls-tree\<close> of some root tree of the history names \<open>oid\<close> at \<open>p\<close>.\<close>

definition listed :: "'r env \<Rightarrow> 'r mirror \<Rightarrow> string \<Rightarrow> string \<Rightarrow> bool" where
  "listed env m oid p \<longleftrightarrow> (\<exists>tree \<in> set (root_trees env m). oid @ SP # p \<in> set (tree_lines env m tree))"

text \<open>
  \<open>clean_pack\<close>: \<open>allowed\<close> was typed by git among the wanted objects, none of it is a blob
  that some root tree of the history lists at a denied path, and \<open>pack-objects\<close> was given
  exactly \<open>allowed\<close>.
\<close>

definition clean_pack ::
  "'r env \<Rightarrow> pattern list \<Rightarrow> string list \<Rightarrow> string \<Rightarrow> bool" where
  "clean_pack env deny allowed pack \<longleftrightarrow>
     (\<exists>oids m1 m2 m3 m4 types ps.
        object_types env oids m1 = (m2, Inr types) \<and> set allowed \<subseteq> set oids \<and>
        pack_objects_stream env allowed False m3 = (m4, Inr ps) \<and> pack = ps_bytes ps \<and>
        (\<forall>oid \<in> set allowed. types oid = Some ''blob'' \<longrightarrow>
           (\<forall>p. listed env m2 oid p \<longrightarrow> \<not> matcher_match deny p)))"

text \<open>What a client may receive: a reply without a packfile, or a prefix of a response with a clean one.\<close>

definition filtered_reply :: "gogit \<Rightarrow> 'r env \<Rightarrow> pattern list \<Rightarrow> string \<Rightarrow> bool" where
  "filtered_reply G env deny out \<longleftrightarrow>
     pack_free out \<or>
     (\<exists>caps lines allowed pack rest. clean_pack env deny allowed pack \<and>
        out @ rest = response_bytes G caps lines pack @ trailer (upload_sideband caps))"

lemma response_prefix:
  assumes "gogit_ok G" and "write_v0_response G w pack wait caps lines = (w', e, n)"
  shows "\<exists>out rest. wout w' = wout w @ out \<and>
    out @ rest = response_bytes G caps lines (src_bytes pack) @ trailer (upload_sideband caps)"
proof (cases "(length (src_bytes pack) < head_size \<and> src_fail pack \<noteq> None) \<or> (src_bytes pack = [] \<and> wait \<noteq> None)")
  case True
  then have "w' = w"
    using assms(2) unfolding write_v0_response_def Let_def by (auto simp: head_size_def split: if_splits option.splits)
  then show ?thesis by auto
next
  case False
  have "puts w w' e (response_bytes G caps lines (src_bytes pack) @ trailer (upload_sideband caps))"
  proof (cases "src_bytes pack = []")
    case True
    moreover from this have "wait = None" "src_fail pack = None" using False by (auto simp: head_size_def)
    ultimately show ?thesis using response_empty [OF assms(1), of w pack caps lines w' e n] assms(2) by simp
  next
    case ne: False
    then show ?thesis using response_stream [OF assms ne] False by blast
  qed
  then show ?thesis by (auto simp: puts_def)
qed

lemma serve_allowed_reply:
  assumes "gogit_ok G" and "serve_allowed G env (Some deny) req types paths oids lines m w = (m', w', res, e)"
    and "object_types env oids m1 = (m2, Inr types)"
    and "\<And>oid. is_blob types oid \<Longrightarrow> oid \<in> set oids \<Longrightarrow>
      {p. listed env m2 oid p} \<subseteq> set (paths oid)"
  shows "\<exists>out. wout w' = wout w @ out \<and> filtered_reply G env deny out"
proof -
  let ?hold = "withhold (Some deny) types paths" and ?allowed = "filter (\<lambda>o'. \<not> withhold (Some deny) types paths o') oids"
  consider (refuse) "filter ?hold oids \<noteq> []" "\<not> client_requested_filter (up_caps req)"
    | (pack) "\<not> (filter ?hold oids \<noteq> [] \<and> \<not> client_requested_filter (up_caps req))" by blast
  then show ?thesis
  proof cases
    case refuse
    obtain w1 e1 where "write_upload_pack_err G w err_plain_clone = (w1, e1)" by fastforce
    moreover from this have "w' = w1" using assms(2) refuse by (simp add: serve_allowed_def Let_def)
    ultimately show ?thesis using pack_free_err [OF assms(1)] unfolding filtered_reply_def by blast
  next
    case pack
    obtain m3 r where p: "pack_objects_stream env ?allowed False m = (m3, r)" by fastforce
    show ?thesis
    proof (cases r)
      case (Inl x)
      then have "w' = w" using assms(2) p pack unfolding serve_allowed_def Let_def read_enforce_thin_def
        by (auto split: if_splits)
      then show ?thesis using pack_free_none unfolding filtered_reply_def by blast
    next
      case (Inr ps)
      obtain w1 e1 n where r: "write_v0_response G w (bytes_source (ps_bytes ps)) (ps_wait ps) (up_caps req) lines
          = (w1, e1, n)" by (metis prod_cases3)
      then have "w' = w1" using assms(2) p pack Inr unfolding serve_allowed_def Let_def read_enforce_thin_def
        by (auto split: if_splits)
      moreover have "clean_pack env deny ?allowed (ps_bytes ps)"
        unfolding clean_pack_def
      proof (intro exI conjI)
        show "object_types env oids m1 = (m2, Inr types)" by (rule assms(3))
        show "pack_objects_stream env ?allowed False m = (m3, Inr ps)" using p Inr by simp
        show "\<forall>oid \<in> set ?allowed. types oid = Some ''blob'' \<longrightarrow>
           (\<forall>p. listed env m2 oid p \<longrightarrow> \<not> matcher_match deny p)"
          using assms(4) unfolding withhold_def is_blob_def list_ex_iff by fastforce
      qed auto
      ultimately show ?thesis
        using response_prefix [OF assms(1) r] unfolding filtered_reply_def by (metis bytes_source_sel(1))
    qed
  qed
qed

lemma no_reply: "\<exists>out. wout w = wout w @ out \<and> filtered_reply G env deny out"
  using pack_free_none unfolding filtered_reply_def by blast

lemma pack_free_reply:
  "\<exists>out. wout w' = wout w @ out \<and> pack_free out \<Longrightarrow>
   \<exists>out. wout w' = wout w @ out \<and> filtered_reply G env deny out"
  unfolding filtered_reply_def by blast

lemma serve_objects_reply:
  assumes "gogit_ok G" and "reads_only env"
    and "serve_objects G env (Some deny) req objs lines m w = (m', w', res, e)"
  shows "\<exists>out. wout w' = wout w @ out \<and> filtered_reply G env deny out"
proof -
  let ?oids = "dedup_from {} (map op_oid objs)"
  obtain m1 r1 where t: "object_types env ?oids m = (m1, r1)" by fastforce
  show ?thesis
  proof (cases r1)
    case (Inl x)
    then have "w' = w" using assms(3) t by (simp add: serve_objects_def Let_def)
    then show ?thesis using no_reply by simp
  next
    case (Inr types)
    obtain m2 r2 where p: "resolve_many env (filter (is_blob types) ?oids) m1 = (m2, r2)" by fastforce
    show ?thesis
    proof (cases r2)
      case (Inl x)
      then have "w' = w" using assms(3) t p \<open>r1 = Inr types\<close> by (simp add: serve_objects_def Let_def)
      then show ?thesis using no_reply by simp
    next
      case (Inr paths)
      have types: "object_types env ?oids m = (m1, Inr types)"
        and many: "resolve_many env (filter (is_blob types) ?oids) m1 = (m2, Inr paths)"
        using t p \<open>r1 = Inr types\<close> Inr by simp_all
      have run: "serve_allowed G env (Some deny) req types paths ?oids lines m2 w = (m', w', res, e)"
        using assms(3) types many by (simp add: serve_objects_def Let_def)
      have "{p. listed env m1 oid p} \<subseteq> set (paths oid)"
        if b: "is_blob types oid" and i: "oid \<in> set ?oids" for oid
      proof -
        have w: "oid \<noteq> [] \<and> SP \<notin> set oid" using b object_types_words [OF types] by (simp add: is_blob_def)
        have "oid \<in> set (filter (is_blob types) ?oids)" using b i by simp
        then show ?thesis using resolve_many_iff [OF assms(2) many] w unfolding listed_def by blast
      qed
      then show ?thesis by (rule serve_allowed_reply [OF assms(1) run types])
    qed
  qed
qed

lemma encode_nak_reply:
  assumes "gogit_ok G" and "wrap_error what (encode_string G w (''NAK'' @ [NL])) = (w', e)"
  shows "\<exists>out. wout w' = wout w @ out \<and> pack_free out"
proof -
  have "puts w w' e (pkt nak)"
    by (rule puts_wrap [OF puts_encode [OF assms(1)], of nak w "fst (encode_string G w nak)"
          "snd (encode_string G w nak)"]) (use assms(2) in \<open>simp_all add: nak_def del: encode_string.simps\<close>)
  then show ?thesis
    by (intro pack_free_puts [of w w' e "[pkt nak]"]) (auto simp: reply_unit_def)
qed

lemma serve_round_reply:
  assumes "gogit_ok G" and "reads_only env"
    and "serve_round G env (Some deny) req m w = (m', w', res, e)"
  shows "\<exists>out. wout w' = wout w @ out \<and> filtered_reply G env deny out"
proof (cases "deepens req")
  case True
  obtain m1 r where p: "plan_shallow env req m = (m1, r)" by fastforce
  show ?thesis
  proof (cases r)
    case (Inl x)
    then have "w' = w" using assms(3) p True by (simp add: serve_round_def)
    then show ?thesis using no_reply by simp
  next
    case (Inr r')
    obtain objs lines where r': "r' = (objs, lines)" by fastforce
    then have plan: "plan_shallow env req m = (m1, Inr (objs, lines))" using p Inr by simp
    show ?thesis
    proof (cases "up_done req")
      case False
      obtain w1 e1 where o: "only_preamble G w lines = (w1, e1)" by fastforce
      have kinds: "\<forall>l \<in> set lines. \<exists>c. l = ''shallow '' @ c \<or> l = ''unshallow '' @ c"
        using plan_lines [OF plan] shallow_line_kinds by blast
      have "w' = w1" using assms(3) plan True False o by (simp add: serve_round_def)
      then show ?thesis using pack_free_preamble [OF assms(1) o kinds] by (intro pack_free_reply) simp
    next
      case d: True
      then have "serve_objects G env (Some deny) req objs lines m1 w = (m', w', res, e)"
        using assms(3) plan True by (simp add: serve_round_def)
      then show ?thesis by (rule serve_objects_reply [OF assms(1,2)])
    qed
  qed
next
  case plain: False
  show ?thesis
  proof (cases "up_done req")
    case False
    obtain w1 e1 where o: "wrap_error (enforce_error ''encode NAK (preliminary)'')
        (encode_string G w (''NAK'' @ [NL])) = (w1, e1)" by fastforce
    have "w' = w1" using assms(3) plain False o unfolding serve_round_def by (simp del: encode_string.simps)
    then show ?thesis using encode_nak_reply [OF assms(1) o] by (intro pack_free_reply) simp
  next
    case True
    obtain m1 r where o: "wanted_objects env (up_wants req) (up_haves req) m = (m1, r)" by fastforce
    show ?thesis
    proof (cases r)
      case (Inl x)
      then have "w' = w" using assms(3) o plain True by (simp add: serve_round_def)
      then show ?thesis using no_reply by simp
    next
      case (Inr objs)
      then have "serve_objects G env (Some deny) req objs [] m1 w = (m', w', res, e)"
        using assms(3) o plain True by (simp add: serve_round_def)
      then show ?thesis by (rule serve_objects_reply [OF assms(1,2)])
    qed
  qed
qed

lemma serve_inner_reply:
  assumes "gogit_ok G" and "reads_only env"
    and "serve_inner G env (Some deny) req m w = (m', w', res, e)"
  shows "\<exists>out. wout w' = wout w @ out \<and> filtered_reply G env deny out"
proof -
  obtain m1 r where f: "refresh env m = (m1, r)" by fastforce
  obtain m2 od where o: "on_demand_deny env (Some deny) (up_wants req) m1 = (m2, od)" by fastforce
  have refused: ?thesis if "write_upload_pack_err G w reason = (w', e')" for reason e'
    using pack_free_err [OF assms(1) that] by (rule pack_free_reply)
  have "(\<exists>x. r = Inl x) \<or> (\<exists>reason e'. write_upload_pack_err G w reason = (w', e')) \<or>
      serve_round G env (Some deny) req m2 w = (m', w', res, e)"
    using assms(3) f o
    by (cases r; cases od) (auto simp: serve_inner_def Let_def split: if_splits prod.splits)
  then consider (failed) x where "r = Inl x"
    | (refused) reason e' where "write_upload_pack_err G w reason = (w', e')"
    | (served) "serve_round G env (Some deny) req m2 w = (m', w', res, e)" by blast
  then show ?thesis
  proof cases
    case failed
    then have "w' = w" using assms(3) f by (simp add: serve_inner_def)
    then show ?thesis using no_reply by simp
  next
    case served
    then show ?thesis by (rule serve_round_reply [OF assms(1,2)])
  qed (rule refused)
qed


text \<open>The wrapper adds at most one more run.\<close>

lemma serve_enforced_runs:
  assumes "serve_enforced G env deny req m w = (m', w', res, e)"
  obtains (once) m1 where "serve_inner G env deny req m w = (m1, w', res, e)"
  | (twice) m1 w1 res1 e1 m2 m3 where "serve_inner G env deny req m w = (m1, w1, res1, Some e1)"
      "is_corruption_error e1" "repair env m1 = (m2, Inr ())" "refresh env m2 = (m3, Inr ())"
      "serve_inner G env deny req m3 w1 = (m', w', res, e)"
proof -
  obtain m1 w1 res1 err where i: "serve_inner G env deny req m w = (m1, w1, res1, err)" by (metis prod_cases4)
  show thesis
  proof (cases err)
    case None
    then show thesis using i assms once by (simp add: serve_enforced_def)
  next
    case (Some e1)
    obtain m2 r2 where rp: "repair env m1 = (m2, r2)" by fastforce
    obtain m3 r3 where rf: "refresh env m2 = (m3, r3)" by fastforce
    show thesis
    proof (cases "is_corruption_error e1 \<and> r2 = Inr () \<and> r3 = Inr ()")
      case True
      then show thesis using i assms twice rp rf Some by (simp add: serve_enforced_def)
    next
      case False
      then have "w' = w1 \<and> res = res1 \<and> e = err"
        using i assms rp rf Some by (cases r2; cases r3) (auto simp: serve_enforced_def split: if_splits)
      then show thesis using i once by simp
    qed
  qed
qed

section \<open>The reply of a fetch that is reported clean\<close>

text \<open>
  \<open>clean_result\<close>: the run reports nothing withheld and nothing refused. \<open>planned\<close>: the object
  set of the request, of the shallow plan or of the wants and haves. \<open>nothing_denied\<close>: git
  types the objects of the set, and none of the blobs among them is listed at a denied path.
\<close>

definition clean_result :: "fetch_result \<Rightarrow> bool" where
  "clean_result res \<longleftrightarrow> fr_paths res = [] \<and> fr_oids res = [] \<and> fr_reason res = []"

definition planned ::
  "'r env \<Rightarrow> up_request \<Rightarrow> 'r mirror \<Rightarrow> 'r mirror \<Rightarrow> object_path list \<Rightarrow> string list \<Rightarrow> bool" where
  "planned env req m m1 objs lines \<longleftrightarrow>
     (if deepens req then plan_shallow env req m = (m1, Inr (objs, lines))
      else wanted_objects env (up_wants req) (up_haves req) m = (m1, Inr objs) \<and> lines = [])"

definition nothing_denied ::
  "'r env \<Rightarrow> pattern list \<Rightarrow> string list \<Rightarrow> 'r mirror \<Rightarrow> 'r mirror \<Rightarrow> bool" where
  "nothing_denied env deny oids m m' \<longleftrightarrow>
     (\<exists>m1 types paths. object_types env oids m = (m1, Inr types) \<and>
        resolve_many env (filter (is_blob types) oids) m1 = (m', Inr paths) \<and>
        (\<forall>oid \<in> set oids. types oid = Some ''blob'' \<longrightarrow>
           (\<forall>p. listed env m1 oid p \<longrightarrow> \<not> matcher_match deny p)))"

text \<open>
  \<open>round_reply\<close>, from the mirror the round starts on: the answer of a round without \<open>done\<close> (a NAK, or
  the shallow lines), or the complete response whose packfile git made of the whole object set of
  the request, no blob of which is listed at a denied path. \<open>whole_reply\<close>: that answer, after the
  mirror was refreshed and the wants were checked.
\<close>

definition round_reply ::
  "gogit \<Rightarrow> 'r env \<Rightarrow> pattern list \<Rightarrow> up_request \<Rightarrow> 'r mirror \<Rightarrow> string \<Rightarrow> bool" where
  "round_reply G env deny req m1 out \<longleftrightarrow>
     (if up_done req then
        (\<exists>m2 m3 m4 objs lines ps oids.
           planned env req m1 m2 objs lines \<and> oids = dedup_from {} (map op_oid objs) \<and>
           nothing_denied env deny oids m2 m3 \<and>
           pack_objects_stream env oids False m3 = (m4, Inr ps) \<and>
           out = response_bytes G (up_caps req) lines (ps_bytes ps) @ trailer (upload_sideband (up_caps req)))
      else out = pkt nak \<or> (\<exists>lines. out = line_bytes lines @ ''0000''))"

definition whole_reply ::
  "gogit \<Rightarrow> 'r env \<Rightarrow> pattern list \<Rightarrow> up_request \<Rightarrow> 'r mirror \<Rightarrow> string \<Rightarrow> bool" where
  "whole_reply G env deny req m out \<longleftrightarrow>
     (\<exists>m1 m2. refresh env m = (m1, Inr ()) \<and>
        on_demand_deny env (Some deny) (up_wants req) m1 = (m2, None) \<and>
        round_reply G env deny req m2 out)"

lemma response_whole:
  assumes "gogit_ok G" and "write_v0_response G w pack wait caps lines = (w', None, n)"
  shows "wout w' = wout w @ response_bytes G caps lines (src_bytes pack) @ trailer (upload_sideband caps)"
proof -
  have ok: "\<not> ((length (src_bytes pack) < head_size \<and> src_fail pack \<noteq> None) \<or>
      (src_bytes pack = [] \<and> wait \<noteq> None))"
    using assms(2) unfolding write_v0_response_def Let_def
    by (auto simp: head_size_def split: if_splits option.splits)
  show ?thesis
  proof (cases "src_bytes pack = []")
    case True
    moreover from this have "wait = None" "src_fail pack = None" using ok by (auto simp: head_size_def)
    ultimately show ?thesis
      using response_empty [OF assms(1), of w pack caps lines w' None n] assms(2) by (auto simp: puts_def)
  next
    case False
    then show ?thesis using response_stream [OF assms False] ok by (auto simp: puts_def)
  qed
qed

lemma serve_allowed_whole:
  assumes "gogit_ok G"
    and "serve_allowed G env (Some deny) req types paths oids lines m w = (m', w', res, None)"
    and "clean_result res"
  shows "(\<forall>oid \<in> set oids. \<not> withhold (Some deny) types paths oid) \<and>
    (\<exists>ps. pack_objects_stream env oids False m = (m', Inr ps) \<and>
      wout w' = wout w @ response_bytes G (up_caps req) lines (ps_bytes ps)
        @ trailer (upload_sideband (up_caps req)))"
proof -
  let ?held = "filter (withhold (Some deny) types paths) oids"
  let ?allowed = "filter (\<lambda>o'. \<not> withhold (Some deny) types paths o') oids"
  have none: "?held = []"
  proof (rule ccontr)
    assume "?held \<noteq> []"
    then obtain oid where "oid \<in> set ?held" by (metis list.set_intros(1) neq_Nil_conv)
    then have "oid \<in> set ?held" "paths oid \<noteq> []" by (auto simp: withhold_def)
    then have "concat (map paths ?held) \<noteq> []" by auto
    then show False
      using assms(2,3) unfolding serve_allowed_def Let_def clean_result_def
      by (auto simp: err_plain_clone_def filter_empty_conv split: if_splits prod.splits sum.splits)
  qed
  then have all: "\<forall>oid \<in> set oids. \<not> withhold (Some deny) types paths oid" by (simp add: filter_empty_conv)
  then have whole: "?allowed = oids" by (rule filter_True)
  obtain m1 ps n where "pack_objects_stream env oids False m = (m1, Inr ps)"
    and "write_v0_response G w (bytes_source (ps_bytes ps)) (ps_wait ps) (up_caps req) lines = (w', None, n)"
    and "m' = m1"
    using assms(2) none unfolding serve_allowed_def Let_def whole read_enforce_thin_def
    by (auto split: prod.splits sum.splits)
  then show ?thesis using all response_whole [OF assms(1)] by (metis bytes_source_sel(1))
qed

lemma serve_objects_whole:
  assumes "gogit_ok G" and "reads_only env" and "oids = dedup_from {} (map op_oid objs)"
    and "serve_objects G env (Some deny) req objs lines m w = (m', w', res, None)" and "clean_result res"
  shows "\<exists>m2 ps. nothing_denied env deny oids m m2 \<and> pack_objects_stream env oids False m2 = (m', Inr ps) \<and>
    wout w' = wout w @ response_bytes G (up_caps req) lines (ps_bytes ps)
      @ trailer (upload_sideband (up_caps req))"
proof -
  obtain m1 types where t: "object_types env oids m = (m1, Inr types)"
    using assms(3,4) by (auto simp: serve_objects_def Let_def split: prod.splits sum.splits)
  then obtain m2 paths where p: "resolve_many env (filter (is_blob types) oids) m1 = (m2, Inr paths)"
    using assms(3,4) by (auto simp: serve_objects_def Let_def split: prod.splits sum.splits)
  have run: "serve_allowed G env (Some deny) req types paths oids lines m2 w = (m', w', res, None)"
    using assms(3,4) t p by (simp add: serve_objects_def Let_def)
  note whole = serve_allowed_whole [OF assms(1) run assms(5)]
  have "\<not> matcher_match deny q"
    if b: "oid \<in> set oids" "types oid = Some ''blob''" and l: "listed env m1 oid q" for oid q
  proof -
    have "oid \<noteq> [] \<and> SP \<notin> set oid" using object_types_words [OF t] b by simp
    moreover have "oid \<in> set (filter (is_blob types) oids)" using b by (simp add: is_blob_def)
    ultimately have "q \<in> set (paths oid)"
      using resolve_many_iff [OF assms(2) p] l unfolding listed_def by blast
    then show ?thesis using whole b by (auto simp: withhold_def is_blob_def list_ex_iff)
  qed
  then have "nothing_denied env deny oids m m2" unfolding nothing_denied_def using t p by blast
  then show ?thesis using whole by blast
qed

lemma serve_round_whole:
  assumes "gogit_ok G" and "reads_only env"
    and "serve_round G env (Some deny) req m w = (m', w', res, None)" and "clean_result res"
  shows "\<exists>out. wout w' = wout w @ out \<and> round_reply G env deny req m out"
proof (cases "up_done req")
  case True
  obtain m1 objs lines where p: "planned env req m m1 objs lines"
    and run: "serve_objects G env (Some deny) req objs lines m1 w = (m', w', res, None)"
    using assms(3) True unfolding serve_round_def planned_def
    by (auto split: if_splits prod.splits sum.splits)
  show ?thesis
    using p serve_objects_whole [OF assms(1,2) refl run assms(4)] True unfolding round_reply_def by fastforce
next
  case False
  show ?thesis
  proof (cases "deepens req")
    case True
    then obtain lines where "only_preamble G w lines = (w', None)"
      using assms(3) False by (auto simp: serve_round_def split: prod.splits sum.splits)
    then show ?thesis
      using puts_only_preamble [OF assms(1)] False by (fastforce simp: puts_def round_reply_def)
  next
    case plain: False
    then have e: "wrap_error (enforce_error ''encode NAK (preliminary)'') (encode_string G w nak) = (w', None)"
      using assms(3) False by (auto simp: serve_round_def nak_def split: prod.splits)
    have "puts w w' None (pkt nak)"
      by (rule puts_wrap [OF puts_encode [OF assms(1)], of nak w "fst (encode_string G w nak)"
            "snd (encode_string G w nak)"]) (use e in \<open>simp_all add: nak_def del: encode_string.simps\<close>)
    then show ?thesis using False by (auto simp: puts_def round_reply_def)
  qed
qed

lemma serve_inner_whole:
  assumes "gogit_ok G" and "reads_only env"
    and "serve_inner G env (Some deny) req m w = (m', w', res, None)" and "clean_result res"
  shows "\<exists>out. wout w' = wout w @ out \<and> whole_reply G env deny req m out"
proof -
  obtain m1 where f: "refresh env m = (m1, Inr ())"
    using assms(3) by (auto simp: serve_inner_def split: prod.splits sum.splits)
  obtain m2 od where o: "on_demand_deny env (Some deny) (up_wants req) m1 = (m2, od)" by fastforce
  have od: "od = None" and run: "serve_round G env (Some deny) req m2 w = (m', w', res, None)"
    using assms(3,4) f o
    by (cases od; auto simp: serve_inner_def clean_result_def err_malformed_want_def err_deepen_since_def
        no_denial_def split: if_splits prod.splits)+
  show ?thesis
    using serve_round_whole [OF assms(1,2) run assms(4)] f o od unfolding whole_reply_def by blast
qed

text \<open>
  \<open>corrupt_attempt\<close>: the output of a run that ended with a corruption error, after which the
  wrapper repaired the mirror, refreshed it (to \<open>m'\<close>) and runs again.
\<close>

definition corrupt_attempt ::
  "gogit \<Rightarrow> 'r env \<Rightarrow> pattern list \<Rightarrow> up_request \<Rightarrow> 'r mirror \<Rightarrow> writer \<Rightarrow> string \<Rightarrow> 'r mirror \<Rightarrow> bool" where
  "corrupt_attempt G env deny req m w out m' \<longleftrightarrow>
     (\<exists>m1 m2 w1 res e. serve_inner G env (Some deny) req m w = (m1, w1, res, Some e) \<and>
        is_corruption_error e \<and> wout w1 = wout w @ out \<and>
        repair env m1 = (m2, Inr ()) \<and> refresh env m2 = (m', Inr ()))"

text \<open>
  \<open>answered\<close>: what a reader got from one run, or from two around a repair, the last of which
  answered the request completely.
\<close>

definition answered ::
  "gogit \<Rightarrow> 'r env \<Rightarrow> pattern list \<Rightarrow> up_request \<Rightarrow> 'r mirror \<Rightarrow> writer \<Rightarrow> string \<Rightarrow> bool" where
  "answered G env deny req m w out \<longleftrightarrow>
     whole_reply G env deny req m out \<or>
     (\<exists>out1 out2 m'. out = out1 @ out2 \<and> corrupt_attempt G env deny req m w out1 m' \<and>
        whole_reply G env deny req m' out2)"

lemma serve_enforced_whole:
  assumes "gogit_ok G" and "reads_only env"
    and "serve_enforced G env (Some deny) req m w = (m', w', res, None)" and "clean_result res"
  shows "\<exists>out. wout w' = wout w @ out \<and> answered G env deny req m w out"
proof (cases rule: serve_enforced_runs [OF assms(3)])
  case (1 m1)
  then show ?thesis using serve_inner_whole [OF assms(1,2) 1 assms(4)] unfolding answered_def by blast
next
  case (2 m1 w1 res1 e1 m2 m3)
  obtain out1 where o: "wout w1 = wout w @ out1" using serve_inner_reply [OF assms(1,2) 2(1)] by blast
  then have "corrupt_attempt G env deny req m w out1 m3" unfolding corrupt_attempt_def using 2(1-4) by blast
  moreover obtain out2 where "wout w' = wout w1 @ out2" "whole_reply G env deny req m3 out2"
    using serve_inner_whole [OF assms(1,2) 2(5) assms(4)] by blast
  ultimately show ?thesis using o unfolding answered_def by (intro exI [of _ "out1 @ out2"]) auto
qed

end
