(* ===== verification/FetchProxy.thy ===== *)
theory FetchProxy
  imports PushProxy FetchRuns
begin

text \<open>
  The proxy's fetch path (\<open>Proxy.UploadPack\<close> of \<open>internal/gitproto/proxy.go\<close>): the size cap
  on the request, the relay when read protection is off, and with read protection on the
  fail-closed branches, the assembled response and the audit of what was withheld. It works on
  the same \<open>world\<close> as the push path.
\<close>

section \<open>Upload-pack\<close>

definition audit_fetch ::
  "'r proxy \<Rightarrow> string option \<Rightarrow> string \<Rightarrow> string \<Rightarrow> string list \<Rightarrow> string list \<Rightarrow> string list \<Rightarrow>
   'r world \<Rightarrow> 'r world" where
  "audit_fetch px ctx repo verdict reasons paths oids =
     record_audit px ''git-upload-pack'' (agent_name ctx) repo verdict reasons [] paths oids False"

definition relay_upload_pack ::
  "'r proxy \<Rightarrow> string option \<Rightarrow> string \<Rightarrow> string \<Rightarrow> 'r world \<Rightarrow> 'r world \<times> go_error option" where
  "relay_upload_pack px ctx repo buf w0 =
     (let w = w0\<lparr>w_sent := w_sent w0 @ [(''git-upload-pack'', repo, buf)]\<rparr> in
      case px_upload px repo buf of
        Inl e \<Rightarrow> (w, Some (''gitproto: upload-pack: '' @ e))
      | Inr rc \<Rightarrow>
          on_client (forward_stream (g_omax (px_gogit px)) rc)
            (audit_fetch px ctx repo ''allow'' [] [] [] w))"

text \<open>The verdict of a served fetch, from its summary.\<close>

definition fetch_verdict :: "fetch_result \<Rightarrow> string \<times> string list" where
  "fetch_verdict res =
     (if fr_reason res \<noteq> [] then (''deny'', [fr_reason res])
      else if fr_oids res \<noteq> [] then (''deny'', [''on-demand blob denied by read policy''])
      else if fr_paths res \<noteq> [] then (''deny'', [''blob withheld by read policy''])
      else (''allow'', []))"

definition protected_upload_pack ::
  "'r proxy \<Rightarrow> pattern list \<Rightarrow> string option \<Rightarrow> string \<Rightarrow> string \<Rightarrow> 'r world \<Rightarrow>
   'r world \<times> go_error option" where
  "protected_upload_pack px deny ctx repo buf w =
     (case px_opener px of
        None \<Rightarrow>
          (audit_fetch px ctx repo ''deny'' [''read protection on but no mirror opener''] [] [] w,
           Some (enforce_error ''mirror unavailable''))
      | Some opener \<Rightarrow>
          (case parse_upload_pack_request (g_omax (px_gogit px)) (bytes_source buf) of
             Inl e \<Rightarrow>
               (audit_fetch px ctx repo ''deny'' [''unparseable upload-pack request''] [] [] w,
                Some (enforce_error (''parse request: '' @ e)))
           | Inr req \<Rightarrow>
               (case on_mirror (opener repo) w of
                  (w1, Some e) \<Rightarrow>
                    (audit_fetch px ctx repo ''deny'' [''inspection mirror unavailable''] [] [] w1,
                     Some (enforce_error (''mirror open: '' @ e)))
                | (w1, None) \<Rightarrow>
                    (case serve_enforced (px_gogit px) (px_env px) (Some deny) req
                            (w_mirror w1) (w_client w1) of
                       (m', c', res, err) \<Rightarrow>
                         (let w2 = w1\<lparr>w_mirror := m', w_client := c'\<rparr> in
                          case err of
                            Some e \<Rightarrow>
                              (audit_fetch px ctx repo ''deny'' [''upload-pack enforce failed''] [] [] w2,
                               Some (enforce_error e))
                          | None \<Rightarrow>
                              (let (verdict, reasons) = fetch_verdict res in
                               (audit_fetch px ctx repo verdict reasons (fr_paths res) (fr_oids res) w2,
                                None)))))))"

definition upload_pack ::
  "'r proxy \<Rightarrow> string option \<Rightarrow> string \<Rightarrow> source \<Rightarrow> 'r world \<Rightarrow> 'r world \<times> go_error option" where
  "upload_pack px ctx repo body w =
     (case read_limited (int max_request_bytes + 1) body of
        Inl e \<Rightarrow> (w, Some (''gitproto: read upload-pack request: '' @ e))
      | Inr buf \<Rightarrow>
          if length buf > max_request_bytes then
            (w, Some (''gitproto: upload-pack request exceeds '' @ show_nat max_request_bytes @ '' bytes''))
          else
            (case px_read_deny px of
               None \<Rightarrow> relay_upload_pack px ctx repo buf w
             | Some deny \<Rightarrow> protected_upload_pack px deny ctx repo buf w))"

section \<open>Runs\<close>

lemma audit_fetch_sel [simp]:
  "w_sent (audit_fetch px ctx repo v rs ps os w) = w_sent w"
  "w_client (audit_fetch px ctx repo v rs ps os w) = w_client w"
  "w_mirror (audit_fetch px ctx repo v rs ps os w) = w_mirror w"
  by (simp_all add: audit_fetch_def)

text \<open>
  A protected fetch either ends before the mirror serves it, with nothing written, or it is a
  run of \<open>serve_enforced\<close> on the agent's stream.
\<close>

lemma protected_cases:
  assumes "protected_upload_pack px deny ctx repo buf w = (w', e)"
  obtains (refused) v reason where "w' = audit_fetch px ctx repo ''deny'' [reason] [] [] v"
      "w_sent v = w_sent w" "w_client v = w_client w" "w_events v = w_events w"
      "w_alerts v = w_alerts w" "e \<noteq> None"
  | (served) req m1 m' c' res err v where
      "parse_upload_pack_request (g_omax (px_gogit px)) (bytes_source buf) = Inr req"
      "serve_enforced (px_gogit px) (px_env px) (Some deny) req m1 (w_client w) = (m', c', res, err)"
      "v = w\<lparr>w_mirror := m', w_client := c'\<rparr>" "e = None \<longleftrightarrow> err = None"
      "w' = (if err = None then audit_fetch px ctx repo (fst (fetch_verdict res)) (snd (fetch_verdict res))
               (fr_paths res) (fr_oids res) v
             else audit_fetch px ctx repo ''deny'' [''upload-pack enforce failed''] [] [] v)"
      "\<exists>opener. px_opener px = Some opener \<and> opener repo (w_mirror w) = (m1, None)"
proof (cases "px_opener px")
  case None
  then show ?thesis using assms refused [of _ w] by (auto simp: protected_upload_pack_def)
next
  case op: (Some opener)
  show ?thesis
  proof (cases "parse_upload_pack_request (g_omax (px_gogit px)) (bytes_source buf)")
    case (Inl x)
    then show ?thesis using assms op refused [of _ w] by (auto simp: protected_upload_pack_def)
  next
    case req: (Inr req)
    obtain m1 r1 where o1: "opener repo (w_mirror w) = (m1, r1)" by fastforce
    then have om: "on_mirror (opener repo) w = (w\<lparr>w_mirror := m1\<rparr>, r1)" by (simp add: on_mirror_def)
    show ?thesis
    proof (cases r1)
      case (Some x)
      then show ?thesis
        using assms op req om refused [of _ "w\<lparr>w_mirror := m1\<rparr>"] by (auto simp: protected_upload_pack_def)
    next
      case None
      obtain m' c' res err where s:
        "serve_enforced (px_gogit px) (px_env px) (Some deny) req m1 (w_client w) = (m', c', res, err)"
        by (metis prod_cases4)
      show ?thesis
        by (rule served [OF req s refl])
           (use assms op req om o1 s None in
             \<open>auto simp: protected_upload_pack_def Let_def split: prod.splits option.splits\<close>)
    qed
  qed
qed

end
