(* ===== verification/Upstream.thy ===== *)
theory Upstream
  imports Access FetchProxy
begin

text \<open>
  The upstream leg: the plain adapter (\<open>internal/upstream/plain/plain.go\<close>), which is
  \<open>port.Upstream\<close> over an HTTP client, and the wiring of a proxy over an upstream
  (\<open>gitproto.New\<close> and its setters). The HTTP client of Go's library is a parameter: whether a
  URL can be requested, and what the server answers to a request.
\<close>

section \<open>HTTP\<close>

text \<open>A request the program makes, and the answer it reads.\<close>

record http_out =
  ho_method :: string
  ho_url :: string
  ho_type :: string
  ho_basic :: "(string \<times> string) option"
  ho_body :: string

record http_in =
  hi_status :: nat
  hi_text :: string
  hi_headers :: "(string \<times> string list) list"
  hi_body :: source

record http_client =
  hc_url_error :: "string \<Rightarrow> go_error option" \<comment> \<open>\<open>http.NewRequestWithContext\<close>\<close>
  hc_do :: "http_out \<Rightarrow> go_error + http_in" \<comment> \<open>\<open>Client.Do\<close>\<close>

text \<open>\<open>http.Header\<close>: \<open>Set\<close>, \<open>Add\<close> and \<open>Get\<close> on canonical keys.\<close>

type_synonym header = "string \<rightharpoonup> string list"

definition header_set :: "header \<Rightarrow> string \<Rightarrow> string \<Rightarrow> header" where
  "header_set h k v = h(k \<mapsto> [v])"

definition header_add :: "header \<Rightarrow> string \<Rightarrow> string \<Rightarrow> header" where
  "header_add h k v = h(k \<mapsto> (case h k of None \<Rightarrow> [v] | Some vs \<Rightarrow> vs @ [v]))"

definition header_get :: "header \<Rightarrow> string \<Rightarrow> string" where
  "header_get h k = (case h k of Some (v # vs) \<Rightarrow> v | _ \<Rightarrow> [])"

section \<open>The plain adapter\<close>

text \<open>What an upstream offers: ref discovery and the two services.\<close>

record upstream =
  up_list :: "string \<Rightarrow> string \<Rightarrow> go_error + source"
  up_upload :: "string \<Rightarrow> string \<Rightarrow> go_error + source"
  up_receive :: "string \<Rightarrow> string \<Rightarrow> go_error + source"

record plain =
  pl_base :: string
  pl_client :: http_client
  pl_creds :: "(string \<Rightarrow> credentials option) option"

definition new_plain :: "http_client \<Rightarrow> string \<Rightarrow> (string \<Rightarrow> credentials option) option \<Rightarrow> plain" where
  "new_plain client base creds =
     \<lparr>pl_base = trim_right CHR ''/'' base, pl_client = client, pl_creds = creds\<rparr>"

definition plain_request :: "plain \<Rightarrow> string \<Rightarrow> string \<Rightarrow> string \<Rightarrow> string \<Rightarrow> string \<Rightarrow> http_out" where
  "plain_request u meth url ctype repo body =
     \<lparr>ho_method = meth, ho_url = url, ho_type = ctype,
      ho_basic = upstream_basic (pl_creds u) repo, ho_body = body\<rparr>"

text \<open>Both operations end alike: an error of the client, or a status other than 200.\<close>

definition plain_do :: "plain \<Rightarrow> string \<Rightarrow> http_out \<Rightarrow> go_error + source" where
  "plain_do u what rq =
     (case hc_do (pl_client u) rq of
        Inl e \<Rightarrow> Inl (''plain: '' @ what @ '': '' @ e)
      | Inr resp \<Rightarrow>
          if hi_status resp \<noteq> 200 then
            Inl (''plain: '' @ what @ '': upstream returned '' @ hi_text resp)
          else Inr (hi_body resp))"

definition plain_list_refs :: "plain \<Rightarrow> string \<Rightarrow> string \<Rightarrow> go_error + source" where
  "plain_list_refs u repo service =
     (let url = pl_base u @ ''/'' @ repo @ ''/info/refs?service='' @ service in
      case hc_url_error (pl_client u) url of
        Some e \<Rightarrow> Inl e
      | None \<Rightarrow> plain_do u ''list refs'' (plain_request u ''GET'' url [] repo []))"

definition plain_post ::
  "plain \<Rightarrow> string \<Rightarrow> string \<Rightarrow> string \<Rightarrow> source \<Rightarrow> go_error + source" where
  "plain_post u repo service ctype body =
     (case read_all body of
        Inl e \<Rightarrow> Inl (''plain: read '' @ service @ '' body: '' @ e)
      | Inr buf \<Rightarrow>
          (let url = pl_base u @ ''/'' @ repo @ ''/'' @ service in
           case hc_url_error (pl_client u) url of
             Some e \<Rightarrow> Inl e
           | None \<Rightarrow> plain_do u service (plain_request u ''POST'' url ctype repo buf)))"

definition plain_upload_pack :: "plain \<Rightarrow> string \<Rightarrow> string \<Rightarrow> go_error + source" where
  "plain_upload_pack u repo buf =
     plain_post u repo ''git-upload-pack'' ''application/x-git-upload-pack-request'' (bytes_source buf)"

definition plain_receive_pack :: "plain \<Rightarrow> string \<Rightarrow> string \<Rightarrow> go_error + source" where
  "plain_receive_pack u repo buf =
     plain_post u repo ''git-receive-pack'' ''application/x-git-receive-pack-request'' (bytes_source buf)"

definition plain_upstream :: "plain \<Rightarrow> upstream" where
  "plain_upstream u =
     \<lparr>up_list = plain_list_refs u, up_upload = plain_upload_pack u, up_receive = plain_receive_pack u\<rparr>"

section \<open>Wiring a proxy\<close>

definition new_proxy :: "'r env \<Rightarrow> gogit \<Rightarrow> upstream \<Rightarrow> 'r proxy" where
  "new_proxy env G up =
     \<lparr>px_env = env, px_gogit = G, px_engine = None, px_opener = None, px_max = 0,
      px_read_deny = None, px_audit = None, px_alert = None, px_transport = [], px_dry_run = False,
      px_receive = up_receive up, px_upload = up_upload up\<rparr>"

definition set_enforcement ::
  "engine option \<Rightarrow> (string \<Rightarrow> 'r mirror \<Rightarrow> 'r mirror \<times> go_error option) option \<Rightarrow> int \<Rightarrow>
   'r proxy \<Rightarrow> 'r proxy" where
  "set_enforcement eng opener max_bytes px =
     px\<lparr>px_engine := eng, px_opener := opener, px_max := max_bytes\<rparr>"

definition set_read_deny :: "pattern list option \<Rightarrow> 'r proxy \<Rightarrow> 'r proxy" where
  "set_read_deny deny px = px\<lparr>px_read_deny := deny\<rparr>"

definition set_audit_sink :: "(audit_event \<Rightarrow> go_error option) option \<Rightarrow> 'r proxy \<Rightarrow> 'r proxy" where
  "set_audit_sink sink px = px\<lparr>px_audit := sink\<rparr>"

definition set_transport :: "string \<Rightarrow> 'r proxy \<Rightarrow> 'r proxy" where
  "set_transport tag px = px\<lparr>px_transport := tag\<rparr>"

definition set_dry_run :: "bool \<Rightarrow> 'r proxy \<Rightarrow> 'r proxy" where
  "set_dry_run on px = px\<lparr>px_dry_run := on\<rparr>"

definition set_alert_sink :: "(alert \<Rightarrow> go_error option) option \<Rightarrow> 'r proxy \<Rightarrow> 'r proxy" where
  "set_alert_sink sink px = px\<lparr>px_alert := sink\<rparr>"

definition read_deny_on :: "'r proxy \<Rightarrow> bool" where
  "read_deny_on px \<longleftrightarrow> px_read_deny px \<noteq> None"

section \<open>What reaches the upstream\<close>

text \<open>The bytes of a request go into its body unchanged, with the vault's credential for the repository.\<close>

lemma plain_post_request:
  "plain_post u repo service ctype (bytes_source buf) = Inr rc \<Longrightarrow>
   \<exists>resp. hc_do (pl_client u)
       \<lparr>ho_method = ''POST'', ho_url = pl_base u @ ''/'' @ repo @ ''/'' @ service, ho_type = ctype,
        ho_basic = upstream_basic (pl_creds u) repo, ho_body = buf\<rparr> = Inr resp \<and>
     hi_status resp = 200 \<and> rc = hi_body resp"
  by (auto simp: plain_post_def read_all_def bytes_source_def plain_do_def plain_request_def Let_def
           split: option.splits sum.splits if_splits)

end
