(* ===== verification/HttpFront.thy ===== *)
theory HttpFront
  imports Upstream
begin

text \<open>
  The smart-HTTP frontend (\<open>internal/transport/http/frontend.go\<close>): authentication, routing,
  the access decision, ref discovery (relayed, or re-emitted as v0 under read protection) and
  the two services, which are handed to the proxy of the earlier theories. A run of the handler
  works on the record \<open>exchange\<close>: the proxy's world (its client stream is the response body),
  the status and headers of the response, and the ghost list of requests sent for ref
  discovery. A status is committed when the handler writes the header or the first bytes of the
  body; the server answers 200 when a handler ends without having done so.

  gzip decoding (Go's library) is a parameter, like the HTTP client.
\<close>

section \<open>Requests and responses\<close>

record http_request =
  hq_path :: string
  hq_raw_query :: string
  hq_authorization :: string
  hq_encoding :: string
  hq_body :: source

record 'r exchange =
  hx_world :: "'r world"
  hx_status :: "nat option"
  hx_header :: header
  hx_gets :: "http_out list"

definition write_header :: "nat \<Rightarrow> 'r exchange \<Rightarrow> 'r exchange" where
  "write_header code x = (if hx_status x = None then x\<lparr>hx_status := Some code\<rparr> else x)"

definition add_header :: "string \<Rightarrow> string \<Rightarrow> 'r exchange \<Rightarrow> 'r exchange" where
  "add_header k v x = x\<lparr>hx_header := header_set (hx_header x) k v\<rparr>"

text \<open>A step of the proxy on the response body: bytes commit the status 200.\<close>

definition on_world :: "('r world \<Rightarrow> 'r world \<times> 'b) \<Rightarrow> 'r exchange \<Rightarrow> 'r exchange \<times> bool \<times> 'b" where
  "on_world f x =
     (let (w', r) = f (hx_world x);
          wrote = length (wout (w_client w')) > length (wout (w_client (hx_world x)));
          x' = x\<lparr>hx_world := w'\<rparr> in
      (if wrote then write_header 200 x' else x', wrote, r))"

definition write_body :: "string \<Rightarrow> 'r exchange \<Rightarrow> 'r exchange" where
  "write_body b x = fst (on_world (on_client (\<lambda>c. wwrite c b)) (write_header 200 x))"

text \<open>\<open>http.Error\<close>.\<close>

definition http_error :: "string \<Rightarrow> nat \<Rightarrow> 'r exchange \<Rightarrow> 'r exchange" where
  "http_error msg code x =
     write_body (msg @ [NL])
       (write_header code
         (x\<lparr>hx_header := (hx_header x)(''Content-Length'' := None,
              ''Content-Type'' := Some [''text/plain; charset=utf-8''],
              ''X-Content-Type-Options'' := Some [''nosniff''])\<rparr>))"

definition not_found :: "'r exchange \<Rightarrow> 'r exchange" where
  "not_found = http_error ''404 page not found'' 404"

section \<open>Query strings\<close>

text \<open>\<open>url.QueryUnescape\<close>: \<open>None\<close> is a malformed escape.\<close>

fun query_unescape :: "string \<Rightarrow> string option" where
  "query_unescape [] = Some []"
| "query_unescape (c # cs) =
     (if c = CHR ''%'' then
        (case cs of
           a # b # rest \<Rightarrow>
             (case (hex_digit a, hex_digit b) of
                (Some x, Some y) \<Rightarrow> map_option ((#) (char_of (16 * x + y))) (query_unescape rest)
              | _ \<Rightarrow> None)
         | _ \<Rightarrow> None)
      else map_option ((#) (if c = CHR ''+'' then SP else c)) (query_unescape cs))"

definition query_pair :: "string \<Rightarrow> (string \<times> string) option" where
  "query_pair part =
     (if CHR '';'' \<in> set part \<or> part = [] then None
      else
        (let (k, v) = (case index_byte part CHR ''='' of
                         None \<Rightarrow> (part, []) | Some i \<Rightarrow> (take i part, drop (Suc i) part)) in
         case (query_unescape k, query_unescape v) of
           (Some k', Some v') \<Rightarrow> Some (k', v')
         | _ \<Rightarrow> None))"

text \<open>\<open>URL.Query().Get\<close>: the first value of a key; malformed pairs are dropped.\<close>

definition query_get :: "string \<Rightarrow> string \<Rightarrow> string" where
  "query_get raw key =
     (case find (\<lambda>(k, v). k = key) (List.map_filter query_pair (split_on CHR ''&'' raw)) of
        None \<Rightarrow> [] | Some (k, v) \<Rightarrow> v)"

section \<open>The frontend\<close>

record 'r http_front =
  hf_url :: string
  hf_proxy :: "'r proxy"
  hf_repos :: "string \<rightharpoonup> string"
  hf_client :: http_client
  hf_gunzip :: "source \<Rightarrow> go_error + source"
  hf_auth :: "(string \<Rightarrow> go_error + string) option"
  hf_creds :: "(string \<Rightarrow> credentials option) option"
  hf_public :: "(string \<Rightarrow> bool) option"
  hf_read_deny :: "pattern list option"

definition new_http_front ::
  "'r env \<Rightarrow> gogit \<Rightarrow> http_client \<Rightarrow> (source \<Rightarrow> go_error + source) \<Rightarrow> upstream \<Rightarrow> string \<Rightarrow>
   (string \<rightharpoonup> string) \<Rightarrow> (string \<Rightarrow> go_error + string) option \<Rightarrow>
   (string \<Rightarrow> credentials option) option \<Rightarrow> (string \<Rightarrow> bool) option \<Rightarrow> 'r http_front" where
  "new_http_front env G client gunzip up url repos auth creds public =
     \<lparr>hf_url = trim_right CHR ''/'' url, hf_proxy = new_proxy env G up, hf_repos = repos,
      hf_client = client, hf_gunzip = gunzip, hf_auth = auth, hf_creds = creds, hf_public = public,
      hf_read_deny = None\<rparr>"

definition hf_set_enforcement ::
  "engine option \<Rightarrow> (string \<Rightarrow> 'r mirror \<Rightarrow> 'r mirror \<times> go_error option) option \<Rightarrow> int \<Rightarrow>
   'r http_front \<Rightarrow> 'r http_front" where
  "hf_set_enforcement eng opener max_bytes f =
     f\<lparr>hf_proxy := set_enforcement eng opener max_bytes (hf_proxy f)\<rparr>"

definition hf_set_read_deny :: "pattern list option \<Rightarrow> 'r http_front \<Rightarrow> 'r http_front" where
  "hf_set_read_deny deny f =
     f\<lparr>hf_read_deny := deny, hf_proxy := set_read_deny deny (hf_proxy f)\<rparr>"

definition hf_set_audit_sink ::
  "(audit_event \<Rightarrow> go_error option) option \<Rightarrow> string \<Rightarrow> 'r http_front \<Rightarrow> 'r http_front" where
  "hf_set_audit_sink sink tag f =
     f\<lparr>hf_proxy := set_transport tag (set_audit_sink sink (hf_proxy f))\<rparr>"

definition hf_set_dry_run :: "bool \<Rightarrow> 'r http_front \<Rightarrow> 'r http_front" where
  "hf_set_dry_run on f = f\<lparr>hf_proxy := set_dry_run on (hf_proxy f)\<rparr>"

definition hf_set_alert_sink ::
  "(alert \<Rightarrow> go_error option) option \<Rightarrow> 'r http_front \<Rightarrow> 'r http_front" where
  "hf_set_alert_sink sink f = f\<lparr>hf_proxy := set_alert_sink sink (hf_proxy f)\<rparr>"

text \<open>The repository and the endpoint of a path: the endpoint is a suffix.\<close>

definition endpoints :: "string list" where
  "endpoints = [''/info/refs'', ''/git-upload-pack'', ''/git-receive-pack'']"

definition parse_path :: "string \<Rightarrow> (string \<times> string) option" where
  "parse_path path =
     map_option (\<lambda>ep. (trim_prefix (take (length path - length ep) path) ''/'', ep))
       (find (has_suffix path) endpoints)"

definition repo_path :: "(string \<rightharpoonup> string) \<Rightarrow> string \<Rightarrow> string" where
  "repo_path repos repo =
     (case repos repo of Some p \<Rightarrow> if p \<noteq> [] then p else repo | None \<Rightarrow> repo)"

definition http_authenticate :: "(string \<Rightarrow> go_error + string) \<Rightarrow> http_request \<Rightarrow> go_error + string" where
  "http_authenticate auth r =
     (let h = hq_authorization r in
      if h = [] then Inl ''missing Authorization header''
      else if \<not> has_prefix h ''Bearer '' then Inl ''authorization scheme is not Bearer''
      else auth (trim_space (drop (length ''Bearer '') h)))"

definition deny_body :: string where
  "deny_body = ''{'' @ [CHR 0x22] @ ''error'' @ [CHR 0x22] @ '':'' @ [CHR 0x22] @
     ''repository not served by this proxy'' @ [CHR 0x22] @ ''}''"

definition deny_repo :: "'r exchange \<Rightarrow> 'r exchange" where
  "deny_repo = http_error deny_body 403"

section \<open>Ref discovery\<close>

definition get_request :: "'r http_front \<Rightarrow> string \<Rightarrow> string \<Rightarrow> http_out" where
  "get_request f url repo =
     \<lparr>ho_method = ''GET'', ho_url = url, ho_type = [], ho_basic = upstream_basic (hf_creds f) repo,
      ho_body = []\<rparr>"

definition send_get :: "'r http_front \<Rightarrow> http_out \<Rightarrow> 'r exchange \<Rightarrow> 'r exchange \<times> (go_error + http_in)" where
  "send_get f rq x = (x\<lparr>hx_gets := hx_gets x @ [rq]\<rparr>, hc_do (hf_client f) rq)"

definition copy_headers :: "(string \<times> string list) list \<Rightarrow> header \<Rightarrow> header" where
  "copy_headers src dst = fold (\<lambda>(k, vs) h. fold (\<lambda>v h. header_add h k v) vs h) src dst"

text \<open>\<open>io.Copy\<close> of a body: an error of the reader or of the writer is logged.\<close>

definition copy_body :: "source \<Rightarrow> 'r exchange \<Rightarrow> 'r exchange" where
  "copy_body body x = (if src_bytes body = [] then x else write_body (src_bytes body) x)"

definition read_caps :: "string list" where
  "read_caps = [''filter'', ''allow-reachable-sha1-in-want'']"

definition info_refs_protected :: "'r http_front \<Rightarrow> string \<Rightarrow> 'r exchange \<Rightarrow> 'r exchange" where
  "info_refs_protected f repo x =
     (if decide (hf_creds f) (hf_public f) repo False = DecisionDeny then deny_repo x
      else
        (let url = hf_url f @ ''/'' @ repo @ ''/info/refs?service=git-upload-pack''; G = px_gogit (hf_proxy f) in
         case hc_url_error (hf_client f) url of
           Some e \<Rightarrow> http_error e 500 x
         | None \<Rightarrow>
             (case send_get f (get_request f url repo) x of
                (x1, Inl e) \<Rightarrow> http_error ''upstream unavailable'' 502 x1
              | (x1, Inr resp) \<Rightarrow>
                  if hi_status resp \<noteq> 200 then http_error ''upstream unavailable'' 502 x1
                  else
                    (case parse_ref_advertisement (g_omax G) (hi_body resp) of
                       Inl e \<Rightarrow> http_error ''advertisement parse failed'' 502 x1
                     | Inr adv \<Rightarrow>
                         (case emit_ref_advertisement_v0 G fresh_writer adv read_caps of
                            (buf, Some e) \<Rightarrow> http_error ''advertisement emit failed'' 502 x1
                          | (buf, None) \<Rightarrow>
                              write_body (wout buf)
                                (write_header 200
                                  (add_header ''Content-Type''
                                     ''application/x-git-upload-pack-advertisement'' x1)))))))"

definition info_refs :: "'r http_front \<Rightarrow> string \<Rightarrow> http_request \<Rightarrow> 'r exchange \<Rightarrow> 'r exchange" where
  "info_refs f repo r x =
     (let service = query_get (hq_raw_query r) ''service'' in
      if decide (hf_creds f) (hf_public f) repo (service = ''git-receive-pack'') = DecisionDeny then
        deny_repo x
      else if hf_read_deny f \<noteq> None \<and> service = ''git-upload-pack'' then info_refs_protected f repo x
      else
        (let url = hf_url f @ ''/'' @ repo @ ''/info/refs'' @
               (if hq_raw_query r \<noteq> [] then ''?'' @ hq_raw_query r else []) in
         case hc_url_error (hf_client f) url of
           Some e \<Rightarrow> http_error e 500 x
         | None \<Rightarrow>
             (case send_get f (get_request f url repo) x of
                (x1, Inl e) \<Rightarrow> http_error e 502 x1
              | (x1, Inr resp) \<Rightarrow>
                  copy_body (hi_body resp)
                    (write_header (hi_status resp)
                      (x1\<lparr>hx_header := copy_headers (hi_headers resp) (hx_header x1)\<rparr>)))))"

section \<open>Services\<close>

text \<open>\<open>strings.EqualFold\<close> with an ASCII word: none of its letters has another fold but its case.\<close>

definition equal_fold :: "string \<Rightarrow> string \<Rightarrow> bool" where
  "equal_fold a b \<longleftrightarrow> to_upper a = to_upper b"

definition request_body :: "'r http_front \<Rightarrow> http_request \<Rightarrow> go_error + source" where
  "request_body f r =
     (if \<not> equal_fold (hq_encoding r) ''gzip'' then Inr (hq_body r)
      else (case hf_gunzip f (hq_body r) of
              Inl e \<Rightarrow> Inl (''gzip decode: '' @ e) | Inr body \<Rightarrow> Inr body))"

definition handle_service ::
  "'r http_front \<Rightarrow> string option \<Rightarrow> string \<Rightarrow> string \<Rightarrow> string \<Rightarrow> http_request \<Rightarrow>
   'r exchange \<Rightarrow> 'r exchange" where
  "handle_service f ctx repo service ctype r x =
     (if decide (hf_creds f) (hf_public f) repo (service = ''git-receive-pack'') = DecisionDeny then
        deny_repo x
      else
        (case request_body f r of
           Inl e \<Rightarrow> http_error e 400 x
         | Inr body \<Rightarrow>
             (case on_world
                     (if service = ''git-upload-pack'' then upload_pack (hf_proxy f) ctx repo body
                      else if service = ''git-receive-pack'' then receive_pack (hf_proxy f) ctx repo body
                      else (\<lambda>w. (w, None)))
                     (add_header ''Content-Type'' ctype x) of
                (x1, wrote, None) \<Rightarrow> x1
              | (x1, wrote, Some e) \<Rightarrow> if wrote then x1 else http_error e 502 x1)))"

section \<open>The handler\<close>

definition route ::
  "'r http_front \<Rightarrow> string option \<Rightarrow> http_request \<Rightarrow> 'r exchange \<Rightarrow> 'r exchange" where
  "route f ctx r x =
     (case parse_path (hq_path r) of
        None \<Rightarrow> not_found x
      | Some (repo, endpoint) \<Rightarrow>
          (let mapped = repo_path (hf_repos f) repo in
           if endpoint = ''/info/refs'' then info_refs f mapped r x
           else if endpoint = ''/git-upload-pack'' then
             handle_service f ctx mapped ''git-upload-pack'' ''application/x-git-upload-pack-result'' r x
           else if endpoint = ''/git-receive-pack'' then
             handle_service f ctx mapped ''git-receive-pack'' ''application/x-git-receive-pack-result'' r x
           else not_found x))"

definition handle :: "'r http_front \<Rightarrow> http_request \<Rightarrow> 'r exchange \<Rightarrow> 'r exchange" where
  "handle f r x =
     (case hf_auth f of
        None \<Rightarrow> route f None r x
      | Some auth \<Rightarrow>
          (case http_authenticate auth r of
             Inl e \<Rightarrow> http_error ''unauthorized'' 401 (add_header ''Www-Authenticate'' ''Bearer'' x)
           | Inr agent \<Rightarrow> route f (Some agent) r x))"

end
