(* ===== verification/SshFront.thy ===== *)
theory SshFront
  imports HttpFront "HOL-Library.Word"
begin

text \<open>
  The SSH frontend (\<open>internal/transport/ssh/frontend.go\<close>, \<open>hostkey.go\<close>): key authentication, the
  dispatch of a session's requests, the parsing of the exec payload and of the git command, the
  access decision, the raw v0 advertisement and the hand-over to the proxy. A session is the
  record \<open>session\<close>: the proxy's world (its client stream is the channel's standard output), the
  standard error stream, the exit statuses sent, the replies to requests and the ghost list of
  ref discoveries. The SSH transport itself (handshake, channels, keys) is golang.org/x/crypto/
  ssh: fingerprints and host keys are parameters.
\<close>

section \<open>The exec payload\<close>

text \<open>\<open>binary.BigEndian.Uint32\<close>.\<close>

definition be32 :: "string \<Rightarrow> 32 word" where
  "be32 p = fold (\<lambda>c n. 256 * n + of_nat (of_char c)) (take 4 p) 0"

text \<open>
  \<open>parseSSHString\<close>: the bound of the slice is computed in 32 bits, so a length near the top wraps
  round; \<open>None\<close> is the panic of a slice whose end is before its start.
\<close>

definition parse_ssh_string :: "string \<Rightarrow> (string \<times> bool) option" where
  "parse_ssh_string payload =
     (if length payload < 4 then Some ([], False)
      else
        (let n = be32 payload in
         if unat n > length payload - 4 then Some ([], False)
         else
           (let end = unat (4 + n) in
            if end < 4 then None else Some (take (end - 4) (drop 4 payload), True))))"

definition unquote_repo :: "string \<Rightarrow> string" where
  "unquote_repo arg =
     (if length arg \<ge> 2 \<and>
         ((hd arg = CHR 0x27 \<and> last arg = CHR 0x27) \<or> (hd arg = CHR 0x22 \<and> last arg = CHR 0x22))
      then take (length arg - 2) (drop 1 arg) else arg)"

text \<open>The loop over the two services: \<open>None\<close> is an unrecognized or incomplete command.\<close>

fun exec_loop :: "string list \<Rightarrow> string \<Rightarrow> (string \<times> string) option" where
  "exec_loop [] cmd = None"
| "exec_loop (svc # svcs) cmd =
     (if cmd = svc then None
      else if has_prefix cmd (svc @ [SP]) then
        (let repo = unquote_repo (trim_space (trim_prefix cmd (svc @ [SP]))) in
         if repo = [] then None
         else (let repo' = trim_prefix repo ''/'' in if repo' = [] then None else Some (svc, repo')))
      else exec_loop svcs cmd)"

definition parse_exec_command :: "string \<Rightarrow> (string \<times> string) option" where
  "parse_exec_command cmd = exec_loop [''git-upload-pack'', ''git-receive-pack''] (trim_space cmd)"

section \<open>The frontend\<close>

record 'r ssh_front =
  sf_up :: upstream
  sf_proxy :: "'r proxy"
  sf_repos :: "string \<rightharpoonup> string"
  sf_auth :: "string \<Rightarrow> go_error + string"
  sf_creds :: "(string \<Rightarrow> credentials option) option"
  sf_public :: "(string \<Rightarrow> bool) option"

definition load_host_key ::
  "(string \<Rightarrow> go_error + string) \<Rightarrow> (string \<Rightarrow> go_error + 'k) \<Rightarrow> string \<Rightarrow> go_error + 'k" where
  "load_host_key read parse path =
     (if path = [] then Inl ''sshfront: empty host key path''
      else (case read path of
              Inl e \<Rightarrow> Inl (''sshfront: read host key '' @ path @ '': '' @ e)
            | Inr b \<Rightarrow>
                (case parse b of
                   Inl e \<Rightarrow> Inl (''sshfront: parse host key '' @ path @ '': '' @ e)
                 | Inr signer \<Rightarrow> Inr signer)))"

definition ephemeral_host_key :: "(go_error + 'p) \<Rightarrow> ('p \<Rightarrow> go_error + 'k) \<Rightarrow> go_error + 'k" where
  "ephemeral_host_key generated signer_of =
     (case generated of
        Inl e \<Rightarrow> Inl (''sshfront: generate ephemeral host key: '' @ e)
      | Inr priv \<Rightarrow>
          (case signer_of priv of
             Inl e \<Rightarrow> Inl (''sshfront: ephemeral host key signer: '' @ e)
           | Inr signer \<Rightarrow> Inr signer))"

definition new_ssh_front ::
  "'r env \<Rightarrow> gogit \<Rightarrow> upstream \<Rightarrow> (string \<rightharpoonup> string) \<Rightarrow> (string \<Rightarrow> go_error + string) option \<Rightarrow>
   (string \<Rightarrow> go_error + 'k) \<Rightarrow> (go_error + 'k) \<Rightarrow> string \<Rightarrow>
   (string \<Rightarrow> credentials option) option \<Rightarrow> (string \<Rightarrow> bool) option \<Rightarrow>
   go_error + ('k \<times> 'r ssh_front)" where
  "new_ssh_front env G up repos authn from_file ephemeral path creds public =
     (case (if path \<noteq> [] then from_file path else ephemeral) of
        Inl e \<Rightarrow> Inl (''sshfront: host key: '' @ e)
      | Inr signer \<Rightarrow>
          (case authn of
             None \<Rightarrow> Inl ''sshfront: authenticator is required (fail closed: no key auth = no access)''
           | Some a \<Rightarrow>
               Inr (signer, \<lparr>sf_up = up, sf_proxy = new_proxy env G up, sf_repos = repos,
                             sf_auth = a, sf_creds = creds, sf_public = public\<rparr>)))"

definition sf_set_enforcement ::
  "engine option \<Rightarrow> (string \<Rightarrow> 'r mirror \<Rightarrow> 'r mirror \<times> go_error option) option \<Rightarrow> int \<Rightarrow>
   'r ssh_front \<Rightarrow> 'r ssh_front" where
  "sf_set_enforcement eng opener max_bytes f =
     f\<lparr>sf_proxy := set_enforcement eng opener max_bytes (sf_proxy f)\<rparr>"

definition sf_set_read_deny :: "pattern list option \<Rightarrow> 'r ssh_front \<Rightarrow> 'r ssh_front" where
  "sf_set_read_deny deny f = f\<lparr>sf_proxy := set_read_deny deny (sf_proxy f)\<rparr>"

definition sf_set_audit_sink ::
  "(audit_event \<Rightarrow> go_error option) option \<Rightarrow> string \<Rightarrow> 'r ssh_front \<Rightarrow> 'r ssh_front" where
  "sf_set_audit_sink sink tag f =
     f\<lparr>sf_proxy := set_transport tag (set_audit_sink sink (sf_proxy f))\<rparr>"

definition sf_set_dry_run :: "bool \<Rightarrow> 'r ssh_front \<Rightarrow> 'r ssh_front" where
  "sf_set_dry_run on f = f\<lparr>sf_proxy := set_dry_run on (sf_proxy f)\<rparr>"

definition sf_set_alert_sink ::
  "(alert \<Rightarrow> go_error option) option \<Rightarrow> 'r ssh_front \<Rightarrow> 'r ssh_front" where
  "sf_set_alert_sink sink f = f\<lparr>sf_proxy := set_alert_sink sink (sf_proxy f)\<rparr>"

text \<open>
  \<open>publicKeyCallback\<close>: the extensions of the connection's permissions, or the refusal of the
  handshake. \<open>fp\<close> is \<open>ssh.FingerprintSHA256\<close>.
\<close>

definition public_key_callback ::
  "('k \<Rightarrow> string) \<Rightarrow> 'r ssh_front \<Rightarrow> 'k \<Rightarrow> go_error + (string \<rightharpoonup> string)" where
  "public_key_callback fp f key =
     (case sf_auth f (fp key) of
        Inl e \<Rightarrow> Inl ''sshfront: unknown public key''
      | Inr name \<Rightarrow> Inr [''agent'' \<mapsto> name])"

section \<open>Sessions\<close>

record 'r session =
  ss_world :: "'r world"
  ss_stderr :: string
  ss_exit :: "nat list"
  ss_replies :: "bool list"
  ss_lists :: "(string \<times> string) list"

record ssh_request =
  sr_type :: string
  sr_payload :: string

definition reply :: "bool \<Rightarrow> 'r session \<Rightarrow> 'r session" where
  "reply ok s = s\<lparr>ss_replies := ss_replies s @ [ok]\<rparr>"

definition send_exit_status :: "nat \<Rightarrow> 'r session \<Rightarrow> 'r session" where
  "send_exit_status n s = s\<lparr>ss_exit := ss_exit s @ [n]\<rparr>"

definition to_stderr :: "string \<Rightarrow> 'r session \<Rightarrow> 'r session" where
  "to_stderr msg s = s\<lparr>ss_stderr := ss_stderr s @ msg\<rparr>"

definition on_session :: "('r world \<Rightarrow> 'r world \<times> 'b) \<Rightarrow> 'r session \<Rightarrow> 'r session \<times> 'b" where
  "on_session g s = (let (w', r) = g (ss_world s) in (s\<lparr>ss_world := w'\<rparr>, r))"

definition deny_reason_ssh :: string where
  "deny_reason_ssh = ''repository not served by this proxy''"

definition write_session_error :: "gogit \<Rightarrow> string \<Rightarrow> string \<Rightarrow> 'r session \<Rightarrow> 'r session" where
  "write_session_error G service reason s =
     (if service = ''git-upload-pack'' then
        fst (on_session (on_client (\<lambda>c. write_upload_pack_err G c reason)) s)
      else if service = ''git-receive-pack'' then to_stderr (''fatal: '' @ reason @ [NL]) s
      else s)"

definition fail_session :: "string \<Rightarrow> 'r session \<Rightarrow> 'r session" where
  "fail_session reason s = send_exit_status 1 (to_stderr (''fatal: '' @ reason @ [NL]) s)"

definition write_advertisement ::
  "'r ssh_front \<Rightarrow> string \<Rightarrow> string \<Rightarrow> 'r session \<Rightarrow> 'r session \<times> go_error option" where
  "write_advertisement f service repo s0 =
     (let s = s0\<lparr>ss_lists := ss_lists s0 @ [(repo, service)]\<rparr>; G = px_gogit (sf_proxy f) in
      case up_list (sf_up f) repo service of
        Inl e \<Rightarrow> (s, Some (''sshfront: fetch advertisement: '' @ e))
      | Inr body \<Rightarrow>
          (case parse_ref_advertisement (g_omax G) body of
             Inl e \<Rightarrow> (s, Some (''sshfront: parse advertisement: '' @ e))
           | Inr adv \<Rightarrow>
               (let extra = (if service = ''git-upload-pack'' \<and> read_deny_on (sf_proxy f) then read_caps else []) in
                case emit_ref_advertisement_raw G fresh_writer adv extra of
                  (buf, Some e) \<Rightarrow> (s, Some (''sshfront: emit advertisement: '' @ e))
                | (buf, None) \<Rightarrow>
                    on_session (on_client (\<lambda>c. wrap_error ''sshfront: write advertisement'' (wwrite c (wout buf)))) s)))"

definition session_failed :: "gogit \<Rightarrow> string \<Rightarrow> 'r session \<Rightarrow> 'r session" where
  "session_failed G service s = send_exit_status 1 (write_session_error G service ''proxy error'' s)"

definition run_git_session ::
  "'r ssh_front \<Rightarrow> string option \<Rightarrow> string \<Rightarrow> string \<Rightarrow> source \<Rightarrow> 'r session \<Rightarrow>
   'r session \<times> go_error option" where
  "run_git_session f ctx service repo stdin s =
     (let G = px_gogit (sf_proxy f) in
      case write_advertisement f service repo s of
        (s1, Some e) \<Rightarrow> (session_failed G service s1, Some e)
      | (s1, None) \<Rightarrow>
          (case (if service = ''git-upload-pack'' then
                   (case read_upload_pack_request (g_omax G) stdin of
                      Inl e \<Rightarrow> (s1, Some e)
                    | Inr body \<Rightarrow> on_session (upload_pack (sf_proxy f) ctx repo (bytes_source body)) s1)
                 else if service = ''git-receive-pack'' then
                   on_session (receive_pack (sf_proxy f) ctx repo stdin) s1
                 else (s1, None)) of
             (s2, Some e) \<Rightarrow> (session_failed G service s2, Some e)
           | (s2, None) \<Rightarrow> (send_exit_status 0 s2, None)))"

text \<open>\<open>handleExec\<close>; \<open>None\<close> is the panic of the payload parser. \<open>perms\<close> are the connection's extensions.\<close>

definition handle_exec ::
  "'r ssh_front \<Rightarrow> (string \<rightharpoonup> string) option \<Rightarrow> ssh_request \<Rightarrow> source \<Rightarrow> 'r session \<Rightarrow> 'r session option" where
  "handle_exec f perms req stdin s0 =
     (let s = reply True s0 in
      case parse_ssh_string (sr_payload req) of
        None \<Rightarrow> None
      | Some (cmd, parsed) \<Rightarrow>
          if \<not> parsed \<or> cmd = [] then
            Some (fail_session ''sshfront: empty or malformed exec command'' s)
          else
            (case parse_exec_command cmd of
               None \<Rightarrow> Some (fail_session (''sshfront: refusing unknown command: '' @ go_quote cmd) s)
             | Some (service, repo) \<Rightarrow>
                 (let mapped = repo_path (sf_repos f) repo in
                  if decide (sf_creds f) (sf_public f) mapped (service = ''git-receive-pack'') = DecisionDeny then
                    Some (send_exit_status 1
                            (write_session_error (px_gogit (sf_proxy f)) service deny_reason_ssh s))
                  else
                    (let agent = (case perms of None \<Rightarrow> [] | Some e \<Rightarrow> (case e ''agent'' of None \<Rightarrow> [] | Some a \<Rightarrow> a)) in
                     Some (fst (run_git_session f (Some agent) service mapped stdin s))))))"

text \<open>\<open>handleSession\<close>: requests before the exec request are refused, those after it are not read.\<close>

fun handle_session ::
  "'r ssh_front \<Rightarrow> (string \<rightharpoonup> string) option \<Rightarrow> source \<Rightarrow> ssh_request list \<Rightarrow> 'r session \<Rightarrow> 'r session option" where
  "handle_session f perms stdin [] s = Some s"
| "handle_session f perms stdin (req # reqs) s =
     (if sr_type req = ''exec'' then handle_exec f perms req stdin s
      else handle_session f perms stdin reqs (reply False s))"

section \<open>The payload parser\<close>

definition put32 :: "nat \<Rightarrow> string" where
  "put32 n = map (\<lambda>k. char_of (n div 256 ^ k mod 256)) [3, 2, 1, 0]"

lemma be32_put32: "n < 2 ^ 32 \<Longrightarrow> be32 (put32 n @ p) = of_nat n"
proof -
  assume n: "n < 2 ^ 32"
  let ?d = "\<lambda>k::nat. n div 256 ^ k mod 256"
  have "be32 (put32 n @ p) = of_nat (256 * (256 * (256 * ?d 3 + ?d 2) + ?d 1) + ?d 0)"
    by (simp add: be32_def put32_def)
  also have "256 * (256 * (256 * ?d 3 + ?d 2) + ?d 1) + ?d 0 = n"
  proof -
    have digits: "256 * (256 * (256 * c + r2) + r1) + r0 = n"
      if "n = 256 * a + r0" "a = 256 * b + r1" "b = 256 * c + r2" for a b c r0 r1 r2
      using that by simp
    have "n div 65536 = 256 * (n div 16777216) + n div 65536 mod 256"
        "n div 256 = 256 * (n div 65536) + n div 256 mod 256"
      using div_mult_mod_eq [of "n div 65536" 256] div_mult_mod_eq [of "n div 256" 256]
      by (simp_all add: div_mult2_eq [symmetric])
    from digits [OF _ this(2,1), of "n mod 256"] show ?thesis using n by simp
  qed
  finally show ?thesis .
qed

text \<open>A payload below 4 GiB never panics, and the length field is taken exactly.\<close>

lemma parse_ssh_string_short:
  assumes "length p < 2 ^ 32"
  shows "parse_ssh_string p = Some (if length p < 4 \<or> unat (be32 p) > length p - 4 then ([], False)
    else (take (unat (be32 p)) (drop 4 p), True))"
proof (cases "length p < 4 \<or> unat (be32 p) > length p - 4")
  case True
  then show ?thesis by (auto simp: parse_ssh_string_def Let_def)
next
  case False
  then have "unat (4 + be32 p) = 4 + unat (be32 p)"
    using assms by (intro unat_add_lem [THEN iffD1, THEN trans]) auto
  then show ?thesis using False by (simp add: parse_ssh_string_def Let_def)
qed

end
