(* ===== verification/FetchProps.thy ===== *)
theory FetchProps
  imports FetchProxy PushProps
begin

text \<open>
  The properties of the fetch path: what a protected fetch may contain, which wants are
  refused, how the response is framed and how it fails closed, where a shallow fetch is cut,
  and what is recorded. The witnesses run the path on a git with one commit that holds a
  secret and a public file.
\<close>

section \<open>A concrete repository\<close>

definition oid_c :: string where "oid_c = replicate 40 (CHR ''c'')"
definition oid_e :: string where "oid_e = replicate 40 (CHR ''e'')"

definition demo_type :: "string \<Rightarrow> string" where
  "demo_type oid = (if oid = oid_c then ''commit 9'' else if oid = oid_e then ''tree 9'' else ''blob 9'')"

definition demo_tree :: string where
  "demo_tree = oid_f @ '' secrets/k'' @ [NL] @ oid_a @ '' README'' @ [NL]"

definition fetch_git :: "unit \<Rightarrow> string list \<Rightarrow> string \<Rightarrow> unit \<times> git_result" where
  "fetch_git d argv stdin =
     (d, ok_result
       (let cmd = argv ! 2 in
        if cmd = ''log'' then oid_e @ [NL]
        else if cmd = ''ls-tree'' then demo_tree
        else if cmd = ''rev-list'' then oid_c @ [NL] @ oid_e @ '' '' @ [NL] @ demo_tree
        else if cmd = ''cat-file''
          then concat (map (\<lambda>l. l @ '' '' @ demo_type l @ [NL]) (split_clean_lines stdin))
        else if cmd = ''pack-objects'' then ''PACK'' @ stdin else []))"

definition fetch_env :: "unit env" where
  "fetch_env = demo_env\<lparr>x_git := fetch_git\<rparr>"

definition fetch_proxy :: "unit proxy" where
  "fetch_proxy = (demo_proxy [] False)\<lparr>px_env := fetch_env,
                    px_read_deny := Some (new_matcher [''secrets/**''])\<rparr>"

definition fetch_body :: "string list \<Rightarrow> string \<Rightarrow> string" where
  "fetch_body caps oid = pkt (''want '' @ oid @ concat (map (\<lambda>c. SP # c) caps) @ [NL]) @ ''0000'' @ pkt (''done'' @ [NL])"

lemma fetch_reads_only: "reads_only fetch_env"
  by (simp add: reads_only_def fetch_env_def fetch_git_def)

text \<open>C16: with read protection on, a fetch is never relayed upstream, and what the agent
  receives (in the one run, or the two of a repaired mirror) contains no packfile bytes at all
  or is a prefix of a response whose packfile was made from objects none of which is a blob
  that any root tree of the history lists at a denied path.\<close>

theorem fetch_pack_filtered:
  assumes "px_read_deny px = Some deny" and "gogit_ok (px_gogit px)" and "reads_only (px_env px)"
    and "upload_pack px ctx repo body w = (w', e)"
  shows "w_sent w' = w_sent w \<and>
    (\<exists>out1 out2. wout (w_client w') = wout (w_client w) @ out1 @ out2 \<and>
       filtered_reply (px_gogit px) (px_env px) deny out1 \<and>
       filtered_reply (px_gogit px) (px_env px) deny out2)"
proof -
  let ?ok = "filtered_reply (px_gogit px) (px_env px) deny"
  have nil: "?ok []" unfolding filtered_reply_def pack_free_def by (intro disjI1 exI [of _ "[]"]) simp
  have quiet: ?thesis if "w_sent w' = w_sent w" "w_client w' = w_client w"
    using that nil by (intro conjI exI [of _ "[]"]) simp_all
  consider (none) "w' = w" | (run) buf where "protected_upload_pack px deny ctx repo buf w = (w', e)"
    using assms(1,4) by (auto simp: upload_pack_def split: sum.splits if_splits)
  then show ?thesis
  proof cases
    case none
    then show ?thesis using quiet by simp
  next
    case (run buf)
    show ?thesis
    proof (cases rule: protected_cases [OF run])
      case (1 v reason)
      then show ?thesis using quiet by simp
    next
      case (2 req m1 m' c' res err v)
      note served = this
      have w': "w_sent w' = w_sent w" "w_client w' = c'" using served(3,5) by (auto split: if_splits)
      show ?thesis
      proof (cases rule: serve_enforced_runs [OF served(2)])
        case (1 m2)
        then show ?thesis using serve_inner_reply [OF assms(2,3) 1] w' nil by fastforce
      next
        case (2 m2 w1 res1 e1 m3 m4)
        obtain out1 where "wout w1 = wout (w_client w) @ out1" "?ok out1"
          using serve_inner_reply [OF assms(2,3) 2(1)] by blast
        moreover obtain out2 where "wout c' = wout w1 @ out2" "?ok out2"
          using serve_inner_reply [OF assms(2,3) 2(5)] by blast
        ultimately show ?thesis using w' by auto
      qed
    qed
  qed
qed

theorem fetch_pack_filtered_witness:
  "\<exists>out1 out2. wout (w_client (fst (upload_pack fetch_proxy None ''r''
       (bytes_source (fetch_body [''filter''] oid_c)) demo_world))) = out1 @ out2 \<and> out1 @ out2 \<noteq> [] \<and>
     filtered_reply wire_gogit fetch_env (new_matcher [''secrets/**'']) out1 \<and>
     filtered_reply wire_gogit fetch_env (new_matcher [''secrets/**'']) out2"
proof -
  let ?body = "bytes_source (fetch_body [''filter''] oid_c)"
  obtain w' e where run: "upload_pack fetch_proxy None ''r'' ?body demo_world = (w', e)" by fastforce
  have p: "px_read_deny fetch_proxy = Some (new_matcher [''secrets/**''])" "px_gogit fetch_proxy = wire_gogit"
    "px_env fetch_proxy = fetch_env" by (simp_all add: fetch_proxy_def demo_proxy_def)
  have "wout (w_client (fst (upload_pack fetch_proxy None ''r'' ?body demo_world))) \<noteq> []" by code_simp
  moreover have "wout (w_client demo_world) = []" by (simp add: demo_world_def fresh_writer_def)
  ultimately show ?thesis
    using fetch_pack_filtered [OF p(1) _ _ run] unfolding p run
    by (metis append_Nil fst_conv wire_gogit_ok fetch_reads_only)
qed

section \<open>Refusals\<close>

definition err_bytes :: "string \<Rightarrow> string" where
  "err_bytes reason = pkt (''ERR '' @ reason @ [NL])"

lemma refusal_good:
  assumes "gogit_ok G" and "wsched w = []" and "length reason \<le> 1000"
  shows "write_upload_pack_err G w reason = (w\<lparr>wout := wout w @ err_bytes reason\<rparr>, None)"
  using assms by (simp add: write_upload_pack_err_def err_bytes_def gogit_ok_def max_payload_def)

lemma hex_sha_length: "is_hex_sha s \<Longrightarrow> length s = 40"
  by (simp add: is_hex_sha_def)

text \<open>a want that is not a 40-digit hexadecimal object id ends the fetch with an ERR line
  before any git command but the refresh has run.\<close>

lemma fetch_malformed_want:
  assumes "gogit_ok G" and "wsched w = []" and "refresh env m = (m1, Inr ())"
    and "want \<in> set (up_wants req)" and "\<not> is_hex_sha want"
  shows "serve_inner G env deny req m w =
    (m1, w\<lparr>wout := wout w @ err_bytes err_malformed_want\<rparr>,
     no_denial\<lparr>fr_reason := err_malformed_want\<rparr>, None)"
proof -
  have "length err_malformed_want \<le> 1000" by (simp add: err_malformed_want_def)
  then have "write_upload_pack_err G w err_malformed_want =
      (w\<lparr>wout := wout w @ err_bytes err_malformed_want\<rparr>, None)"
    by (rule refusal_good [OF assms(1,2)])
  moreover have "list_ex (\<lambda>want. \<not> is_hex_sha want) (up_wants req)"
    using assms(4,5) by (auto simp: list_ex_iff)
  ultimately show ?thesis using assms(3) by (simp add: serve_inner_def)
qed

definition demo_up :: "string list \<Rightarrow> up_request" where
  "demo_up wants = empty_request\<lparr>up_wants := wants, up_done := True, up_caps := [''side-band-64k'']\<rparr>"

definition demo_mirror :: "unit mirror" where
  "demo_mirror = \<lparr>m_dir = ''/m'', m_url = ''https://up/r'', m_disk = (), m_calls = []\<rparr>"

lemma on_demand_finds:
  assumes "object_types env wants m = (m1, Inr types)"
    and "resolve_many env (filter (\<lambda>o'. types o' = Some ''blob'') wants) m1 = (m2, Inr paths)"
    and "want \<in> set wants" and "refused_want deny types paths want"
  obtains oid where "on_demand_deny env (Some deny) wants m = (m2, Some oid)" and "oid \<in> set wants"
proof -
  have "find (refused_want deny types paths) wants \<noteq> None"
    using assms(3,4) by (auto simp: find_None_iff)
  then obtain oid where f: "find (refused_want deny types paths) wants = Some oid" by auto
  then have "oid \<in> set wants" by (auto simp: find_Some_iff)
  moreover have "on_demand_deny env (Some deny) wants m = (m2, Some oid)"
    using assms(1-3) f by (auto simp: on_demand_deny_def Let_def)
  ultimately show thesis using that by blast
qed

lemma fetch_want_refused:
  assumes "gogit_ok G" and "wsched w = []"
    and "refresh env m = (m1, Inr ())" and "\<forall>want \<in> set (up_wants req). is_hex_sha want"
    and "object_types env (up_wants req) m1 = (m2, Inr types)"
    and "resolve_many env (filter (\<lambda>o'. types o' = Some ''blob'') (up_wants req)) m2 = (m3, Inr paths)"
    and "want \<in> set (up_wants req)" and "refused_want deny types paths want"
  shows "\<exists>oid \<in> set (up_wants req).
    serve_inner G env (Some deny) req m w =
      (m3, w\<lparr>wout := wout w @ err_bytes (deny_reason oid)\<rparr>, no_denial\<lparr>fr_oids := [oid]\<rparr>, None)"
proof -
  obtain oid where oid: "on_demand_deny env (Some deny) (up_wants req) m1 = (m3, Some oid)"
    "oid \<in> set (up_wants req)"
    by (rule on_demand_finds [OF assms(5-8)])
  then have "length (deny_reason oid) \<le> 1000"
    using assms(4) hex_sha_length [of oid] by (simp add: deny_reason_def)
  then have "write_upload_pack_err G w (deny_reason oid) =
      (w\<lparr>wout := wout w @ err_bytes (deny_reason oid)\<rparr>, None)"
    by (rule refusal_good [OF assms(1,2)])
  moreover have "\<not> list_ex (\<lambda>want. \<not> is_hex_sha want) (up_wants req)"
    using assms(4) by (auto simp: list_ex_iff)
  ultimately show ?thesis using oid assms(3) by (intro bexI [of _ oid]) (simp_all add: serve_inner_def)
qed

text \<open>C17: an on-demand want is refused whole with an ERR line, and nothing is packed, when it
  is a blob that no root tree of the history lists, or a blob listed at a denied path.\<close>

theorem fetch_on_demand_refused:
  assumes "gogit_ok G" and "wsched w = []" and "reads_only env"
    and "refresh env m = (m1, Inr ())" and "\<forall>want \<in> set (up_wants req). is_hex_sha want"
    and "object_types env (up_wants req) m1 = (m2, Inr types)"
    and "resolve_many env (filter (\<lambda>o'. types o' = Some ''blob'') (up_wants req)) m2 = (m3, Inr paths)"
    and "want \<in> set (up_wants req)" and "types want = Some ''blob''"
    and "(\<forall>p. \<not> listed env m2 want p) \<or> (\<exists>p. listed env m2 want p \<and> matcher_match deny p)"
  shows "\<exists>oid \<in> set (up_wants req).
    serve_inner G env (Some deny) req m w =
      (m3, w\<lparr>wout := wout w @ err_bytes (deny_reason oid)\<rparr>, no_denial\<lparr>fr_oids := [oid]\<rparr>, None)"
proof -
  have "want \<noteq> [] \<and> SP \<notin> set want" using object_types_words [OF assms(6)] assms(9) by simp
  then have paths: "set (paths want) = {p. listed env m2 want p}"
    using resolve_many_iff [OF assms(3,7), of want] assms(8,9) by (auto simp: listed_def)
  have "paths want = [] \<or> (\<exists>p \<in> set (paths want). matcher_match deny p)"
    using assms(10)
  proof
    assume "\<forall>p. \<not> listed env m2 want p"
    then have "set (paths want) = {}" using paths by simp
    then show ?thesis by simp
  next
    assume "\<exists>p. listed env m2 want p \<and> matcher_match deny p"
    then show ?thesis unfolding paths by simp
  qed
  then have "refused_want deny types paths want"
    using assms(9) by (simp add: refused_want_def list_ex_iff)
  then show ?thesis by (rule fetch_want_refused [OF assms(1,2,4-8)])
qed

text \<open>The code also refuses a request that wants a tree.\<close>

lemma fetch_tree_refused:
  assumes "gogit_ok G" and "wsched w = []"
    and "refresh env m = (m1, Inr ())" and "\<forall>want \<in> set (up_wants req). is_hex_sha want"
    and "object_types env (up_wants req) m1 = (m2, Inr types)"
    and "resolve_many env (filter (\<lambda>o'. types o' = Some ''blob'') (up_wants req)) m2 = (m3, Inr paths)"
    and "want \<in> set (up_wants req)" and "types want = Some ''tree''"
  shows "\<exists>oid \<in> set (up_wants req).
    serve_inner G env (Some deny) req m w =
      (m3, w\<lparr>wout := wout w @ err_bytes (deny_reason oid)\<rparr>, no_denial\<lparr>fr_oids := [oid]\<rparr>, None)"
  by (rule fetch_want_refused [OF assms(1-7)]) (simp add: refused_want_def assms(8))

lemma Inr_run: "(case snd r of Inl _ \<Rightarrow> False | Inr x \<Rightarrow> P x) \<Longrightarrow> \<exists>x. r = (fst r, Inr x) \<and> P x"
  by (cases r) (auto split: sum.splits)

theorem fetch_on_demand_refused_witness:
  "\<exists>m3 oid. serve_inner wire_gogit fetch_env (Some (new_matcher [''secrets/**''])) (demo_up [oid_c, oid_f])
      demo_mirror fresh_writer =
      (m3, fresh_writer\<lparr>wout := err_bytes (deny_reason oid)\<rparr>, no_denial\<lparr>fr_oids := [oid]\<rparr>, None)"
proof -
  let ?m1 = "fst (refresh fetch_env demo_mirror)"
  let ?wants = "up_wants (demo_up [oid_c, oid_f])"
  let ?t = "object_types fetch_env ?wants ?m1"
  have m1: "refresh fetch_env demo_mirror = (?m1, Inr ())"
  proof -
    have "snd (refresh fetch_env demo_mirror) = Inr ()" by code_simp
    then show ?thesis by (metis prod.collapse)
  qed
  have hex: "\<forall>want \<in> set ?wants. is_hex_sha want" by code_simp
  have "(case snd ?t of Inl _ \<Rightarrow> False | Inr ty \<Rightarrow> ty oid_f = Some ''blob'' \<and>
      filter (\<lambda>o'. ty o' = Some ''blob'') ?wants = [oid_f])" by code_simp
  from Inr_run [OF this] obtain types where t: "?t = (fst ?t, Inr types)" "types oid_f = Some ''blob''"
    "filter (\<lambda>o'. types o' = Some ''blob'') ?wants = [oid_f]" by blast
  let ?r = "resolve_many fetch_env [oid_f] (fst ?t)"
  have "(case snd ?r of Inl _ \<Rightarrow> False | Inr (ps :: path_index) \<Rightarrow> True)" by code_simp
  from Inr_run [OF this] obtain paths where r: "?r = (fst ?r, Inr paths)" by blast
  have "oid_f @ SP # ''secrets/k'' \<in> set (tree_lines fetch_env (fst ?t) oid_e)"
    "oid_e \<in> set (root_trees fetch_env (fst ?t))" by code_simp+
  then have l: "listed fetch_env (fst ?t) oid_f ''secrets/k''" by (auto simp: listed_def)
  have d: "matcher_match (new_matcher [''secrets/**'']) ''secrets/k''" by code_simp
  have w: "oid_f \<in> set ?wants" by (simp add: demo_up_def)
  have sched: "wsched fresh_writer = []" and out: "wout fresh_writer = []" by (simp_all add: fresh_writer_def)
  have "(\<forall>p. \<not> listed fetch_env (fst ?t) oid_f p) \<or>
       (\<exists>p. listed fetch_env (fst ?t) oid_f p \<and> matcher_match (new_matcher [''secrets/**'']) p)"
    using l d by blast
  moreover have "resolve_many fetch_env (filter (\<lambda>o'. types o' = Some ''blob'') ?wants) (fst ?t) = (fst ?r, Inr paths)"
    unfolding t(3) by (rule r)
  ultimately have refused: "\<exists>oid \<in> set ?wants.
      serve_inner wire_gogit fetch_env (Some (new_matcher [''secrets/**''])) (demo_up [oid_c, oid_f])
        demo_mirror fresh_writer =
      (fst ?r, fresh_writer\<lparr>wout := wout fresh_writer @ err_bytes (deny_reason oid)\<rparr>,
       no_denial\<lparr>fr_oids := [oid]\<rparr>, None)"
    by (intro fetch_on_demand_refused [OF wire_gogit_ok sched fetch_reads_only m1 hex t(1) _ w t(2)])
  then show ?thesis unfolding out append_Nil by blast
qed

section \<open>Shallow fetches\<close>

lemma parents_of_listed:
  assumes "distinct (map cp_oid cps)" and "cp \<in> set cps"
  shows "parents_of cps (cp_oid cp) = cp_parents cp"
proof -
  let ?ps = "rev (map (\<lambda>cp. (cp_oid cp, cp_parents cp)) cps)"
  have "map fst ?ps = rev (map cp_oid cps)" by (simp add: rev_map)
  then have "distinct (map fst ?ps)" using assms(1) by (metis distinct_rev)
  moreover have "(cp_oid cp, cp_parents cp) \<in> set ?ps" using assms(2) by auto
  ultimately have "map_of ?ps (cp_oid cp) = Some (cp_parents cp)" by (rule map_of_is_SomeI)
  then show ?thesis by (simp add: parents_of_def)
qed

lemma line_in_shallow_lines:
  "''shallow '' @ c \<in> set (shallow_lines cps excluded shallows) \<longleftrightarrow> c \<in> set (cut_by cps excluded shallows)"
  "''unshallow '' @ c \<in> set (shallow_lines cps excluded shallows) \<longleftrightarrow>
     c \<in> set (resolved_shallows cps excluded shallows (cut_by cps excluded shallows))"
  by (auto simp: shallow_lines_def Let_def)

lemma cut_iff:
  assumes "distinct (map cp_oid cps)"
  shows "c \<in> set (cut_by cps excluded shallows) \<longleftrightarrow>
    c \<in> cp_oid ` set cps \<and> c \<notin> set excluded \<and> c \<notin> set shallows \<and>
    (\<exists>p \<in> set (parents_of cps c). p \<in> set excluded)"
  using parents_of_listed [OF assms] by (force simp: cut_by_def set_dedup_from list_ex_iff)

lemma resolved_iff:
  "c \<in> set (resolved_shallows cps excluded shallows (cut_by cps excluded shallows)) \<longleftrightarrow>
    c \<in> set shallows \<and>
    (\<forall>x \<in> insert c (set (parents_of cps c)). x \<in> cp_oid ` set cps \<and> x \<notin> set excluded)"
proof -
  have "c \<in> set shallows \<Longrightarrow> c \<notin> set (cut_by cps excluded shallows)"
    by (auto simp: cut_by_def set_dedup_from)
  then show ?thesis by (auto simp: resolved_shallows_def Let_def set_dedup_from list_all_iff)
qed

text \<open>C18: a \<open>deepen\<close> fetch announces as new shallow boundary exactly the commits at distance
  one less than the depth from the wants that have a parent beyond it and are not shallow at
  the client yet, and as resolved exactly the client's shallow commits that are within the
  depth together with all their parents. (The commits listed are those git reaches from the
  wants, each once.)\<close>

theorem shallow_boundary:
  assumes "distinct (map cp_oid cps)" and "0 < depth"
    and reach: "\<forall>cp \<in> set cps. \<exists>n. walk cps wants (cp_oid cp) n"
  shows "(''shallow '' @ c \<in> set (shallow_lines cps (depth_excluded cps wants depth) shallows) \<longleftrightarrow>
      c \<in> cp_oid ` set cps \<and> c \<notin> set shallows \<and>
      walk cps wants c (nat depth - 1) \<and> (\<forall>n. walk cps wants c n \<longrightarrow> nat depth - 1 \<le> n) \<and>
      (\<exists>p \<in> set (parents_of cps c). \<forall>n. walk cps wants p n \<longrightarrow> nat depth \<le> n)) \<and>
    (''unshallow '' @ c \<in> set (shallow_lines cps (depth_excluded cps wants depth) shallows) \<longleftrightarrow>
      c \<in> set shallows \<and> (\<forall>x \<in> insert c (set (parents_of cps c)).
         x \<in> cp_oid ` set cps \<and> (\<exists>n. walk cps wants x n \<and> int n < depth)))"
proof -
  let ?ex = "depth_excluded cps wants depth"
  note ex = depth_excluded_in [of _ cps wants depth]
  have within: "x \<notin> set ?ex \<longleftrightarrow> (\<exists>n. walk cps wants x n \<and> int n < depth)" if "x \<in> cp_oid ` set cps" for x
    using reach that unfolding ex by (metis (no_types, lifting) imageE linorder_not_le)
  have "(c \<notin> set ?ex \<and> (\<exists>p \<in> set (parents_of cps c). p \<in> set ?ex)) \<longleftrightarrow>
      (walk cps wants c (nat depth - 1) \<and> (\<forall>n. walk cps wants c n \<longrightarrow> nat depth - 1 \<le> n) \<and>
       (\<exists>p \<in> set (parents_of cps c). \<forall>n. walk cps wants p n \<longrightarrow> nat depth \<le> n))"
    (is "?l \<longleftrightarrow> ?r") if c: "c \<in> cp_oid ` set cps"
  proof
    assume ?l
    then obtain n p where n: "walk cps wants c n" "int n < depth" and p: "p \<in> set (parents_of cps c)"
      "\<forall>k. walk cps wants p k \<longrightarrow> depth \<le> int k"
      using within [OF c] unfolding ex by blast
    have far: "nat depth - 1 \<le> k" if "walk cps wants c k" for k
      using p(2) walk.parent [OF that p(1)] by fastforce
    then have "n = nat depth - 1" using n by fastforce
    moreover have "\<forall>k. walk cps wants p k \<longrightarrow> nat depth \<le> k" using p(2) by force
    ultimately show ?r using n far p(1) by blast
  next
    assume r: ?r
    then obtain p where p: "p \<in> set (parents_of cps c)" "\<forall>n. walk cps wants p n \<longrightarrow> nat depth \<le> n" by blast
    have "\<exists>n. walk cps wants p n" using walk.parent [OF _ p(1)] r by blast
    then have "p \<in> set ?ex" unfolding ex using p(2) assms(2) by force
    moreover have "c \<notin> set ?ex" unfolding within [OF c] using r assms(2) by force
    ultimately show ?l using p(1) by blast
  qed
  then have "c \<in> set (cut_by cps ?ex shallows) \<longleftrightarrow>
      c \<in> cp_oid ` set cps \<and> c \<notin> set shallows \<and>
      walk cps wants c (nat depth - 1) \<and> (\<forall>n. walk cps wants c n \<longrightarrow> nat depth - 1 \<le> n) \<and>
      (\<exists>p \<in> set (parents_of cps c). \<forall>n. walk cps wants p n \<longrightarrow> nat depth \<le> n)"
    unfolding cut_iff [OF assms(1)] by blast
  moreover have "c \<in> set (resolved_shallows cps ?ex shallows (cut_by cps ?ex shallows)) \<longleftrightarrow>
      c \<in> set shallows \<and> (\<forall>x \<in> insert c (set (parents_of cps c)).
         x \<in> cp_oid ` set cps \<and> (\<exists>n. walk cps wants x n \<and> int n < depth))"
    unfolding resolved_iff using within by blast
  ultimately show ?thesis unfolding line_in_shallow_lines by blast
qed

definition chain_graph :: "commit_parents list" where
  "chain_graph = [\<lparr>cp_oid = ''c2'', cp_parents = [''c1'']\<rparr>, \<lparr>cp_oid = ''c1'', cp_parents = [''c0'']\<rparr>,
                  \<lparr>cp_oid = ''c0'', cp_parents = []\<rparr>]"

theorem shallow_boundary_witness:
  "walk chain_graph [''c2''] ''c1'' 1 \<and> \<not> (\<exists>n. walk chain_graph [''c2''] ''c0'' n \<and> n < 2)"
proof -
  let ?walk = "walk chain_graph [''c2'']"
  have parents: "parents_of chain_graph ''c2'' = [''c1'']" "parents_of chain_graph ''c1'' = [''c0'']"
    by code_simp+
  have w2: "?walk ''c2'' 0" by (rule walk.want) simp
  have w1: "?walk ''c1'' 1" using walk.parent [OF w2] parents by simp
  have w0: "?walk ''c0'' 2" using walk.parent [OF w1] parents by (simp add: numeral_2_eq_2)
  have oids: "cp_oid ` set chain_graph = {''c2'', ''c1'', ''c0''}" by (simp add: chain_graph_def)
  have "\<forall>c \<in> cp_oid ` set chain_graph. \<exists>n. ?walk c n" using w2 w1 w0 unfolding oids by blast
  then have reach: "\<forall>cp \<in> set chain_graph. \<exists>n. ?walk (cp_oid cp) n" by blast
  have dist: "distinct (map cp_oid chain_graph)" by code_simp
  have "''shallow '' @ ''c1'' \<in> set (shallow_lines chain_graph (depth_excluded chain_graph [''c2''] 2) [])"
    by code_simp
  then have "\<exists>p \<in> set (parents_of chain_graph ''c1''). \<forall>n. ?walk p n \<longrightarrow> nat 2 \<le> n"
    using shallow_boundary [OF dist _ reach, of 2 "''c1''" "[]"] by simp
  then have "\<forall>n. ?walk ''c0'' n \<longrightarrow> 2 \<le> n" using parents(2) by simp
  then show ?thesis using w1 not_less by blast
qed

section \<open>The response\<close>

lemma encode_good:
  "gogit_ok G \<Longrightarrow> wsched w = [] \<Longrightarrow> p \<noteq> [] \<Longrightarrow> length p \<le> max_payload \<Longrightarrow>
   encode_string G w p = (w\<lparr>wout := wout w @ pkt p\<rparr>, None)"
  by (simp add: gogit_ok_def)

lemma encode_lines_good:
  assumes "gogit_ok G" and "wsched w = []" and "\<forall>l \<in> set ls. length l < max_payload"
  shows "encode_lines G w ls = (w\<lparr>wout := wout w @ line_bytes ls\<rparr>, None)"
  using assms(2,3)
proof (induction ls arbitrary: w)
  case Nil
  then show ?case by (simp add: line_bytes_def)
next
  case (Cons l ls)
  have "encode_string G w (l @ [NL]) = (w\<lparr>wout := wout w @ pkt (l @ [NL])\<rparr>, None)"
    using Cons.prems by (intro encode_good [OF assms(1)]) auto
  then show ?case
    using Cons.IH [of "w\<lparr>wout := wout w @ pkt (l @ [NL])\<rparr>"] Cons.prems
    by (simp add: line_bytes_def del: encode_string.simps)
qed

lemma preamble_good:
  assumes "gogit_ok G" and "wsched w = []" and "\<forall>l \<in> set lines. length l < max_payload"
  shows "write_preamble G w lines = (w\<lparr>wout := wout w @ preamble_bytes lines\<rparr>, None)"
  using encode_lines_good [OF assms] assms(1,2)
  by (simp add: write_preamble_def wrap_error_def preamble_bytes_def enc_flush_def gogit_ok_def line_bytes_def)

lemma pieces_good:
  "wsched w = [] \<Longrightarrow> write_pieces f w ps = (w\<lparr>wout := wout w @ concat (map f ps)\<rparr>, None)"
  by (induction ps arbitrary: w) simp_all

lemma stream_good:
  assumes "wsched w = []"
  shows "stream_pack G t w (bytes_source b) None =
    (w\<lparr>wout := wout w @ frame_of G t (take head_size b) @ concat (map (frame_of G t) (pieces (drop head_size b)))
        @ trailer t\<rparr>, None, 1)"
  using assms pieces_good [of "w\<lparr>wout := wout w @ frame_of G t (take head_size b)\<rparr>"]
  by (simp add: stream_pack_def bytes_source_sel trailer_def)

lemma nak_good: "gogit_ok G \<Longrightarrow> wsched w = [] \<Longrightarrow>
   encode_string G w (''NAK'' @ [NL]) = (w\<lparr>wout := wout w @ pkt nak\<rparr>, None)"
  unfolding nak_def by (rule encode_good) (simp_all add: max_payload_def)

lemma response_good:
  assumes "gogit_ok G" and "wsched w = []" and "\<forall>l \<in> set lines. length l < max_payload"
  shows "write_v0_response G w (bytes_source b) None caps lines =
    (w\<lparr>wout := wout w @ response_bytes G caps lines b @ trailer (upload_sideband caps)\<rparr>, None, 1)"
proof -
  let ?t = "upload_sideband caps"
  let ?w1 = "w\<lparr>wout := wout w @ preamble_bytes lines\<rparr>"
  have n: "encode_string G ?w1 (''NAK'' @ [NL]) = (?w1\<lparr>wout := wout ?w1 @ pkt nak\<rparr>, None)"
    by (rule nak_good [OF assms(1)]) (simp add: assms(2))
  show ?thesis
  proof (cases "b = []")
    case True
    then show ?thesis
      using assms(2) preamble_good [OF assms] n unfolding write_v0_response_def Let_def
      by (simp add: bytes_source_sel wrap_error_def response_bytes_def pack_section_def trailer_def
          del: encode_string.simps)
  next
    case False
    then show ?thesis
      using preamble_good [OF assms] n stream_good [of "?w1\<lparr>wout := wout ?w1 @ pkt nak\<rparr>" G ?t b] assms(2)
      unfolding write_v0_response_def Let_def
      by (simp add: bytes_source_sel wrap_error_def response_bytes_def pack_section_def
          del: encode_string.simps)
  qed
qed

text \<open>The packfile section is a sequence of channel-1 frames that together carry the packfile.\<close>

lemma mux_list:
  assumes "mux_ok G" and "t \<noteq> NoSideband"
  shows "\<exists>cs. concat (map (frame_of G t) ps) = mux_frames cs \<and> concat cs = concat ps \<and>
    (\<forall>c \<in> set cs. length c < max_payload)"
proof (induction ps)
  case Nil
  show ?case by (intro exI [of _ "[]"]) (simp add: mux_frames_def)
next
  case (Cons p ps)
  obtain cs where cs: "concat (map (frame_of G t) ps) = mux_frames cs" "concat cs = concat ps"
    "\<forall>c \<in> set cs. length c < max_payload" using Cons by blast
  obtain ds where ds: "g_mux G t p = mux_frames ds" "concat ds = p" "\<forall>c \<in> set ds. length c < max_payload"
    using assms unfolding mux_ok_def by blast
  have "frame_of G t p = mux_frames ds" using ds(1) assms(2) by (simp add: frame_of_def)
  then show ?case
    using cs ds(2,3) by (intro exI [of _ "ds @ cs"]) (auto simp: mux_frames_def)
qed

lemma pack_section_frames:
  assumes "mux_ok G" and "t \<noteq> NoSideband"
  obtains cs where "pack_section G t b = mux_frames cs" and "concat cs = b" and "\<forall>c \<in> set cs. length c < max_payload"
proof (cases "b = []")
  case True
  then show thesis using that [of "[]"] by (simp add: pack_section_def mux_frames_def)
next
  case False
  let ?ps = "take head_size b # pieces (drop head_size b)"
  have "concat ?ps = b" by (simp add: pieces_def chunks_concat copy_buffer_def)
  moreover have "pack_section G t b = concat (map (frame_of G t) ?ps)" using False by (simp add: pack_section_def)
  ultimately show thesis using mux_list [OF assms, of ?ps] that by metis
qed

text \<open>C19: on a stream that works, with a side band negotiated, the response decodes: a
  pkt-line reader finds the shallow lines and their flush, the NAK, frames of channel 1 whose
  contents together are exactly the packfile, and the final flush; and \<open>packWait\<close> is called
  once.\<close>

theorem fetch_response_roundtrip:
  assumes "gogit_ok G" and "mux_ok G" and "wsched w = []" and "upload_sideband caps \<noteq> NoSideband"
    and "\<forall>l \<in> set lines. length l < max_payload"
  shows "\<exists>out chunks. concat chunks = pack \<and>
    write_v0_response G w (bytes_source pack) None caps lines = (w\<lparr>wout := wout w @ out\<rparr>, None, 1) \<and>
    fst (scan_all (g_omax G) (scanner_on (bytes_source out))) =
      map (\<lambda>l. (Data, l @ [NL])) lines @ (if lines = [] then [] else [(Flush, [])]) @ [(Data, nak)] @
      map (\<lambda>c. (Data, CHR 0x01 # c)) chunks @ [(Flush, [])]"
proof -
  let ?t = "upload_sideband caps"
  let ?out = "response_bytes G caps lines pack @ trailer ?t"
  obtain cs where cs: "pack_section G ?t pack = mux_frames cs" "concat cs = pack"
    "\<forall>c \<in> set cs. length c < max_payload" by (rule pack_section_frames [OF assms(2,4)])
  let ?us = "map (\<lambda>l. (Data, l @ [NL])) lines @ (if lines = [] then [] else [(Flush, [])]) @ [(Data, nak)] @
      map (\<lambda>c. (Data, CHR 0x01 # c)) cs @ [(Flush, [])]"
  have "\<forall>u \<in> set ?us. unit_ok u"
    using assms(5) cs(3) by (auto simp: unit_ok_def nak_def max_payload_def)
  moreover have "?out = concat (map unit_bytes ?us)"
    using assms(4) cs(1)
    by (simp add: response_bytes_def preamble_bytes_def line_bytes_def trailer_def mux_frames_def comp_def)
  moreover have "max_payload \<le> g_omax G" using assms(1) by (simp add: gogit_ok_def)
  ultimately have "fst (scan_all (g_omax G) (scanner_on (bytes_source ?out))) = ?us"
    by (intro scan_all_units) (simp_all add: bytes_source_sel)
  then show ?thesis using response_good [OF assms(1,3,5), of pack caps] cs(2) by blast
qed

theorem fetch_response_roundtrip_witness:
  "\<exists>out chunks. concat chunks = ''PACK1'' \<and>
    write_v0_response wire_gogit fresh_writer (bytes_source ''PACK1'') None [''side-band''] [''shallow x''] =
      (fresh_writer\<lparr>wout := out\<rparr>, None, 1) \<and>
    fst (scan_all 65520 (scanner_on (bytes_source out))) =
      [(Data, ''shallow x'' @ [NL]), (Flush, []), (Data, nak)] @ map (\<lambda>c. (Data, CHR 0x01 # c)) chunks @ [(Flush, [])]"
proof -
  have "upload_sideband [''side-band''] \<noteq> NoSideband" by code_simp
  then show ?thesis
    using fetch_response_roundtrip [OF wire_gogit_ok wire_mux_ok, of fresh_writer "[''side-band'']"
        "[''shallow x'']" "''PACK1''"]
    by (simp add: fresh_writer_def wire_gogit_def max_payload_def)
qed

text \<open>C20: the response fails closed: when pack-objects reports an error, or its output breaks
  off, an error is returned and the terminator is never written (what was written is a prefix of
  the response without it), and nothing at all is written when there was no output.\<close>

theorem fetch_fails_closed:
  assumes "gogit_ok G" and "write_v0_response G w pack wait caps lines = (w', e, n)"
    and "wait \<noteq> None \<or> src_fail pack \<noteq> None"
  shows "e \<noteq> None \<and>
    (\<exists>out rest. wout w' = wout w @ out \<and> out @ rest = response_bytes G caps lines (src_bytes pack) \<and>
       (src_bytes pack = [] \<longrightarrow> out = []))"
proof (cases "(length (src_bytes pack) < head_size \<and> src_fail pack \<noteq> None) \<or> (src_bytes pack = [] \<and> wait \<noteq> None)")
  case True
  then have "w' = w \<and> e \<noteq> None"
    using assms(2) unfolding write_v0_response_def Let_def
    by (auto simp: head_size_def split: if_splits option.splits)
  then show ?thesis by auto
next
  case False
  moreover from this have "src_bytes pack \<noteq> []" using assms(3) by (auto simp: head_size_def)
  ultimately show ?thesis using response_stream [OF assms(1,2)] assms(3) by (auto simp: puts_def)
qed

theorem fetch_fails_closed_witness:
  "(case write_v0_response wire_gogit fresh_writer (bytes_source ''PACK'') (Some ''exit status 128'') [''side-band'']
      [] of (w', e, n) \<Rightarrow> e \<noteq> None \<and> wout w' \<noteq> [] \<and> \<not> has_suffix (wout w') ''0000'')"
proof -
  obtain w' e n where r: "write_v0_response wire_gogit fresh_writer (bytes_source ''PACK'')
      (Some ''exit status 128'') [''side-band''] [] = (w', e, n)" by (metis prod_cases3)
  let ?out = "wout (fst (write_v0_response wire_gogit fresh_writer (bytes_source ''PACK'')
      (Some ''exit status 128'') [''side-band''] []))"
  have "\<not> has_suffix ?out ''0000''" "?out \<noteq> []" by code_simp+
  then show ?thesis using fetch_fails_closed [OF wire_gogit_ok r] unfolding r by simp
qed

text \<open>How often \<open>packWait\<close> is called: once, except when the preamble of an empty packfile
  cannot be written.\<close>

lemma pack_wait_calls:
  assumes "gogit_ok G" and "write_v0_response G w pack wait caps lines = (w', e, n)"
  shows "n = (if src_bytes pack = [] \<and> wait = None \<and> src_fail pack = None \<and>
            snd (write_preamble G w lines) \<noteq> None then 2 else 1)"
proof -
  consider (early) "(length (src_bytes pack) < head_size \<and> src_fail pack \<noteq> None) \<or> (src_bytes pack = [] \<and> wait \<noteq> None)"
    | (empty) "src_bytes pack = []" "wait = None" "src_fail pack = None"
    | (stream) "src_bytes pack \<noteq> []" "\<not> (length (src_bytes pack) < head_size \<and> src_fail pack \<noteq> None)"
    by (force simp: head_size_def)
  then show ?thesis
  proof cases
    case early
    then have "n = 1"
      using assms(2) unfolding write_v0_response_def Let_def
      by (auto simp: head_size_def split: if_splits option.splits)
    then show ?thesis using early by auto
  next
    case empty
    then show ?thesis using response_empty [OF assms(1), of w pack caps lines w' e n] assms(2) by simp
  next
    case stream
    then show ?thesis using response_stream [OF assms stream] by simp
  qed
qed

section \<open>Rounds\<close>

lemma only_preamble_good:
  assumes "gogit_ok G" and "wsched w = []" and "\<forall>l \<in> set lines. length l < max_payload"
  shows "only_preamble G w lines = (w\<lparr>wout := wout w @ line_bytes lines @ ''0000''\<rparr>, None)"
  using encode_lines_good [OF assms] assms(1,2)
  by (simp add: only_preamble_def wrap_error_def enc_flush_def gogit_ok_def)

lemma serve_inner_round:
  assumes "refresh env m = (m1, Inr ())" and "\<forall>want \<in> set (up_wants req). is_hex_sha want"
    and "on_demand_deny env deny (up_wants req) m1 = (m2, None)" and "up_deepen_since req = []"
  shows "serve_inner G env deny req m w = serve_round G env deny req m2 w"
proof -
  have "\<not> list_ex (\<lambda>want. \<not> is_hex_sha want) (up_wants req)" using assms(2) by (auto simp: list_ex_iff)
  then show ?thesis using assms(1,3,4) by (simp add: serve_inner_def)
qed

text \<open>a round without \<open>done\<close> never carries a packfile: a plain fetch gets the single NAK
  line, and a shallow fetch its boundary lines and one flush-pkt, nothing else.\<close>

lemma fetch_preliminary_round:
  assumes "gogit_ok G" and "wsched w = []" and "\<not> up_done req"
    and "refresh env m = (m1, Inr ())" and "\<forall>want \<in> set (up_wants req). is_hex_sha want"
    and "on_demand_deny env deny (up_wants req) m1 = (m2, None)" and "up_deepen_since req = []"
  shows "(\<not> deepens req \<longrightarrow>
      serve_inner G env deny req m w = (m2, w\<lparr>wout := wout w @ pkt nak\<rparr>, no_denial, None)) \<and>
    (\<forall>m3 objs lines. deepens req \<and> plan_shallow env req m2 = (m3, Inr (objs, lines)) \<and>
        (\<forall>l \<in> set lines. length l < max_payload) \<longrightarrow>
      serve_inner G env deny req m w =
        (m3, w\<lparr>wout := wout w @ line_bytes lines @ ''0000''\<rparr>, no_denial, None))"
  using nak_good [OF assms(1,2)] only_preamble_good [OF assms(1,2)] assms(3)
  unfolding serve_inner_round [OF assms(4-7)] serve_round_def
  by (simp add: wrap_error_def del: encode_string.simps)

text \<open>A client that did not ask for a partial clone never gets a packfile with holes: when
  a wanted blob must be withheld, it gets the ERR line that names the remedy, nothing is
  packed, and the denied paths are reported.\<close>

theorem fetch_plain_clone_refused:
  assumes "gogit_ok G" and "wsched w = []" and "\<not> client_requested_filter (up_caps req)"
    and "oids = dedup_from {} (map op_oid objs)" and "object_types env oids m = (m1, Inr types)"
    and "resolve_many env (filter (is_blob types) oids) m1 = (m2, Inr paths)"
    and "held = filter (withhold (Some deny) types paths) oids" and "held \<noteq> []"
  shows "serve_objects G env (Some deny) req objs lines m w =
    (m2, w\<lparr>wout := wout w @ err_bytes err_plain_clone\<rparr>,
     \<lparr>fr_paths = concat (map paths held), fr_oids = [], fr_reason = err_plain_clone\<rparr>, None)"
proof -
  have "length err_plain_clone \<le> 1000" by (simp add: err_plain_clone_def)
  then have "write_upload_pack_err G w err_plain_clone =
      (w\<lparr>wout := wout w @ err_bytes err_plain_clone\<rparr>, None)"
    by (rule refusal_good [OF assms(1,2)])
  then show ?thesis
    using assms(3,5,6,8) unfolding assms(7) assms(4) serve_objects_def serve_allowed_def Let_def by simp
qed

theorem fetch_plain_clone_refused_witness:
  "\<exists>m2 res. serve_objects wire_gogit fetch_env (Some (new_matcher [''secrets/**''])) (demo_up [oid_c])
      [\<lparr>op_oid = oid_f, op_path = ''secrets/k''\<rparr>] [] demo_mirror fresh_writer =
    (m2, fresh_writer\<lparr>wout := err_bytes err_plain_clone\<rparr>, res, None) \<and> fr_reason res = err_plain_clone"
proof -
  let ?objs = "[\<lparr>op_oid = oid_f, op_path = ''secrets/k''\<rparr>]"
  let ?oids = "dedup_from {} (map op_oid ?objs)"
  let ?t = "object_types fetch_env ?oids demo_mirror"
  have oids: "?oids = [oid_f]" by simp
  have "(case snd ?t of Inl _ \<Rightarrow> False | Inr ty \<Rightarrow> ty oid_f = Some ''blob'')" by code_simp
  from Inr_run [OF this] obtain types where t: "?t = (fst ?t, Inr types)" "types oid_f = Some ''blob''" by blast
  have blobs: "filter (is_blob types) ?oids = [oid_f]" using t(2) by (simp add: is_blob_def)
  let ?r = "resolve_many fetch_env [oid_f] (fst ?t)"
  have "(case snd ?r of Inl _ \<Rightarrow> False | Inr (ps :: path_index) \<Rightarrow>
      list_ex (matcher_match (new_matcher [''secrets/**''])) (ps oid_f))" by code_simp
  from Inr_run [OF this] obtain paths where r: "?r = (fst ?r, Inr paths)"
    "list_ex (matcher_match (new_matcher [''secrets/**''])) (paths oid_f)" by blast
  have filt: "\<not> client_requested_filter (up_caps (demo_up [oid_c]))" by code_simp
  let ?held = "filter (withhold (Some (new_matcher [''secrets/**''])) types paths) ?oids"
  have "?held = [oid_f]" using t(2) r(2) by (simp add: withhold_def is_blob_def)
  then have held: "?held \<noteq> []" by (metis list.distinct(1))
  have r': "resolve_many fetch_env (filter (is_blob types) ?oids) (fst ?t) = (fst ?r, Inr paths)"
    unfolding blobs by (rule r(1))
  have sched: "wsched fresh_writer = []" and out: "wout fresh_writer = []" by (simp_all add: fresh_writer_def)
  show ?thesis
    using fetch_plain_clone_refused [OF wire_gogit_ok sched filt refl t(1) r' refl held, of "[]"]
    unfolding out append_Nil by fastforce
qed

section \<open>Records and limits\<close>

lemma fetch_verdict_cases:
  "fetch_verdict res = (''allow'', []) \<and> fr_reason res = [] \<and> fr_oids res = [] \<and> fr_paths res = [] \<or>
   fst (fetch_verdict res) = ''deny'' \<and> \<not> (fr_reason res = [] \<and> fr_oids res = [] \<and> fr_paths res = [])"
  by (simp add: fetch_verdict_def)

definition fetch_record ::
  "'r proxy \<Rightarrow> string option \<Rightarrow> string \<Rightarrow> string \<Rightarrow> string list \<Rightarrow> string list \<Rightarrow> string list \<Rightarrow> audit_event" where
  "fetch_record px ctx repo verdict reasons ps os =
     \<lparr>ae_transport = px_transport px, ae_agent = agent_name ctx, ae_repo = repo,
      ae_service = ''git-upload-pack'', ae_verdict = verdict, ae_reasons = reasons, ae_refs = [],
      ae_denied_paths = ps, ae_denied_oids = os, ae_dry_run = False\<rparr>"

lemma fetch_event:
  assumes "px_audit px = Some sink" and "px_alert px = Some asink"
    and "w' = audit_fetch px ctx repo verdict reasons ps os v"
  shows "w_events w' = w_events v @ [fetch_record px ctx repo verdict reasons ps os] \<and>
    length (w_alerts w') = length (w_alerts v) + (if verdict = ''deny'' then 1 else 0) \<and> w_client w' = w_client v"
  unfolding assms(3)
  by (simp add: audit_fetch_def record_audit_def record_alert_def Let_def assms(1,2) fetch_record_def)

text \<open>C21: with read protection on, every fetch whose request is read leaves exactly one audit
  event of the fetch service, and raises an alert exactly when it says ''deny''. An ''allow''
  means that the fetch succeeded and that nothing was withheld or refused: what the agent got,
  after the output of a first run that a corrupt mirror ended, is the complete answer to its
  request, whose packfile git made of the whole object set, no blob of which is listed at a
  denied path.\<close>

theorem fetch_audited:
  assumes "px_audit px = Some sink" and "px_alert px = Some asink" and "px_read_deny px = Some deny"
    and "gogit_ok (px_gogit px)" and "reads_only (px_env px)"
    and "src_fail body = None" and "length (src_bytes body) \<le> max_request_bytes"
    and "upload_pack px ctx repo body w = (w', e)"
  shows "\<exists>ev. w_events w' = w_events w @ [ev] \<and> ae_agent ev = agent_name ctx \<and> ae_repo ev = repo \<and>
    ae_service ev = ''git-upload-pack'' \<and> \<not> ae_dry_run ev \<and> ae_verdict ev \<in> {''allow'', ''deny''} \<and>
    length (w_alerts w') = length (w_alerts w) + (if ae_verdict ev = ''deny'' then 1 else 0) \<and>
    (ae_verdict ev = ''allow'' \<longrightarrow> e = None \<and>
       ae_denied_paths ev = [] \<and> ae_denied_oids ev = [] \<and> ae_reasons ev = [] \<and>
       (\<exists>req opener m out.
          parse_upload_pack_request (g_omax (px_gogit px)) (bytes_source (src_bytes body)) = Inr req \<and>
          px_opener px = Some opener \<and> opener repo (w_mirror w) = (m, None) \<and>
          wout (w_client w') = wout (w_client w) @ out \<and>
          answered (px_gogit px) (px_env px) deny req m (w_client w) out))"
proof -
  let ?whole = "\<lambda>req v. \<exists>opener m out. px_opener px = Some opener \<and> opener repo (w_mirror w) = (m, None) \<and>
      wout (w_client v) = wout (w_client w) @ out \<and>
      answered (px_gogit px) (px_env px) deny req m (w_client w) out"
  have audit: ?thesis if v: "w' = audit_fetch px ctx repo verdict reasons ps os v"
    and same: "w_events v = w_events w" "w_alerts v = w_alerts w" and "verdict \<in> {''allow'', ''deny''}"
    and "verdict = ''allow'' \<longrightarrow> e = None \<and> ps = [] \<and> os = [] \<and> reasons = [] \<and>
      (\<exists>req. parse_upload_pack_request (g_omax (px_gogit px)) (bytes_source (src_bytes body)) = Inr req \<and>
         ?whole req v)"
    for verdict reasons ps os v
    using fetch_event [OF assms(1,2) v] same that(4,5)
    by (intro exI [of _ "fetch_record px ctx repo verdict reasons ps os"]) (simp add: fetch_record_def)
  have "read_limited (int max_request_bytes + 1) body = Inr (src_bytes body)"
    using assms(6,7) by (simp add: read_limited_def read_all_def)
  then have run: "protected_upload_pack px deny ctx repo (src_bytes body) w = (w', e)"
    using assms(3,7,8) by (simp add: upload_pack_def)
  show ?thesis
  proof (cases rule: protected_cases [OF run])
    case (1 v reason)
    then show ?thesis by (intro audit [OF 1(1) 1(4,5)]) auto
  next
    case (2 req m1 m' c' res err v)
    have same: "w_events v = w_events w" "w_alerts v = w_alerts w" using 2(3) by simp_all
    show ?thesis
    proof (cases err)
      case None
      then have w': "w' = audit_fetch px ctx repo (fst (fetch_verdict res)) (snd (fetch_verdict res))
          (fr_paths res) (fr_oids res) v" "e = None" using 2(4,5) by simp_all
      have "?whole req v" if "clean_result res"
        using serve_enforced_whole [OF assms(4,5) 2(2) [unfolded None] that] 2(3,6) by auto
      then show ?thesis
        using fetch_verdict_cases [of res] w'(2) 2(1)
        by (intro audit [OF w'(1) same]) (auto simp: clean_result_def)
    next
      case (Some x)
      then have "w' = audit_fetch px ctx repo ''deny'' [''upload-pack enforce failed''] [] [] v"
        using 2(5) by simp
      then show ?thesis by (intro audit [OF _ same]) auto
    qed
  qed
qed

definition open_proxy :: "unit proxy" where
  "open_proxy = fetch_proxy\<lparr>px_read_deny := Some (new_matcher [''private/**''])\<rparr>"

theorem fetch_audited_witness:
  "\<exists>ev req m out. (let w' = fst (upload_pack open_proxy (Some ''bot'') ''r''
        (bytes_source (fetch_body [''filter''] oid_c)) demo_world) in
     w_events w' = [ev] \<and> ae_agent ev = ''bot'' \<and> ae_verdict ev = ''allow'' \<and> w_alerts w' = [] \<and>
     wout (w_client w') = out \<and>
     parse_upload_pack_request 65520 (bytes_source (fetch_body [''filter''] oid_c)) = Inr req \<and>
     answered wire_gogit fetch_env (new_matcher [''private/**'']) req m fresh_writer out)"
proof -
  let ?body = "bytes_source (fetch_body [''filter''] oid_c)"
  let ?run = "upload_pack open_proxy (Some ''bot'') ''r'' ?body demo_world"
  obtain w' e where run: "?run = (w', e)" by fastforce
  have p: "px_audit open_proxy = Some (\<lambda>e. None)" "px_alert open_proxy = Some (\<lambda>a. None)"
    "px_read_deny open_proxy = Some (new_matcher [''private/**''])" "px_gogit open_proxy = wire_gogit"
    "px_env open_proxy = fetch_env" "w_client demo_world = fresh_writer"
    by (simp_all add: open_proxy_def fetch_proxy_def demo_proxy_def demo_world_def)
  have len: "length (src_bytes ?body) \<le> max_request_bytes" by code_simp
  have "map ae_verdict (w_events (fst ?run)) = [''allow'']" by code_simp
  then have "map ae_verdict (w_events w') = [''allow'']" unfolding run by simp
  moreover have "w_events demo_world = []" "w_alerts demo_world = []" "wout fresh_writer = []"
    by (simp_all add: demo_world_def fresh_writer_def)
  moreover have "g_omax wire_gogit = 65520" by (simp add: wire_gogit_def)
  ultimately show ?thesis
    using fetch_audited [OF p(1-3) _ _ _ len run] wire_gogit_ok fetch_reads_only
    unfolding p run Let_def by (auto simp: bytes_source_sel agent_name_def)
qed

text \<open>A fetch request over the size cap is refused whether or not read protection is on:
  nothing is sent upstream, written to the agent, done in the mirror or recorded.\<close>

lemma fetch_oversized:
  assumes "length (src_bytes body) > max_request_bytes"
  shows "\<exists>e. upload_pack px ctx repo body w = (w, Some e)"
proof (cases "read_limited (int max_request_bytes + 1) body")
  case (Inl x)
  then show ?thesis by (simp add: upload_pack_def)
next
  case (Inr buf)
  then have "length buf = Suc max_request_bytes"
    using assms by (auto simp: read_limited_def read_all_def split: if_splits)
  then show ?thesis using Inr by (simp add: upload_pack_def)
qed

end
