(* ===== verification/Fronts.thy ===== *)
theory Fronts
  imports SshFront PushProps FetchProps
begin

text \<open>
  The two git legs together. The locale \<open>git_leg\<close> states what a frontend owes the proxy behind
  it: a request that is not admitted (not authenticated, not routed, or denied by the access
  decision) leaves the mirror, the upstream and the records alone, and an admitted one is at
  most one run of the proxy's push or fetch path, for the agent and repository it was admitted
  for. The lemmas on what reaches the upstream are proved once in the locale; the HTTP and the
  SSH frontend are its interpretations.
\<close>

section \<open>The contract of a leg\<close>

text \<open>Two worlds that differ at most in what the client received.\<close>

definition quiet :: "'r world \<Rightarrow> 'r world \<Rightarrow> bool" where
  "quiet w' w \<longleftrightarrow> w_mirror w' = w_mirror w \<and> w_sent w' = w_sent w \<and>
     w_events w' = w_events w \<and> w_alerts w' = w_alerts w"

lemma quiet_refl [simp]: "quiet w w"
  by (simp add: quiet_def)

lemma quiet_trans [trans]: "quiet a b \<Longrightarrow> quiet b c \<Longrightarrow> quiet a c"
  by (simp add: quiet_def)

lemma quiet_client [simp]: "quiet (fst (on_client g w)) w"
  by (simp add: quiet_def)

definition proxy_run :: "'r proxy \<Rightarrow> bool \<Rightarrow> string option \<Rightarrow> string \<Rightarrow> source \<Rightarrow> 'r world \<Rightarrow> 'r world" where
  "proxy_run px write ctx repo body w =
     fst (if write then receive_pack px ctx repo body w else upload_pack px ctx repo body w)"

lemma upload_pack_sent:
  "w_sent (fst (upload_pack px ctx repo body w)) = w_sent w \<or>
   (\<exists>buf. w_sent (fst (upload_pack px ctx repo body w)) = w_sent w @ [(''git-upload-pack'', repo, buf)])"
proof -
  have "w_sent (fst (protected_upload_pack px deny ctx repo buf w)) = w_sent w" for deny buf
  proof -
    obtain w' e where run: "protected_upload_pack px deny ctx repo buf w = (w', e)" by fastforce
    show ?thesis using run by (cases rule: protected_cases [OF run]) auto
  qed
  then show ?thesis
    by (auto simp: upload_pack_def relay_upload_pack_def Let_def split: sum.splits option.splits)
qed

locale git_leg =
  fixes proxy :: "'r proxy"
    and creds :: "(string \<Rightarrow> credentials option) option"
    and public :: "(string \<Rightarrow> bool) option"
    and admits :: "'q \<Rightarrow> (string option \<times> string \<times> bool) option"
    and step :: "'q \<Rightarrow> 'r world \<Rightarrow> 'r world"
  assumes access: "admits q = Some (ctx, repo, write) \<Longrightarrow> decide creds public repo write = DecisionAllow"
    and refused: "admits q = None \<Longrightarrow> quiet (step q w) w"
    and served: "admits q = Some (ctx, repo, write) \<Longrightarrow> quiet (step q w) w \<or>
      (\<exists>body v. quiet v w \<and> quiet (step q w) (proxy_run proxy write ctx repo body v))"
begin

lemma push_needs_credential:
  assumes "admits q = Some (ctx, repo, True)"
  shows "\<exists>lookup c. creds = Some lookup \<and> lookup repo = Some c"
  using access [OF assms] by (auto simp: decide_def split: if_splits option.splits)

lemma sent_cases:
  assumes "(''git-receive-pack'', r, buf) \<in> set (drop (length (w_sent w)) (w_sent (step q w)))"
  obtains ctx repo body v where "admits q = Some (ctx, repo, True)" and "quiet v w"
    and "w_sent (step q w) = w_sent (fst (receive_pack proxy ctx repo body v))"
proof -
  have "\<not> quiet (step q w) w" using assms by (auto simp: quiet_def)
  then obtain ctx repo wr where a: "admits q = Some (ctx, repo, wr)"
    using refused by (cases "admits q") auto
  then obtain body v where v: "quiet v w" "quiet (step q w) (proxy_run proxy wr ctx repo body v)"
    using served \<open>\<not> quiet (step q w) w\<close> by blast
  have wr
  proof (rule ccontr)
    assume "\<not> wr"
    then have "w_sent (step q w) = w_sent (fst (upload_pack proxy ctx repo body v))"
      using v(2) by (simp add: quiet_def proxy_run_def)
    then show False
      using assms upload_pack_sent [of proxy ctx repo body v] v(1) by (auto simp: quiet_def)
  qed
  then show ?thesis using that a v by (simp add: quiet_def proxy_run_def)
qed

text \<open>Every push the leg lets through was inspected for the agent and repository it was admitted for.\<close>

lemma push_enforced:
  assumes "px_engine proxy = Some eng" and "px_opener proxy = Some opener"
    and new: "(''git-receive-pack'', r, buf) \<in> set (drop (length (w_sent w)) (w_sent (step q w)))"
  shows "\<exists>ctx lookup c req pid m' dec.
    admits q = Some (ctx, r, True) \<and> creds = Some lookup \<and> lookup r = Some c \<and>
    inspected proxy eng opener ctx r buf req (w_mirror w) pid m' dec None \<and>
    (d_verdict dec = VerdictAllow \<or> px_dry_run proxy)"
proof -
  obtain ctx repo body v where a: "admits q = Some (ctx, repo, True)" "quiet v w"
      "w_sent (step q w) = w_sent (fst (receive_pack proxy ctx repo body v))"
    using sent_cases [OF new] .
  obtain v' e where run: "receive_pack proxy ctx repo body v = (v', e)" by fastforce
  have "w_sent v' \<noteq> w_sent v" using new a(2,3) run by (auto simp: quiet_def)
  from forwarded_inspected [OF assms(1,2) run this] obtain req pid m' dec where
    f: "inspected proxy eng opener ctx repo (src_bytes body) req (w_mirror v) pid m' dec None"
      "d_verdict dec = VerdictAllow \<or> px_dry_run proxy"
      "w_sent v' = w_sent v @ [(''git-receive-pack'', repo, src_bytes body)]" by blast
  have eq: "r = repo" "buf = src_bytes body" "w_mirror v = w_mirror w"
    using new a run f(3) by (auto simp: quiet_def)
  obtain lookup c where "creds = Some lookup" "lookup repo = Some c"
    using push_needs_credential [OF a(1)] by blast
  then show ?thesis using a(1) f(1,2) unfolding eq by blast
qed

end

section \<open>The HTTP leg\<close>

definition http_target :: "'r http_front \<Rightarrow> http_request \<Rightarrow> (string \<times> bool) option" where
  "http_target f r =
     (case parse_path (hq_path r) of
        None \<Rightarrow> None
      | Some (repo, endpoint) \<Rightarrow>
          Some (repo_path (hf_repos f) repo,
                if endpoint = ''/info/refs'' then query_get (hq_raw_query r) ''service'' = ''git-receive-pack''
                else endpoint = ''/git-receive-pack''))"

definition http_admits :: "'r http_front \<Rightarrow> http_request \<Rightarrow> (string option \<times> string \<times> bool) option" where
  "http_admits f r =
     (case (case hf_auth f of None \<Rightarrow> Some None
            | Some auth \<Rightarrow> (case http_authenticate auth r of Inl e \<Rightarrow> None | Inr a \<Rightarrow> Some (Some a))) of
        None \<Rightarrow> None
      | Some ctx \<Rightarrow>
          (case http_target f r of
             None \<Rightarrow> None
           | Some (repo, write) \<Rightarrow>
               if decide (hf_creds f) (hf_public f) repo write = DecisionDeny then None
               else Some (ctx, repo, write)))"

lemma exchange_world [simp]:
  "hx_world (write_header code x) = hx_world x" "hx_world (add_header k v x) = hx_world x"
  "hx_world (fst (on_world g x)) = fst (g (hx_world x))"
  "hx_gets (write_header code x) = hx_gets x" "hx_gets (add_header k v x) = hx_gets x"
  "hx_gets (fst (on_world g x)) = hx_gets x"
  by (simp_all add: write_header_def add_header_def on_world_def Let_def split: prod.splits)

lemma write_body_quiet [simp]:
  "quiet (hx_world (write_body b x)) (hx_world x)" "hx_gets (write_body b x) = hx_gets x"
  by (simp_all add: write_body_def)

lemma http_error_quiet [simp]:
  "quiet (hx_world (http_error msg code x)) (hx_world x)" "hx_gets (http_error msg code x) = hx_gets x"
proof -
  let ?x = "write_header code (x\<lparr>hx_header := (hx_header x)(''Content-Length'' := None,
              ''Content-Type'' := Some [''text/plain; charset=utf-8''],
              ''X-Content-Type-Options'' := Some [''nosniff''])\<rparr>)"
  have "quiet (hx_world (write_body (msg @ [NL]) ?x)) (hx_world ?x)" by (rule write_body_quiet)
  moreover have "hx_world ?x = hx_world x" by simp
  ultimately show "quiet (hx_world (http_error msg code x)) (hx_world x)"
    by (simp only: http_error_def)
  show "hx_gets (http_error msg code x) = hx_gets x" by (simp add: http_error_def)
qed

lemma send_get_world: "send_get f rq x = (x1, a) \<Longrightarrow> hx_world x1 = hx_world x"
  by (auto simp: send_get_def)

lemma error_after_get:
  "send_get f rq x = (x1, a) \<Longrightarrow> quiet (hx_world (http_error msg code x1)) (hx_world x)"
  using http_error_quiet(1) [of msg code x1] by (simp add: send_get_world)

lemma info_refs_protected_quiet: "quiet (hx_world (info_refs_protected f repo x)) (hx_world x)"
proof -
  have page: "quiet (hx_world (write_body b (write_header n (add_header k v x1)))) (hx_world x)"
    if "send_get f rq x = (x1, a)" for b n k v x1 a rq
    using write_body_quiet(1) [of b "write_header n (add_header k v x1)"] send_get_world [OF that] by simp
  show ?thesis
    unfolding info_refs_protected_def deny_repo_def Let_def
    by (auto split: option.splits prod.splits sum.splits intro: error_after_get page)
qed

lemma info_refs_quiet: "quiet (hx_world (info_refs f repo r x)) (hx_world x)"
proof -
  have page: "quiet (hx_world (copy_body b (write_header n (x1\<lparr>hx_header := h\<rparr>)))) (hx_world x)"
    if "send_get f rq x = (x1, a)" for b n h x1 a rq
    using write_body_quiet(1) [of "src_bytes b" "write_header n (x1\<lparr>hx_header := h\<rparr>)"] send_get_world [OF that]
    by (simp add: copy_body_def)
  show ?thesis
    unfolding info_refs_def deny_repo_def Let_def
    by (auto split: option.splits prod.splits sum.splits
             intro: error_after_get page info_refs_protected_quiet)
qed

text \<open>A service run: refused, or a run of the proxy, perhaps followed by an error page.\<close>

lemma handle_service_quiet:
  assumes "service = ''git-upload-pack'' \<or> service = ''git-receive-pack''"
  shows "quiet (hx_world (handle_service f ctx repo service ctype r x)) (hx_world x) \<or>
    (\<exists>body. quiet (hx_world (handle_service f ctx repo service ctype r x))
       (proxy_run (hf_proxy f) (service = ''git-receive-pack'') ctx repo body (hx_world x)))"
proof (cases "decide (hf_creds f) (hf_public f) repo (service = ''git-receive-pack'') = DecisionDeny")
  case True
  then show ?thesis by (simp add: handle_service_def deny_repo_def)
next
  case ok: False
  show ?thesis
  proof (cases "request_body f r")
    case (Inl e)
    then show ?thesis using ok by (simp add: handle_service_def)
  next
    case (Inr body)
    let ?g = "if service = ''git-upload-pack'' then upload_pack (hf_proxy f) ctx repo body
              else if service = ''git-receive-pack'' then receive_pack (hf_proxy f) ctx repo body
              else (\<lambda>w. (w, None))"
    obtain x1 wrote e where o: "on_world ?g (add_header ''Content-Type'' ctype x) = (x1, wrote, e)"
      by (metis prod_cases3)
    have x1: "hx_world x1 = proxy_run (hf_proxy f) (service = ''git-receive-pack'') ctx repo body (hx_world x)"
      using exchange_world(3) [of ?g "add_header ''Content-Type'' ctype x"] assms
      by (auto simp: o proxy_run_def)
    have "handle_service f ctx repo service ctype r x =
        (case e of None \<Rightarrow> x1 | Some msg \<Rightarrow> if wrote then x1 else http_error msg 502 x1)"
      using ok Inr o by (simp add: handle_service_def split: option.splits)
    then have "quiet (hx_world (handle_service f ctx repo service ctype r x)) (hx_world x1)"
      by (simp split: option.splits)
    then show ?thesis unfolding x1 by blast
  qed
qed

lemma http_admits_Some:
  "http_admits f r = Some (ctx, repo, wr) \<Longrightarrow>
   http_target f r = Some (repo, wr) \<and> decide (hf_creds f) (hf_public f) repo wr = DecisionAllow \<and>
   (hf_auth f = None \<and> ctx = None \<or>
    (\<exists>auth a. hf_auth f = Some auth \<and> http_authenticate auth r = Inr a \<and> ctx = Some a))"
  by (cases "decide (hf_creds f) (hf_public f) repo wr")
     (auto simp: http_admits_def split: option.splits sum.splits if_splits)

text \<open>The responses to a request that is not admitted.\<close>

definition refusals :: "'r http_front \<Rightarrow> http_request \<Rightarrow> 'r exchange \<Rightarrow> 'r exchange set" where
  "refusals f r x =
     {http_error ''unauthorized'' 401 (add_header ''Www-Authenticate'' ''Bearer'' x), not_found x, deny_repo x}"

lemma parse_path_endpoint:
  assumes "parse_path p = Some (repo, ep)"
  obtains "ep = ''/info/refs''" | "ep = ''/git-upload-pack''" | "ep = ''/git-receive-pack''"
proof -
  have "ep \<in> set endpoints" using assms find_member [of "has_suffix p" endpoints ep]
    by (auto simp: parse_path_def)
  then show thesis using that by (auto simp: endpoints_def)
qed

lemma route_unknown: "http_target f r = None \<Longrightarrow> route f ctx r x = not_found x"
  by (simp add: http_target_def route_def split: option.splits prod.splits)

lemma route_denied:
  assumes "http_target f r = Some (repo, wr)" and "decide (hf_creds f) (hf_public f) repo wr = DecisionDeny"
  shows "route f ctx r x = deny_repo x"
proof -
  obtain raw ep where p: "parse_path (hq_path r) = Some (raw, ep)"
    using assms(1) by (auto simp: http_target_def split: option.splits)
  show ?thesis using assms p
    by (cases rule: parse_path_endpoint [OF p])
       (simp_all add: http_target_def route_def info_refs_def handle_service_def Let_def)
qed

lemma http_refused_response: "http_admits f r = None \<Longrightarrow> handle f r x \<in> refusals f r x"
  by (auto simp: http_admits_def handle_def refusals_def route_denied route_unknown
        split: option.splits sum.splits if_splits)

lemma refusals_quiet: "x' \<in> refusals f r x \<Longrightarrow> quiet (hx_world x') (hx_world x) \<and> hx_gets x' = hx_gets x"
  using http_error_quiet [of "''unauthorized''" 401 "add_header ''Www-Authenticate'' ''Bearer'' x"]
  by (auto simp: refusals_def not_found_def deny_repo_def)

lemma route_served:
  assumes "http_target f r = Some (repo, wr)"
  shows "quiet (hx_world (route f ctx r x)) (hx_world x) \<or>
    (\<exists>body. quiet (hx_world (route f ctx r x)) (proxy_run (hf_proxy f) wr ctx repo body (hx_world x)))"
proof -
  obtain raw ep where p: "parse_path (hq_path r) = Some (raw, ep)"
    using assms(1) by (auto simp: http_target_def split: option.splits)
  show ?thesis
    using assms p handle_service_quiet [of "''git-upload-pack''" f ctx repo _ r x]
      handle_service_quiet [of "''git-receive-pack''" f ctx repo _ r x]
    by (cases rule: parse_path_endpoint [OF p])
       (simp_all add: http_target_def route_def Let_def info_refs_quiet)
qed

lemma handle_admitted: "http_admits f r = Some (ctx, repo, wr) \<Longrightarrow> handle f r x = route f ctx r x"
  by (auto simp: handle_def dest: http_admits_Some)

interpretation http: git_leg "hf_proxy f" "hf_creds f" "hf_public f"
  "\<lambda>(r, x). http_admits f r" "\<lambda>(r, x) w. hx_world (handle f r (x\<lparr>hx_world := w\<rparr>))"
  for f :: "'r http_front"
proof (unfold_locales, goal_cases)
  case (1 q ctx repo wr)
  then show ?case by (auto simp: split_beta dest: http_admits_Some)
next
  case (2 q w)
  then show ?case
    using refusals_quiet [OF http_refused_response [of f "fst q" "(snd q)\<lparr>hx_world := w\<rparr>"]]
    by (simp add: split_beta)
next
  case (3 q ctx repo wr w)
  then have a: "http_admits f (fst q) = Some (ctx, repo, wr)" by (simp add: split_beta)
  show ?case
    using route_served [OF conjunct1 [OF http_admits_Some [OF a]], of ctx "(snd q)\<lparr>hx_world := w\<rparr>"]
      handle_admitted [OF a]
    by (auto simp: split_beta intro: exI [of _ w])
qed

section \<open>The SSH leg\<close>

definition session_agent :: "(string \<rightharpoonup> string) option \<Rightarrow> string" where
  "session_agent perms =
     (case perms of None \<Rightarrow> [] | Some e \<Rightarrow> (case e ''agent'' of None \<Rightarrow> [] | Some a \<Rightarrow> a))"

definition exec_target :: "'r ssh_front \<Rightarrow> ssh_request \<Rightarrow> (string \<times> string) option" where
  "exec_target f req =
     (case parse_ssh_string (sr_payload req) of
        Some (cmd, True) \<Rightarrow>
          (case parse_exec_command cmd of
             None \<Rightarrow> None | Some (service, repo) \<Rightarrow> Some (service, repo_path (sf_repos f) repo))
      | _ \<Rightarrow> None)"

definition ssh_admits ::
  "'r ssh_front \<Rightarrow> (string \<rightharpoonup> string) option \<Rightarrow> ssh_request \<Rightarrow> (string option \<times> string \<times> bool) option" where
  "ssh_admits f perms req =
     (case exec_target f req of
        None \<Rightarrow> None
      | Some (service, repo) \<Rightarrow>
          if decide (sf_creds f) (sf_public f) repo (service = ''git-receive-pack'') = DecisionDeny then None
          else Some (Some (session_agent perms), repo, service = ''git-receive-pack''))"

definition exec_world ::
  "'r ssh_front \<Rightarrow> (string \<rightharpoonup> string) option \<times> ssh_request \<times> source \<times> 'r session \<Rightarrow> 'r world \<Rightarrow> 'r world" where
  "exec_world f q w =
     (case q of (perms, req, stdin, s) \<Rightarrow>
        (case handle_exec f perms req stdin (s\<lparr>ss_world := w\<rparr>) of None \<Rightarrow> w | Some s' \<Rightarrow> ss_world s'))"

lemma exec_loop_service: "exec_loop svcs cmd = Some (svc, repo) \<Longrightarrow> svc \<in> set svcs"
  by (induction svcs) (auto simp: Let_def split: if_splits)

lemma exec_service:
  assumes "parse_exec_command cmd = Some (svc, repo)"
  obtains "svc = ''git-upload-pack''" | "svc = ''git-receive-pack''"
  using exec_loop_service [OF assms [unfolded parse_exec_command_def]] that by auto

lemma parse_exec_nil: "parse_exec_command [] = None"
  by code_simp

lemma session_world [simp]:
  "ss_world (reply b s) = ss_world s" "ss_world (send_exit_status n s) = ss_world s"
  "ss_world (to_stderr m s) = ss_world s" "ss_world (fail_session m s) = ss_world s"
  "ss_world (fst (on_session g s)) = fst (g (ss_world s))"
  "ss_lists (reply b s) = ss_lists s" "ss_lists (send_exit_status n s) = ss_lists s"
  "ss_lists (to_stderr m s) = ss_lists s" "ss_lists (fail_session m s) = ss_lists s"
  "ss_lists (fst (on_session g s)) = ss_lists s"
  "ss_exit (reply b s) = ss_exit s" "ss_exit (send_exit_status n s) = ss_exit s @ [n]"
  "ss_exit (to_stderr m s) = ss_exit s" "ss_exit (fail_session m s) = ss_exit s @ [1]"
  "ss_exit (fst (on_session g s)) = ss_exit s"
  by (simp_all add: reply_def send_exit_status_def to_stderr_def fail_session_def on_session_def
        Let_def split: prod.splits)

lemma session_error_quiet [simp]:
  "quiet (ss_world (write_session_error G svc m s)) (ss_world s)"
  "quiet (ss_world (session_failed G svc s)) (ss_world s)"
  "ss_lists (write_session_error G svc m s) = ss_lists s"
  "ss_exit (write_session_error G svc m s) = ss_exit s"
  by (simp_all add: write_session_error_def session_failed_def)

lemma on_session_world: "on_session g s = (s', r) \<Longrightarrow> ss_world s' = fst (g (ss_world s))"
  using session_world(5) [of g s] by simp

lemma on_session_client_quiet:
  "on_session (on_client g) s = (s', r) \<Longrightarrow> quiet (ss_world s') (ss_world s)"
  using session_world(5) [of "on_client g" s] by simp

lemma write_advertisement_quiet:
  "write_advertisement f svc repo s = (s', e) \<Longrightarrow> quiet (ss_world s') (ss_world s)"
  using on_session_client_quiet [of _ "s\<lparr>ss_lists := ss_lists s @ [(repo, svc)]\<rparr>"]
  unfolding write_advertisement_def Let_def
  by (fastforce split: sum.splits prod.splits option.splits simp del: wwrite.simps)

lemma run_git_session_served:
  assumes "svc = ''git-upload-pack'' \<or> svc = ''git-receive-pack''"
  shows "quiet (ss_world (fst (run_git_session f ctx svc repo stdin s))) (ss_world s) \<or>
    (\<exists>body v. quiet v (ss_world s) \<and>
       quiet (ss_world (fst (run_git_session f ctx svc repo stdin s)))
         (proxy_run (sf_proxy f) (svc = ''git-receive-pack'') ctx repo body v))"
proof -
  let ?G = "px_gogit (sf_proxy f)"
  obtain s1 e1 where ad: "write_advertisement f svc repo s = (s1, e1)" by fastforce
  note q1 = write_advertisement_quiet [OF ad]
  show ?thesis
  proof (cases e1)
    case (Some e)
    then show ?thesis
      using ad quiet_trans [OF session_error_quiet(2) q1] by (simp add: run_git_session_def)
  next
    case None
    let ?run = "if svc = ''git-upload-pack'' then
        (case read_upload_pack_request (g_omax ?G) stdin of
           Inl e \<Rightarrow> (s1, Some e)
         | Inr body \<Rightarrow> on_session (upload_pack (sf_proxy f) ctx repo (bytes_source body)) s1)
      else if svc = ''git-receive-pack'' then on_session (receive_pack (sf_proxy f) ctx repo stdin) s1
      else (s1, None)"
    obtain s2 e2 where r: "?run = (s2, e2)" by fastforce
    have fin: "quiet (ss_world (fst (run_git_session f ctx svc repo stdin s))) (ss_world s2)"
      using ad None r by (cases e2) (simp_all add: run_git_session_def)
    have "ss_world s2 = ss_world s1 \<or>
        (\<exists>body. ss_world s2 = proxy_run (sf_proxy f) (svc = ''git-receive-pack'') ctx repo body (ss_world s1))"
    proof (cases "svc = ''git-upload-pack''")
      case True
      show ?thesis
      proof (cases "read_upload_pack_request (g_omax ?G) stdin")
        case (Inr b)
        then have "on_session (upload_pack (sf_proxy f) ctx repo (bytes_source b)) s1 = (s2, e2)"
          using True r by simp
        from on_session_world [OF this] show ?thesis using True by (auto simp: proxy_run_def)
      qed (use True r in simp)
    next
      case False
      then have "on_session (receive_pack (sf_proxy f) ctx repo stdin) s1 = (s2, e2)"
        using r assms by simp
      from on_session_world [OF this] show ?thesis using False assms by (auto simp: proxy_run_def)
    qed
    then show ?thesis
    proof
      assume "ss_world s2 = ss_world s1"
      then show ?thesis using quiet_trans [OF fin] q1 by simp
    next
      assume "\<exists>body. ss_world s2 = proxy_run (sf_proxy f) (svc = ''git-receive-pack'') ctx repo body (ss_world s1)"
      then show ?thesis using fin q1 by metis
    qed
  qed
qed

text \<open>An exec request that is not admitted never leads to ref discovery or to the proxy.\<close>

lemma denied_quiet [simp]:
  "quiet (ss_world (write_session_error G svc m (reply b s))) (ss_world s)"
  using session_error_quiet(1) [of G svc m "reply b s"] by simp

lemma exec_refused:
  assumes "ssh_admits f perms req = None" and "handle_exec f perms req stdin s = Some s'"
  shows "quiet (ss_world s') (ss_world s) \<and> ss_lists s' = ss_lists s \<and> ss_exit s' = ss_exit s @ [1]"
  using assms
  by (auto simp: handle_exec_def ssh_admits_def exec_target_def Let_def parse_exec_nil
        split: option.splits prod.splits if_splits bool.splits)

text \<open>
  What a refused exec request is answered: a constant line on standard error (a command that is no
  git command is quoted back), or for a denied fetch the constant ERR line in the git stream.
\<close>

definition fatal_line :: "string \<Rightarrow> string" where
  "fatal_line msg = ''fatal: '' @ msg @ [NL]"

definition exec_refusals :: "ssh_request \<Rightarrow> (string \<times> string) set" where
  "exec_refusals req =
     {(fatal_line ''sshfront: empty or malformed exec command'', []),
      (fatal_line deny_reason_ssh, []), ([], err_bytes deny_reason_ssh)} \<union>
     {(fatal_line (''sshfront: refusing unknown command: '' @ go_quote cmd), []) | cmd.
        parse_ssh_string (sr_payload req) = Some (cmd, True) \<and> parse_exec_command cmd = None}"

lemma session_error_text:
  assumes "gogit_ok G" and "wsched (w_client (ss_world s)) = []"
  shows "ss_stderr (write_session_error G ''git-receive-pack'' deny_reason_ssh s) = ss_stderr s @ fatal_line deny_reason_ssh"
    and "w_client (ss_world (write_session_error G ''git-receive-pack'' deny_reason_ssh s)) = w_client (ss_world s)"
    and "ss_stderr (write_session_error G ''git-upload-pack'' deny_reason_ssh s) = ss_stderr s"
    and "wout (w_client (ss_world (write_session_error G ''git-upload-pack'' deny_reason_ssh s))) =
      wout (w_client (ss_world s)) @ err_bytes deny_reason_ssh"
proof -
  have "length deny_reason_ssh \<le> 1000" by (simp add: deny_reason_ssh_def)
  note err = refusal_good [OF assms this]
  show "ss_stderr (write_session_error G ''git-receive-pack'' deny_reason_ssh s) = ss_stderr s @ fatal_line deny_reason_ssh"
    "w_client (ss_world (write_session_error G ''git-receive-pack'' deny_reason_ssh s)) = w_client (ss_world s)"
    "ss_stderr (write_session_error G ''git-upload-pack'' deny_reason_ssh s) = ss_stderr s"
    "wout (w_client (ss_world (write_session_error G ''git-upload-pack'' deny_reason_ssh s))) =
      wout (w_client (ss_world s)) @ err_bytes deny_reason_ssh"
    by (simp_all add: write_session_error_def to_stderr_def fatal_line_def on_session_def on_client_def err)
qed

lemma exec_refused_text:
  assumes "ssh_admits f perms req = None" and "handle_exec f perms req stdin s = Some s'"
    and "gogit_ok (px_gogit (sf_proxy f))" and "wsched (w_client (ss_world s)) = []"
  shows "\<exists>err out. (err, out) \<in> exec_refusals req \<and> ss_stderr s' = ss_stderr s @ err \<and>
    wout (w_client (ss_world s')) = wout (w_client (ss_world s)) @ out"
proof -
  let ?s = "reply True s"
  have same: "ss_world ?s = ss_world s" "ss_stderr ?s = ss_stderr s" by (simp_all add: reply_def)
  have failed: ?thesis if "s' = fail_session msg ?s" and "(fatal_line msg, []) \<in> exec_refusals req" for msg
    using that by (intro exI [of _ "fatal_line msg"] exI [of _ "[]"])
      (simp add: fail_session_def send_exit_status_def to_stderr_def fatal_line_def same)
  obtain cmd parsed where p: "parse_ssh_string (sr_payload req) = Some (cmd, parsed)"
    using assms(2) by (auto simp: handle_exec_def Let_def split: option.splits)
  show ?thesis
  proof (cases "\<not> parsed \<or> cmd = []")
    case True
    then show ?thesis
      using assms(2) p by (intro failed [of "''sshfront: empty or malformed exec command''"])
        (auto simp: handle_exec_def exec_refusals_def Let_def)
  next
    case False
    show ?thesis
    proof (cases "parse_exec_command cmd")
      case None
      then show ?thesis
        using assms(2) p False by (intro failed [of "''sshfront: refusing unknown command: '' @ go_quote cmd"])
          (auto simp: handle_exec_def exec_refusals_def Let_def)
    next
      case (Some q)
      obtain svc repo where q: "q = (svc, repo)" by fastforce
      have svc: "svc = ''git-upload-pack'' \<or> svc = ''git-receive-pack''"
        using exec_service Some q by blast
      have "decide (sf_creds f) (sf_public f) (repo_path (sf_repos f) repo) (svc = ''git-receive-pack'') = DecisionDeny"
        using assms(1) p False Some q by (auto simp: ssh_admits_def exec_target_def split: if_splits)
      then have s': "s' = send_exit_status 1 (write_session_error (px_gogit (sf_proxy f)) svc deny_reason_ssh ?s)"
        using assms(2) p False Some q by (auto simp: handle_exec_def Let_def)
      have w: "wsched (w_client (ss_world ?s)) = []" using assms(4) same by simp
      note said = session_error_text [OF assms(3) w, unfolded same]
      have exit: "ss_stderr (send_exit_status 1 t) = ss_stderr t" "ss_world (send_exit_status 1 t) = ss_world t"
        for t :: "'a session" by (simp_all add: send_exit_status_def)
      show ?thesis using svc
      proof
        assume "svc = ''git-upload-pack''"
        then show ?thesis unfolding s' exit using said(3,4)
          by (intro exI [of _ "[]"] exI [of _ "err_bytes deny_reason_ssh"]) (simp add: exec_refusals_def)
      next
        assume "svc = ''git-receive-pack''"
        then show ?thesis unfolding s' exit using said(1,2)
          by (intro exI [of _ "fatal_line deny_reason_ssh"] exI [of _ "[]"]) (simp add: exec_refusals_def)
      qed
    qed
  qed
qed

lemma exec_admitted:
  assumes "ssh_admits f perms req = Some (ctx, repo, wr)"
  obtains svc where "svc = ''git-upload-pack'' \<or> svc = ''git-receive-pack''" "wr = (svc = ''git-receive-pack'')"
    "decide (sf_creds f) (sf_public f) repo wr = DecisionAllow" "ctx = Some (session_agent perms)"
    "handle_exec f perms req stdin s = Some (fst (run_git_session f ctx svc repo stdin (reply True s)))"
proof -
  obtain cmd svc raw where p: "parse_ssh_string (sr_payload req) = Some (cmd, True)"
      "parse_exec_command cmd = Some (svc, raw)" "repo = repo_path (sf_repos f) raw"
      "wr = (svc = ''git-receive-pack'')" "ctx = Some (session_agent perms)"
      "decide (sf_creds f) (sf_public f) repo wr \<noteq> DecisionDeny"
    using assms by (auto simp: ssh_admits_def exec_target_def split: option.splits bool.splits if_splits)
  moreover have "cmd \<noteq> []" using p(2) parse_exec_nil by auto
  ultimately have "handle_exec f perms req stdin s = Some (fst (run_git_session f ctx svc repo stdin (reply True s)))"
    by (simp add: handle_exec_def Let_def session_agent_def)
  moreover have "svc = ''git-upload-pack'' \<or> svc = ''git-receive-pack''"
    using exec_service [OF p(2)] by blast
  moreover have "decide (sf_creds f) (sf_public f) repo wr = DecisionAllow"
    using p(6) by (cases "decide (sf_creds f) (sf_public f) repo wr") auto
  ultimately show thesis using that p(4,5) by blast
qed

interpretation ssh: git_leg "sf_proxy f" "sf_creds f" "sf_public f"
  "\<lambda>(perms, req, stdin, s). ssh_admits f perms req" "exec_world f"
  for f :: "'r ssh_front"
proof (unfold_locales, goal_cases)
  case (1 q ctx repo wr)
  then show ?case by (auto simp: split_beta elim: exec_admitted)
next
  case (2 q w)
  then show ?case
    using exec_refused [of f "fst q" "fst (snd q)" "fst (snd (snd q))" "(snd (snd (snd q)))\<lparr>ss_world := w\<rparr>"]
    by (auto simp: exec_world_def split_beta split: option.splits)
next
  case (3 q ctx repo wr w)
  let ?s = "(snd (snd (snd q)))\<lparr>ss_world := w\<rparr>"
  have a: "ssh_admits f (fst q) (fst (snd q)) = Some (ctx, repo, wr)" using 3 by (simp add: split_beta)
  obtain svc where svc: "svc = ''git-upload-pack'' \<or> svc = ''git-receive-pack''" "wr = (svc = ''git-receive-pack'')"
      "handle_exec f (fst q) (fst (snd q)) (fst (snd (snd q))) ?s =
         Some (fst (run_git_session f ctx svc repo (fst (snd (snd q))) (reply True ?s)))"
    using exec_admitted [OF a] by metis
  show ?case
    using run_git_session_served [OF svc(1), of f ctx repo "fst (snd (snd q))" "reply True ?s"]
    by (simp add: exec_world_def split_beta svc(2,3))
qed

text \<open>A session either only refuses requests, or ends with one exec request.\<close>

lemma session_exec:
  "handle_session f perms stdin reqs s = Some s' \<Longrightarrow>
   ss_world s' = ss_world s \<or>
   (\<exists>req s0. ss_world s0 = ss_world s \<and> handle_exec f perms req stdin s0 = Some s')"
proof (induction reqs arbitrary: s)
  case (Cons req reqs)
  show ?case
  proof (cases "sr_type req = ''exec''")
    case True
    then show ?thesis using Cons.prems by auto
  next
    case False
    then have "handle_session f perms stdin reqs (reply False s) = Some s'" using Cons.prems by simp
    from Cons.IH [OF this] show ?thesis by simp
  qed
qed simp

section \<open>Agreement of the legs\<close>

text \<open>The command git sends for an \<open>ssh://\<close> URL.\<close>

definition git_command :: "string \<Rightarrow> string \<Rightarrow> string" where
  "git_command svc repo = svc @ '' '' @ [CHR 0x27] @ ''/'' @ repo @ [CHR 0x27]"

lemma quote_text: "text_char CHR 0x27" "text_char CHR ''g''"
  by (simp_all add: text_char_def)

lemma exec_loop_hit:
  "cmd \<noteq> svc \<Longrightarrow> has_prefix cmd (svc @ [SP]) \<Longrightarrow> trim_space (trim_prefix cmd (svc @ [SP])) = arg \<Longrightarrow>
   unquote_repo arg = path \<Longrightarrow> path \<noteq> [] \<Longrightarrow> trim_prefix path ''/'' = repo \<Longrightarrow> repo \<noteq> [] \<Longrightarrow>
   exec_loop (svc # svcs) cmd = Some (svc, repo)"
  by (simp add: Let_def)

lemma exec_loop_miss:
  "cmd \<noteq> svc \<Longrightarrow> \<not> has_prefix cmd (svc @ [SP]) \<Longrightarrow> exec_loop (svc # svcs) cmd = exec_loop svcs cmd"
  by simp

lemma parse_git_command:
  assumes "svc \<in> {''git-upload-pack'', ''git-receive-pack''}" and "repo \<noteq> []"
  shows "parse_exec_command (git_command svc repo) = Some (svc, repo)"
proof -
  let ?arg = "[CHR 0x27] @ ''/'' @ repo @ [CHR 0x27]"
  have cmd: "git_command svc repo = svc @ [SP] @ ?arg" by (simp add: git_command_def)
  obtain t where "svc = CHR ''g'' # t" using assms(1) by auto
  then have trim: "trim_space (git_command svc repo) = git_command svc repo"
    using quote_text unfolding git_command_def
    by (intro trim_space_ends [of "CHR ''g''" "CHR 0x27" _ _ "svc @ '' '' @ [CHR 0x27] @ ''/'' @ repo"]) auto
  have "trim_space ?arg = ?arg"
    by (rule trim_space_ends [OF quote_text(1) quote_text(1), of _ "''/'' @ repo @ [CHR 0x27]" "[CHR 0x27] @ ''/'' @ repo"])
       simp_all
  then have arg: "trim_space (trim_prefix (git_command svc repo) (svc @ [SP])) = ?arg"
    using trim_prefix_append [of "svc @ [SP]" ?arg] unfolding cmd by simp
  have path: "unquote_repo ?arg = ''/'' @ repo" by (simp add: unquote_repo_def)
  have pre: "has_prefix (git_command svc repo) (svc @ [SP])" "git_command svc repo \<noteq> svc"
    using has_prefix_append [of "svc @ [SP]" ?arg] unfolding cmd by simp_all
  have hit: "exec_loop (svc # svcs) (git_command svc repo) = Some (svc, repo)" for svcs
    using exec_loop_hit [OF pre(2,1) arg path _ trim_prefix_append assms(2)] by simp
  show ?thesis
  proof (cases "svc = ''git-upload-pack''")
    case True
    then show ?thesis unfolding parse_exec_command_def trim using hit by simp
  next
    case False
    then have svc: "svc = ''git-receive-pack''" using assms(1) by simp
    have "\<not> has_prefix (git_command svc repo) (''git-upload-pack'' @ [SP])"
      "git_command svc repo \<noteq> ''git-upload-pack''"
      unfolding svc by (simp_all add: git_command_def has_prefix_def)
    from exec_loop_miss [OF this(2,1)] show ?thesis
      unfolding parse_exec_command_def trim using hit [of "[]"] svc by simp
  qed
qed

lemma same_length_suffix: "length p = length q \<Longrightarrow> has_suffix (t @ p) q \<longleftrightarrow> p = q"
  by (auto simp: has_suffix_iff)

lemma parse_service_path:
  assumes "svc \<in> {''git-upload-pack'', ''git-receive-pack''}"
  shows "parse_path (''/'' @ repo @ ''/'' @ svc) = Some (repo, ''/'' @ svc)"
proof -
  let ?path = "''/'' @ repo @ ''/'' @ svc"
  have "has_suffix ?path (''/'' @ svc)" by (auto simp: has_suffix_iff)
  moreover have "\<not> has_suffix ?path ''/info/refs''"
    using assms same_length_suffix [of _ "''/info/refs''" "''/'' @ repo @ ''/git-u''"]
      same_length_suffix [of _ "''/info/refs''" "''/'' @ repo @ ''/git-re''"] by auto
  moreover have "svc = ''git-receive-pack'' \<Longrightarrow> \<not> has_suffix ?path ''/git-upload-pack''"
    using same_length_suffix [of "''git-receive-pack''" "''/git-upload-pack''" "''/'' @ repo @ ''/''"] by simp
  ultimately have "find (has_suffix ?path) endpoints = Some (''/'' @ svc)"
    using assms by (auto simp: endpoints_def)
  moreover have "take (length ?path - length (''/'' @ svc)) ?path = ''/'' @ repo" by simp
  ultimately show ?thesis
    using trim_prefix_append [of "''/''" repo] by (simp add: parse_path_def)
qed

lemma parse_payload:
  "length cmd + 4 < 2 ^ 32 \<Longrightarrow> parse_ssh_string (put32 (length cmd) @ cmd) = Some (cmd, True)"
  by (subst parse_ssh_string_short)
     (auto simp: put32_def be32_put32 [unfolded put32_def, simplified] unat_of_nat)

end
