(* ===== verification/FrontProps.thy ===== *)
theory FrontProps
  imports Fronts
begin

text \<open>
  The properties of the two frontends: what an agent must present for a push to reach the
  upstream over HTTP and over SSH, what a refused request gets, the agreement of the two legs,
  and the properties of the vault and of repository matching they rest on.
\<close>

section \<open>Concrete frontends\<close>

definition demo_vault :: vault where
  "demo_vault =
     (case load_vault Map.empty
        [\<lparr>pf_name = ''main'', pf_description = ''d'', pf_username = ''u'', pf_password = ''p'', pf_token = [],
          pf_repos = [''r'']\<rparr>] of
        (ws, Inr v) \<Rightarrow> v | _ \<Rightarrow> empty_vault)"

definition demo_tokens :: "(string \<times> string) list" where
  "demo_tokens = [(''tok'', ''bot'')]"

definition demo_client :: http_client where
  "demo_client = \<lparr>hc_url_error = (\<lambda>u. None), hc_do = (\<lambda>rq. Inl ''down'')\<rparr>"

definition demo_http :: "unit http_front" where
  "demo_http =
     \<lparr>hf_url = ''https://up'', hf_proxy = demo_proxy [] False, hf_repos = Map.empty,
      hf_client = demo_client, hf_gunzip = Inr, hf_auth = Some (token_authenticate demo_tokens),
      hf_creds = Some (credentials_for demo_vault), hf_public = None, hf_read_deny = None\<rparr>"

definition demo_exchange :: "unit exchange" where
  "demo_exchange = \<lparr>hx_world = demo_world, hx_status = None, hx_header = Map.empty, hx_gets = []\<rparr>"

definition demo_post :: http_request where
  "demo_post =
     \<lparr>hq_path = ''/r/git-receive-pack'', hq_raw_query = [], hq_authorization = ''Bearer tok'',
      hq_encoding = [], hq_body = bytes_source demo_push\<rparr>"

section \<open>Pushes\<close>

text \<open>C6: over HTTP, a push reaches the upstream only when the request carries a configured
  bearer token, the vault has a usable credential for the repository, and the push was
  inspected, for the agent of that token and for that repository, and allowed (or cleanly denied
  in dry-run).\<close>

theorem http_push_enforced:
  assumes "hf_auth f = Some (token_authenticate tokens)" and "hf_creds f = Some (credentials_for vault)"
    and "px_engine (hf_proxy f) = Some eng" and "px_opener (hf_proxy f) = Some opener"
    and "(''git-receive-pack'', repo, buf) \<in>
      set (drop (length (w_sent (hx_world x))) (w_sent (hx_world (handle f r x))))"
  shows "\<exists>token agent user secret req pid m' dec.
    has_prefix (hq_authorization r) ''Bearer '' \<and> token = trim_space (drop 7 (hq_authorization r)) \<and>
    (token, agent) \<in> set tokens \<and>
    upstream_basic (hf_creds f) repo = Some (user, secret) \<and> secret \<noteq> [] \<and>
    inspected (hf_proxy f) eng opener (Some agent) repo buf req (w_mirror (hx_world x)) pid m' dec None \<and>
    (d_verdict dec = VerdictAllow \<or> px_dry_run (hf_proxy f))"
proof -
  obtain ctx lookup c req pid m' dec where p: "http_admits f r = Some (ctx, repo, True)"
      "inspected (hf_proxy f) eng opener ctx repo buf req (w_mirror (hx_world x)) pid m' dec None"
      "d_verdict dec = VerdictAllow \<or> px_dry_run (hf_proxy f)"
    using http.push_enforced [where q = "(r, x)" and w = "hx_world x", OF assms(3,4), simplified, OF assms(5)]
    by blast
  obtain agent where a: "http_authenticate (token_authenticate tokens) r = Inr agent" "ctx = Some agent"
      "decide (hf_creds f) (hf_public f) repo True = DecisionAllow"
    using http_admits_Some [OF p(1)] assms(1) by auto
  then have "has_prefix (hq_authorization r) ''Bearer ''"
      "token_authenticate tokens (trim_space (drop 7 (hq_authorization r))) = Inr agent"
    by (auto simp: http_authenticate_def Let_def eval_nat_numeral split: if_splits)
  moreover note by_token.resolves [OF this(2)]
  moreover obtain user secret where "upstream_basic (hf_creds f) repo = Some (user, secret)" "secret \<noteq> []"
    using stored.write_authenticated a(3) unfolding assms(2) by blast
  ultimately show ?thesis using p(2,3) unfolding a(2) by blast
qed

theorem http_push_enforced_witness:
  "\<exists>agent user secret req pid m' dec.
    (''tok'', agent) \<in> set demo_tokens \<and>
    upstream_basic (hf_creds demo_http) ''r'' = Some (user, secret) \<and> secret \<noteq> [] \<and>
    inspected (hf_proxy demo_http) (new_engine CollectAll []) (\<lambda>repo m. (m, None)) (Some agent) ''r''
      demo_push req (w_mirror demo_world) pid m' dec None \<and> d_verdict dec = VerdictAllow"
proof -
  have "w_sent (hx_world (handle demo_http demo_post demo_exchange)) = [(''git-receive-pack'', ''r'', demo_push)]"
    by code_simp
  then have new: "(''git-receive-pack'', ''r'', demo_push) \<in> set (drop (length (w_sent (hx_world demo_exchange)))
      (w_sent (hx_world (handle demo_http demo_post demo_exchange))))"
    by (simp add: demo_exchange_def demo_world_def)
  have "trim_space (drop 7 (hq_authorization demo_post)) = ''tok''" by code_simp
  moreover have "px_dry_run (hf_proxy demo_http) = False" by (simp add: demo_http_def demo_proxy_def)
  moreover have "w_mirror (hx_world demo_exchange) = w_mirror demo_world" by (simp add: demo_exchange_def)
  ultimately show ?thesis
    using http_push_enforced [OF _ _ _ _ new, of demo_tokens demo_vault "new_engine CollectAll []"
        "\<lambda>repo m. (m, None)"]
    by (simp add: demo_http_def demo_proxy_def)
qed

text \<open>C7: over SSH, a push reaches the upstream only in a session whose public key is authorized
  for an agent, when the vault has a usable credential for the repository the command names, and
  the push was inspected for that agent and repository and allowed (or cleanly denied in
  dry-run).\<close>

theorem ssh_push_enforced:
  assumes "new_keyauth parse fp authorized = Inr keys" and "sf_auth f = key_authenticate keys"
    and "public_key_callback fp f key = Inr perms" and "sf_creds f = Some (credentials_for vault)"
    and "px_engine (sf_proxy f) = Some eng" and "px_opener (sf_proxy f) = Some opener"
    and "handle_session f (Some perms) stdin reqs s = Some s'"
    and "(''git-receive-pack'', repo, buf) \<in>
      set (drop (length (w_sent (ss_world s))) (w_sent (ss_world s')))"
  shows "\<exists>agent line pk user secret req pid m' dec.
    (agent, line) \<in> set authorized \<and> parse line = Inr pk \<and> fp pk = fp key \<and>
    upstream_basic (sf_creds f) repo = Some (user, secret) \<and> secret \<noteq> [] \<and>
    inspected (sf_proxy f) eng opener (Some agent) repo buf req (w_mirror (ss_world s)) pid m' dec None \<and>
    (d_verdict dec = VerdictAllow \<or> px_dry_run (sf_proxy f))"
proof -
  obtain agent where agent: "key_authenticate keys (fp key) = Inr agent" "session_agent (Some perms) = agent"
    using assms(2,3) by (auto simp: public_key_callback_def session_agent_def split: sum.splits)
  have "fp key \<noteq> []" using agent(1) by (auto simp: key_authenticate_def)
  then obtain line pk where pk: "(agent, line) \<in> set authorized" "parse line = Inr pk" "fp pk = fp key"
    using new_keyauth_exact [OF assms(1)] agent(1) by metis
  obtain req0 s0 where run: "handle_exec f (Some perms) req0 stdin s0 = Some s'" "ss_world s0 = ss_world s"
    using session_exec [OF assms(7)] assms(8) by auto
  then have ex: "exec_world f (Some perms, req0, stdin, s0) (ss_world s) = ss_world s'"
    by (auto simp: exec_world_def simp flip: run(2))
  obtain ctx req pid m' dec where p: "ssh_admits f (Some perms) req0 = Some (ctx, repo, True)"
      "inspected (sf_proxy f) eng opener ctx repo buf req (w_mirror (ss_world s)) pid m' dec None"
      "d_verdict dec = VerdictAllow \<or> px_dry_run (sf_proxy f)"
    using ssh.push_enforced [where q = "(Some perms, req0, stdin, s0)" and w = "ss_world s",
        OF assms(5,6), unfolded ex, simplified, OF assms(8)] by blast
  have "ctx = Some agent" "decide (sf_creds f) (sf_public f) repo True = DecisionAllow"
    using exec_admitted [OF p(1)] agent(2) by metis+
  moreover obtain user secret where "upstream_basic (sf_creds f) repo = Some (user, secret)" "secret \<noteq> []"
    using stored.write_authenticated calculation(2) unfolding assms(4) by blast
  ultimately show ?thesis using pk p(2,3) by blast
qed

definition demo_key :: "string \<Rightarrow> go_error + string" where
  "demo_key line = (if line = ''bad'' then Inl ''bad key'' else Inr line)"

definition demo_keys :: "string \<rightharpoonup> string" where
  "demo_keys = (case new_keyauth demo_key (\<lambda>k. k) [(''bot'', ''k1'')] of Inr m \<Rightarrow> m | Inl e \<Rightarrow> Map.empty)"

definition demo_refs :: string where
  "demo_refs = pkt (''# service=git-receive-pack'' @ [NL]) @ ''0000'' @
     pkt (oid_a @ '' refs/heads/x'' @ [NUL] @ ''report-status'' @ [NL]) @ ''0000''"

definition demo_ssh :: "unit ssh_front" where
  "demo_ssh =
     \<lparr>sf_up = \<lparr>up_list = (\<lambda>repo svc. Inr (bytes_source demo_refs)),
              up_upload = (\<lambda>repo b. Inl ''down''), up_receive = (\<lambda>repo b. Inl ''down'')\<rparr>,
      sf_proxy = demo_proxy [] False, sf_repos = Map.empty, sf_auth = key_authenticate demo_keys,
      sf_creds = Some (credentials_for demo_vault), sf_public = None\<rparr>"

definition demo_session :: "unit session" where
  "demo_session = \<lparr>ss_world = demo_world, ss_stderr = [], ss_exit = [], ss_replies = [], ss_lists = []\<rparr>"

definition exec_request :: "string \<Rightarrow> ssh_request" where
  "exec_request cmd = \<lparr>sr_type = ''exec'', sr_payload = put32 (length cmd) @ cmd\<rparr>"

definition demo_requests :: "ssh_request list" where
  "demo_requests = [\<lparr>sr_type = ''env'', sr_payload = []\<rparr>, exec_request (''git-receive-pack '' @ [CHR 0x27] @ ''/r'' @ [CHR 0x27])]"

theorem ssh_push_enforced_witness:
  "\<exists>agent line pk user secret req pid m' dec.
    (agent, line) \<in> set [(''bot'', ''k1'')] \<and> demo_key line = Inr pk \<and> pk = ''k1'' \<and>
    upstream_basic (sf_creds demo_ssh) ''r'' = Some (user, secret) \<and> secret \<noteq> [] \<and>
    inspected (sf_proxy demo_ssh) (new_engine CollectAll []) (\<lambda>repo m. (m, None)) (Some agent) ''r''
      demo_push req (w_mirror demo_world) pid m' dec None \<and> d_verdict dec = VerdictAllow"
proof -
  have "case handle_session demo_ssh (Some [''agent'' \<mapsto> ''bot'']) (bytes_source demo_push) demo_requests demo_session of
      None \<Rightarrow> False | Some s \<Rightarrow> w_sent (ss_world s) = [(''git-receive-pack'', ''r'', demo_push)]"
    by code_simp
  then obtain s' where run: "handle_session demo_ssh (Some [''agent'' \<mapsto> ''bot'']) (bytes_source demo_push)
      demo_requests demo_session = Some s'" "w_sent (ss_world s') = [(''git-receive-pack'', ''r'', demo_push)]"
    by (auto split: option.splits)
  have "case new_keyauth demo_key (\<lambda>k. k) [(''bot'', ''k1'')] of Inl e \<Rightarrow> False | Inr m \<Rightarrow> True" by code_simp
  then have keys: "new_keyauth demo_key (\<lambda>k. k) [(''bot'', ''k1'')] = Inr demo_keys"
    by (auto simp: demo_keys_def split: sum.splits)
  have "key_authenticate demo_keys ''k1'' = Inr ''bot''" by code_simp
  then have key: "public_key_callback (\<lambda>k. k) demo_ssh ''k1'' = Inr [''agent'' \<mapsto> ''bot'']"
    by (simp add: public_key_callback_def demo_ssh_def)
  have new: "(''git-receive-pack'', ''r'', demo_push) \<in>
      set (drop (length (w_sent (ss_world demo_session))) (w_sent (ss_world s')))"
    using run(2) by (simp add: demo_session_def demo_world_def)
  have "px_dry_run (sf_proxy demo_ssh) = False" by (simp add: demo_ssh_def demo_proxy_def)
  moreover have "w_mirror (ss_world demo_session) = w_mirror demo_world" by (simp add: demo_session_def)
  ultimately show ?thesis
    using ssh_push_enforced [OF keys _ key _ _ _ run(1) new, of demo_vault "new_engine CollectAll []"
        "\<lambda>repo m. (m, None)"]
    by (simp add: demo_ssh_def demo_proxy_def)
qed

section \<open>Refusals and agreement\<close>

lemma http_error_result:
  assumes "hx_status x = None" and "wsched (w_client (hx_world x)) = []"
  shows "hx_status (http_error msg code x) = Some code \<and>
    wout (w_client (hx_world (http_error msg code x))) = wout (w_client (hx_world x)) @ msg @ [NL]"
  using assms
  by (simp add: http_error_def write_body_def write_header_def on_world_def on_client_def Let_def)

lemma unauthorized_status:
  "http_admits f r = None \<Longrightarrow> hf_auth f = Some auth \<Longrightarrow>
   (handle f r x = http_error ''unauthorized'' 401 (add_header ''Www-Authenticate'' ''Bearer'' x) \<longleftrightarrow>
    (\<exists>e. http_authenticate auth r = Inl e)) \<or> hx_status x \<noteq> None \<or> wsched (w_client (hx_world x)) \<noteq> []"
proof (rule ccontr)
  let ?x = "add_header ''Www-Authenticate'' ''Bearer'' x"
  assume a: "http_admits f r = None" "hf_auth f = Some auth"
    and "\<not> ((handle f r x = http_error ''unauthorized'' 401 ?x \<longleftrightarrow>
      (\<exists>e. http_authenticate auth r = Inl e)) \<or> hx_status x \<noteq> None \<or> wsched (w_client (hx_world x)) \<noteq> [])"
  then have x: "hx_status x = None" "wsched (w_client (hx_world x)) = []"
    and ne: "\<not> (handle f r x = http_error ''unauthorized'' 401 ?x \<longleftrightarrow> (\<exists>e. http_authenticate auth r = Inl e))"
    by auto
  have "hx_status ?x = None" using x by (simp add: add_header_def)
  then have "hx_status (http_error ''unauthorized'' 401 ?x) = Some 401"
    using http_error_result [of ?x] x by simp
  moreover have "hx_status (not_found x) = Some 404" "hx_status (deny_repo x) = Some 403"
    using http_error_result [OF x] by (simp_all add: not_found_def deny_repo_def)
  ultimately show False
    using ne a by (auto simp: http_admits_def handle_def route_denied route_unknown
        split: option.splits sum.splits if_splits dest: arg_cong [of _ _ hx_status])
qed

text \<open>C10: a request that is not admitted has no effect behind the frontend: over HTTP no request
  goes to the upstream, the mirror and the records stay as they are, and the agent gets a 401
  exactly when its authentication fails and else a 404 or 403, each with a constant body; over
  SSH nothing is fetched or run, the session ends with status 1, and the client is told one of
  three constant refusals, or, when its command is no git command, that command quoted back.\<close>

theorem front_refused:
  assumes "hf_auth f = Some auth" and "http_admits f r = None" and "hx_status x = None"
    and "wsched (w_client (hx_world x)) = []"
    and "ssh_admits g perms req = None" and "handle_exec g perms req stdin s = Some s'"
    and "gogit_ok (px_gogit (sf_proxy g))" and "wsched (w_client (ss_world s)) = []"
  shows "quiet (hx_world (handle f r x)) (hx_world x) \<and> hx_gets (handle f r x) = hx_gets x \<and>
    (\<exists>code msg. (code, msg) \<in> {(401, ''unauthorized''), (404, ''404 page not found''), (403, deny_body)} \<and>
       hx_status (handle f r x) = Some code \<and>
       wout (w_client (hx_world (handle f r x))) = wout (w_client (hx_world x)) @ msg @ [NL] \<and>
       (code = 401 \<longleftrightarrow> (\<exists>e. http_authenticate auth r = Inl e))) \<and>
    quiet (ss_world s') (ss_world s) \<and> ss_lists s' = ss_lists s \<and> ss_exit s' = ss_exit s @ [1] \<and>
    (\<exists>err out. (err, out) \<in> exec_refusals req \<and> ss_stderr s' = ss_stderr s @ err \<and>
       wout (w_client (ss_world s')) = wout (w_client (ss_world s)) @ out)"
proof -
  let ?x = "add_header ''Www-Authenticate'' ''Bearer'' x"
  have x: "hx_status ?x = None" "w_client (hx_world ?x) = w_client (hx_world x)"
    using assms(3) by (simp_all add: add_header_def)
  note u = http_error_result [of ?x "''unauthorized''" 401, unfolded x(2), OF x(1) assms(4)]
  note e = http_error_result [OF assms(3,4)]
  have r: "handle f r x \<in> refusals f r x" by (rule http_refused_response [OF assms(2)])
  have iff: "handle f r x = http_error ''unauthorized'' 401 ?x \<longleftrightarrow> (\<exists>e. http_authenticate auth r = Inl e)"
    using unauthorized_status [OF assms(2,1)] assms(3,4) by blast
  consider "handle f r x = http_error ''unauthorized'' 401 ?x" | "handle f r x = not_found x"
    | "handle f r x = deny_repo x" using r by (auto simp: refusals_def)
  then have "\<exists>code msg. (code, msg) \<in> {(401, ''unauthorized''), (404, ''404 page not found''), (403, deny_body)} \<and>
       hx_status (handle f r x) = Some code \<and>
       wout (w_client (hx_world (handle f r x))) = wout (w_client (hx_world x)) @ msg @ [NL] \<and>
       (code = 401 \<longleftrightarrow> (\<exists>e. http_authenticate auth r = Inl e))"
  proof cases
    case 1
    then show ?thesis using u iff by (intro exI [of _ 401] exI [of _ "''unauthorized''"]) simp
  next
    case 2
    then have "hx_status (handle f r x) = Some 404" using e by (simp add: not_found_def)
    then have "handle f r x \<noteq> http_error ''unauthorized'' 401 ?x" using u by auto
    then show ?thesis using 2 e iff
      by (intro exI [of _ 404] exI [of _ "''404 page not found''"]) (simp add: not_found_def)
  next
    case 3
    then have "hx_status (handle f r x) = Some 403" using e by (simp add: deny_repo_def)
    then have "handle f r x \<noteq> http_error ''unauthorized'' 401 ?x" using u by auto
    then show ?thesis using 3 e iff by (intro exI [of _ 403] exI [of _ deny_body]) (simp add: deny_repo_def)
  qed
  then show ?thesis using refusals_quiet [OF r] exec_refused [OF assms(5,6)] exec_refused_text [OF assms(5-8)] by blast
qed

theorem front_refused_witness:
  "quiet (hx_world (handle demo_http (demo_post\<lparr>hq_authorization := ''Bearer x''\<rparr>) demo_exchange)) demo_world \<and>
   hx_gets (handle demo_http (demo_post\<lparr>hq_authorization := ''Bearer x''\<rparr>) demo_exchange) = [] \<and>
   (\<exists>s' err out. handle_exec demo_ssh None (exec_request ''ls'') (bytes_source []) demo_session = Some s' \<and>
      (err, out) \<in> exec_refusals (exec_request ''ls'') \<and> ss_stderr s' = ss_stderr demo_session @ err)"
proof -
  let ?r = "demo_post\<lparr>hq_authorization := ''Bearer x''\<rparr>"
  have "case http_admits demo_http ?r of None \<Rightarrow> True | Some a \<Rightarrow> False" by code_simp
  then have a: "http_admits demo_http ?r = None" by (simp split: option.splits)
  have "case ssh_admits demo_ssh None (exec_request ''ls'') of None \<Rightarrow> True | Some a \<Rightarrow> False" by code_simp
  then have b: "ssh_admits demo_ssh None (exec_request ''ls'') = None" by (simp split: option.splits)
  have "case handle_exec demo_ssh None (exec_request ''ls'') (bytes_source []) demo_session of
      None \<Rightarrow> False | Some s \<Rightarrow> True" by code_simp
  then obtain s' where c: "handle_exec demo_ssh None (exec_request ''ls'') (bytes_source []) demo_session = Some s'"
    by (auto split: option.splits)
  have "hx_status demo_exchange = None" "wsched (w_client (hx_world demo_exchange)) = []"
      "hf_auth demo_http = Some (token_authenticate demo_tokens)" "hx_world demo_exchange = demo_world"
      "hx_gets demo_exchange = []"
    by (simp_all add: demo_exchange_def demo_world_def fresh_writer_def demo_http_def)
  moreover have "gogit_ok (px_gogit (sf_proxy demo_ssh))" "wsched (w_client (ss_world demo_session)) = []"
    using wire_gogit_ok
    by (simp_all add: demo_ssh_def demo_proxy_def demo_session_def demo_world_def fresh_writer_def)
  ultimately show ?thesis
    using front_refused [OF _ a _ _ b c, of "token_authenticate demo_tokens" demo_exchange] c by auto
qed



section \<open>The vault\<close>

text \<open>C31: a repository resolves to the profile with that exact path, and without one to the longest
  wildcard that matches it, the earliest declared among equally long ones; to nothing when no
  pattern matches.\<close>

theorem repo_precedence:
  assumes "new_matcher_of pairs = Inr m"
  shows "(match_repo m repo = Some v \<longleftrightarrow> (\<exists>i. repo_winner pairs repo i \<and> v = pr_value (pairs ! i))) \<and>
    (match_repo m repo = None \<longleftrightarrow> (\<forall>p \<in> set pairs.
       if is_wildcard (pr_pattern p) then \<not> repo_hit (pr_pattern p) repo else pr_pattern p \<noteq> repo))"
  using match_repo_winner [OF assms] match_repo_None [OF assms] by blast

definition demo_pairs :: "nat pair list" where
  "demo_pairs = [\<lparr>pr_pattern = ''o/*'', pr_value = 1\<rparr>, \<lparr>pr_pattern = ''o/x*'', pr_value = 2\<rparr>,
                 \<lparr>pr_pattern = ''o/xy'', pr_value = 3\<rparr>]"

theorem repo_precedence_witness:
  "(\<exists>i. repo_winner demo_pairs ''o/xz'' i \<and> 2 = pr_value (demo_pairs ! i)) \<and>
   (\<exists>i. repo_winner demo_pairs ''o/xy'' i \<and> 3 = pr_value (demo_pairs ! i))"
proof -
  have "case new_matcher_of demo_pairs of Inl e \<Rightarrow> False
      | Inr m \<Rightarrow> match_repo m ''o/xz'' = Some 2 \<and> match_repo m ''o/xy'' = Some 3" by code_simp
  then obtain m where m: "new_matcher_of demo_pairs = Inr m" "match_repo m ''o/xz'' = Some 2"
      "match_repo m ''o/xy'' = Some 3"
    by (auto split: sum.splits)
  then show ?thesis using repo_precedence [OF m(1)] by simp
qed

text \<open>C32: what the vault logs, the error it fails with, and its secret-free views depend on the
  secrets of the profiles only through which of them are set.\<close>

theorem vault_no_leak:
  assumes "list_all2 (same_public env env') ps ps'"
  shows "fst (load_vault env ps) = fst (load_vault env' ps') \<and>
    (case (snd (load_vault env ps), snd (load_vault env' ps')) of
       (Inl e, Inl e') \<Rightarrow> e = e'
     | (Inr v, Inr v') \<Rightarrow> vt_profiles v = vt_profiles v' \<and> vt_wildcards v = vt_wildcards v'
     | _ \<Rightarrow> False)"
proof -
  let ?ld = "\<lparr>ld_vault = empty_vault, ld_seen = {}, ld_pairs = [], ld_log = []\<rparr>"
  obtain a e where a: "load_profiles env ps ?ld = (a, e)" by fastforce
  obtain b e' where b: "load_profiles env' ps' ?ld = (b, e')" by fastforce
  have same: "e = e'" "same_loading a b"
    using load_profiles_same [OF assms, of ?ld ?ld] a b by (simp_all add: same_loading_def)
  show ?thesis
  proof (cases e)
    case (Some m)
    then show ?thesis using a b same by (simp add: load_vault_def same_loading_def)
  next
    case None
    have "map pr_pattern (ld_pairs a) = map pr_pattern (ld_pairs b)"
      using same(2) by (simp add: same_loading_def)
    from add_pairs_same [OF this, of 0 "{}" empty_matcher empty_matcher]
    have "(\<exists>m. new_matcher_of (ld_pairs a) = Inl m \<and> new_matcher_of (ld_pairs b) = Inl m) \<or>
        (\<exists>m m'. new_matcher_of (ld_pairs a) = Inr m \<and> new_matcher_of (ld_pairs b) = Inr m')"
      by (auto simp: new_matcher_of_def split: sum.splits)
    then show ?thesis
      using a b same None by (auto simp: load_vault_def same_loading_def)
  qed
qed

definition demo_profile :: "string \<Rightarrow> raw_profile" where
  "demo_profile secret =
     \<lparr>pf_name = ''main'', pf_description = ''d'', pf_username = [], pf_password = [], pf_token = secret,
      pf_repos = [''o/*'']\<rparr>"

theorem vault_no_leak_witness:
  "fst (load_vault Map.empty [demo_profile ''s1'']) = fst (load_vault Map.empty [demo_profile ''s2'']) \<and>
   fst (load_vault Map.empty [demo_profile ''s1'']) \<noteq> []"
proof -
  have "list_all2 (same_public Map.empty Map.empty) [demo_profile ''s1''] [demo_profile ''s2'']"
    by (simp add: same_public_def demo_profile_def resolve_creds_def env_or_def Let_def)
  moreover have "fst (load_vault Map.empty [demo_profile ''s1'']) \<noteq> []" by code_simp
  ultimately show ?thesis using vault_no_leak by blast
qed

end
