(* ===== verification/Scm.thy ===== *)
theory Scm
  imports Prelude
begin

text \<open>
  The capabilities of an SCM provider (\<open>internal/port/upstream.go\<close>, \<open>issues.go\<close>, \<open>checklogs.go\<close>,
  \<open>errors.go\<close>): the operations on pull requests, CI state and issues as the datatype \<open>scm_call\<close>,
  their results with the JSON the broker serializes them to, and the sentinel errors. A provider
  is a function of the calls made so far and the next call, so that its answers may depend on
  its history.
\<close>

section \<open>Errors\<close>

text \<open>
  The class \<open>errors.Is\<close> finds in an error: a sentinel, with the Retry-After value of a
  \<open>RateLimitedError\<close> (empty when the upstream sent none) and the text of a wrapped \<open>ErrUpstream\<close>,
  or none of them.
\<close>

datatype scm_error =
    ErrUnauthorized
  | ErrForbidden
  | ErrNotFound
  | ErrUnprocessable
  | ErrNotMergeable
  | ErrRateLimited string
  | ErrUpstream string
  | ErrNotImplemented
  | OtherError string

section \<open>Results\<close>

record pr =
  pr_number :: int
  pr_url :: string

record pr_state =
  prs_number :: int
  prs_title :: string
  prs_state :: string
  prs_mergeable :: "bool option"
  prs_head :: string
  prs_base :: string
  prs_url :: string

record check_run =
  cr_name :: string
  cr_status :: string
  cr_conclusion :: string

record workflow_run =
  wr_name :: string
  wr_status :: string
  wr_conclusion :: string
  wr_url :: string

record check_summary =
  cs_overall :: string
  cs_checks :: "check_run list"
  cs_workflows :: "workflow_run list"
  cs_unavailable :: bool

record check_log =
  cl_log :: string
  cl_truncated :: bool

record issue =
  is_number :: int
  is_url :: string

record issue_state =
  iss_number :: int
  iss_title :: string
  iss_state :: string
  iss_body :: string
  iss_url :: string
  iss_labels :: "string list"

datatype scm_reply =
    RPR pr
  | RPRState pr_state
  | RPRStates "pr_state list"
  | RDone
  | RChecks check_summary
  | RLog check_log
  | RIssue issue
  | RIssueState issue_state
  | RIssueStates "issue_state list"
  | RLabels "string list"

section \<open>Calls\<close>

text \<open>The methods of \<open>PRSupport\<close>, \<open>CheckLogSupport\<close> and \<open>IssueSupport\<close> with their arguments.\<close>

datatype scm_call =
    BranchProtection string string
  | EnsurePR string string string string string
  | GetPR string int
  | ListPRs string string
  | MergePR string int string
  | CommentPR string int string
  | ReviewPR string int string string
  | Checks string string
  | CheckLog string string string int
  | CreateIssue string string string
  | GetIssue string int
  | ListIssues string string
  | CommentIssue string int string
  | CloseIssue string int
  | ReopenIssue string int
  | EditIssue string int string string
  | AddLabels string int "string list"
  | RemoveLabel string int string

type_synonym scm = "scm_call list \<Rightarrow> scm_call \<Rightarrow> scm_error + scm_reply"

text \<open>The repository of a call, and the name of the operation the broker serves with it.\<close>

fun call_repo :: "scm_call \<Rightarrow> string" where
  "call_repo (BranchProtection r _) = r"
| "call_repo (EnsurePR r _ _ _ _) = r"
| "call_repo (GetPR r _) = r"
| "call_repo (ListPRs r _) = r"
| "call_repo (MergePR r _ _) = r"
| "call_repo (CommentPR r _ _) = r"
| "call_repo (ReviewPR r _ _ _) = r"
| "call_repo (Checks r _) = r"
| "call_repo (CheckLog r _ _ _) = r"
| "call_repo (CreateIssue r _ _) = r"
| "call_repo (GetIssue r _) = r"
| "call_repo (ListIssues r _) = r"
| "call_repo (CommentIssue r _ _) = r"
| "call_repo (CloseIssue r _) = r"
| "call_repo (ReopenIssue r _) = r"
| "call_repo (EditIssue r _ _ _) = r"
| "call_repo (AddLabels r _ _) = r"
| "call_repo (RemoveLabel r _ _) = r"

fun call_op :: "scm_call \<Rightarrow> string" where
  "call_op (BranchProtection _ _) = ''branch.protection''"
| "call_op (EnsurePR _ _ _ _ _) = ''pr.create''"
| "call_op (GetPR _ _) = ''pr.get''"
| "call_op (ListPRs _ _) = ''pr.list''"
| "call_op (MergePR _ _ _) = ''pr.merge''"
| "call_op (CommentPR _ _ _) = ''pr.comment''"
| "call_op (ReviewPR _ _ _ _) = ''pr.review''"
| "call_op (Checks _ _) = ''ci.status''"
| "call_op (CheckLog _ _ _ _) = ''ci.log''"
| "call_op (CreateIssue _ _ _) = ''issue.create''"
| "call_op (GetIssue _ _) = ''issue.get''"
| "call_op (ListIssues _ _) = ''issue.list''"
| "call_op (CommentIssue _ _ _) = ''issue.comment''"
| "call_op (CloseIssue _ _) = ''issue.close''"
| "call_op (ReopenIssue _ _) = ''issue.reopen''"
| "call_op (EditIssue _ _ _ _) = ''issue.edit''"
| "call_op (AddLabels _ _ _) = ''issue.label.add''"
| "call_op (RemoveLabel _ _ _) = ''issue.label.remove''"

section \<open>JSON\<close>

text \<open>
  The value \<open>encoding/json\<close> writes for a result, by its struct tags. A nil pointer is null;
  the slices of the program's results are never nil.
\<close>

datatype json =
    JNull
  | JBool bool
  | JNum int
  | JStr string
  | JList "json list"
  | JObj "(string \<times> json) list"

definition json_pr :: "pr \<Rightarrow> json" where
  "json_pr p = JObj [(''number'', JNum (pr_number p)), (''url'', JStr (pr_url p))]"

definition json_pr_state :: "pr_state \<Rightarrow> json" where
  "json_pr_state p =
     JObj [(''number'', JNum (prs_number p)), (''title'', JStr (prs_title p)), (''state'', JStr (prs_state p)),
           (''mergeable'', case prs_mergeable p of None \<Rightarrow> JNull | Some b \<Rightarrow> JBool b),
           (''head'', JStr (prs_head p)), (''base'', JStr (prs_base p)), (''url'', JStr (prs_url p))]"

definition json_check_run :: "check_run \<Rightarrow> json" where
  "json_check_run c =
     JObj [(''name'', JStr (cr_name c)), (''status'', JStr (cr_status c)), (''conclusion'', JStr (cr_conclusion c))]"

definition json_workflow_run :: "workflow_run \<Rightarrow> json" where
  "json_workflow_run w =
     JObj [(''name'', JStr (wr_name w)), (''status'', JStr (wr_status w)),
           (''conclusion'', JStr (wr_conclusion w)), (''url'', JStr (wr_url w))]"

definition json_summary :: "check_summary \<Rightarrow> json" where
  "json_summary s =
     JObj [(''overall'', JStr (cs_overall s)), (''checks'', JList (map json_check_run (cs_checks s))),
           (''workflows'', JList (map json_workflow_run (cs_workflows s))),
           (''checks_unavailable'', JBool (cs_unavailable s))]"

definition json_issue :: "issue \<Rightarrow> json" where
  "json_issue i = JObj [(''number'', JNum (is_number i)), (''url'', JStr (is_url i))]"

definition json_issue_state :: "issue_state \<Rightarrow> json" where
  "json_issue_state i =
     JObj [(''number'', JNum (iss_number i)), (''title'', JStr (iss_title i)), (''state'', JStr (iss_state i)),
           (''body'', JStr (iss_body i)), (''url'', JStr (iss_url i)),
           (''labels'', JList (map JStr (iss_labels i)))]"

fun json_of :: "scm_reply \<Rightarrow> json" where
  "json_of (RPR p) = json_pr p"
| "json_of (RPRState p) = json_pr_state p"
| "json_of (RPRStates ps) = JList (map json_pr_state ps)"
| "json_of RDone = JNull"
| "json_of (RChecks s) = json_summary s"
| "json_of (RLog l) = JObj [(''log'', JStr (cl_log l)), (''truncated'', JBool (cl_truncated l))]"
| "json_of (RIssue i) = json_issue i"
| "json_of (RIssueState i) = json_issue_state i"
| "json_of (RIssueStates is) = JList (map json_issue_state is)"
| "json_of (RLabels ls) = JList (map JStr ls)"

end
