(* ===== verification/Broker.thy ===== *)
theory Broker
  imports Scm HttpFront
begin

text \<open>
  The agent-facing broker (\<open>internal/broker\<close>): authentication and authorization, the seventeen
  operations with their guards, the mapping of provider errors to responses, and the audit of
  every operation. The providers are the parameter \<open>scm\<close> of the theory of that name; the JSON
  decoder of Go's library is a parameter (the string fields of a decoded object by their tag, and
  the label list), and so is the request router of \<open>net/http\<close>: a request carries the pattern
  the router selected and the path values.
\<close>

section \<open>Configuration\<close>

record broker_config =
  bc_agents :: "string list"
  bc_ops :: "string list"
  bc_merge_method :: string
  bc_allow_logs :: bool
  bc_max_log :: int
  bc_agent_repos :: "string \<rightharpoonup> (string \<Rightarrow> bool) option"

record json_api =
  js_strings :: "string \<Rightarrow> go_error + (string \<Rightarrow> string)"
  js_labels :: "string \<Rightarrow> go_error + string list"

record broker =
  bk_prs :: scm
  bk_issues :: "scm option"
  bk_logs :: "scm option"
  bk_max_log :: int
  bk_repos :: "string \<rightharpoonup> string"
  bk_auth :: "(string \<Rightarrow> go_error + string) option"
  bk_audit :: "(audit_event \<Rightarrow> go_error option) option"
  bk_merge_method :: string
  bk_agents :: "string set"
  bk_ops :: "string set"
  bk_agent_repos :: "string \<rightharpoonup> (string \<Rightarrow> bool) option"
  bk_json :: json_api

text \<open>
  \<open>New\<close>. An upstream is what it implements: \<open>PRSupport\<close>, \<open>IssueSupport\<close> and \<open>CheckLogSupport\<close>,
  each or none. Go's type name in the error is left out.
\<close>

record scm_upstream =
  su_prs :: "scm option"
  su_issues :: "scm option"
  su_logs :: "scm option"

definition new_broker ::
  "json_api \<Rightarrow> scm_upstream \<Rightarrow> scm_upstream option \<Rightarrow> (string \<rightharpoonup> string) \<Rightarrow>
   (string \<Rightarrow> go_error + string) option \<Rightarrow> (audit_event \<Rightarrow> go_error option) option \<Rightarrow>
   broker_config \<Rightarrow> go_error + broker" where
  "new_broker js scm_up issue_up repos auth audit cfg =
     (case su_prs scm_up of
        None \<Rightarrow> Inl ''broker: upstream does not implement port.PRSupport; the broker requires an SCM adapter (set upstream.kind: github)''
      | Some prs \<Rightarrow>
          Inr \<lparr>bk_prs = prs,
               bk_issues = (case issue_up of None \<Rightarrow> None | Some u \<Rightarrow> su_issues u),
               bk_logs = (if bc_allow_logs cfg then su_logs scm_up else None),
               bk_max_log = (if bc_max_log cfg \<le> 0 then 256 * 1024 else bc_max_log cfg),
               bk_repos = repos, bk_auth = auth, bk_audit = audit,
               bk_merge_method = (if bc_merge_method cfg = [] then ''merge'' else bc_merge_method cfg),
               bk_agents = set (bc_agents cfg), bk_ops = set (bc_ops cfg),
               bk_agent_repos = bc_agent_repos cfg, bk_json = js\<rparr>)"

section \<open>Requests and responses\<close>

record broker_request =
  bq_pattern :: string
  bq_repo :: string
  bq_number :: string
  bq_ref :: string
  bq_query :: string
  bq_authorization :: string
  bq_body :: source

text \<open>The response and the records of a run; \<open>br_calls\<close> logs the calls to the providers.\<close>

record broker_run =
  br_status :: "nat option"
  br_header :: header
  br_body :: "json option"
  br_events :: "audit_event list"
  br_calls :: "scm_call list"

definition respond_json :: "nat \<Rightarrow> json \<Rightarrow> broker_run \<Rightarrow> broker_run" where
  "respond_json status v s =
     s\<lparr>br_header := header_set (br_header s) ''Content-Type'' ''application/json'',
       br_status := Some status, br_body := Some v\<rparr>"

definition respond_error :: "nat \<Rightarrow> string \<Rightarrow> broker_run \<Rightarrow> broker_run" where
  "respond_error status reason = respond_json status (JObj [(''error'', JStr reason)])"

definition no_content :: "broker_run \<Rightarrow> broker_run" where
  "no_content s = s\<lparr>br_status := Some 204\<rparr>"

definition broker_audit ::
  "broker \<Rightarrow> string \<Rightarrow> string \<Rightarrow> string \<Rightarrow> string \<Rightarrow> string list \<Rightarrow> broker_run \<Rightarrow> broker_run" where
  "broker_audit b agent repo op verdict reasons s =
     (case bk_audit b of
        None \<Rightarrow> s
      | Some sink \<Rightarrow>
          s\<lparr>br_events := br_events s @
              [\<lparr>ae_transport = ''broker'', ae_agent = agent, ae_repo = repo, ae_service = op,
                ae_verdict = verdict, ae_reasons = reasons, ae_refs = [], ae_denied_paths = [],
                ae_denied_oids = [], ae_dry_run = False\<rparr>]\<rparr>)"

text \<open>\<open>writeError\<close>: the status and the reason of a class of error, and a forwarded Retry-After.\<close>

fun error_class :: "scm_error \<Rightarrow> nat \<times> string" where
  "error_class ErrNotFound = (404, ''not found'')"
| "error_class ErrUnauthorized = (502, ''upstream auth'')"
| "error_class ErrForbidden = (403, ''upstream denied'')"
| "error_class ErrNotMergeable = (409, ''not mergeable'')"
| "error_class ErrUnprocessable = (422, ''request unprocessable'')"
| "error_class (ErrRateLimited _) = (429, ''rate limited'')"
| "error_class ErrNotImplemented = (501, ''not implemented'')"
| "error_class (ErrUpstream _) = (502, ''upstream error'')"
| "error_class (OtherError _) = (400, ''bad request'')"

definition write_error :: "scm_error \<Rightarrow> broker_run \<Rightarrow> broker_run \<times> nat \<times> string" where
  "write_error e s =
     (let (status, reason) = error_class e;
          s' = (case e of
                  ErrRateLimited after \<Rightarrow>
                    if after \<noteq> [] then s\<lparr>br_header := header_set (br_header s) ''Retry-After'' after\<rparr> else s
                | _ \<Rightarrow> s) in
      (respond_error status reason s', status, reason))"

definition op_fail :: "broker \<Rightarrow> string \<Rightarrow> string \<Rightarrow> string \<Rightarrow> scm_error \<Rightarrow> broker_run \<Rightarrow> broker_run" where
  "op_fail b agent repo op e s =
     (let (s', status, reason) = write_error e s in broker_audit b agent repo op ''deny'' [reason] s')"

section \<open>Guards\<close>

definition broker_authenticate :: "broker \<Rightarrow> broker_request \<Rightarrow> go_error + string" where
  "broker_authenticate b r =
     (case bk_auth b of
        None \<Rightarrow> Inl ''broker: no authenticator configured''
      | Some auth \<Rightarrow>
          (let h = bq_authorization r in
           if h = [] then Inl ''missing Authorization header''
           else if \<not> has_prefix h ''Bearer '' then Inl ''authorization scheme is not Bearer''
           else auth (trim_prefix h ''Bearer '')))"

definition authorize :: "broker \<Rightarrow> string \<Rightarrow> string \<Rightarrow> string \<Rightarrow> bool" where
  "authorize b agent op repo \<longleftrightarrow>
     (bk_agents b = {} \<or> agent \<in> bk_agents b) \<and> (bk_ops b = {} \<or> op \<in> bk_ops b) \<and>
     (case bk_agent_repos b agent of
        None \<Rightarrow> True
      | Some matcher \<Rightarrow> (case matcher of None \<Rightarrow> False | Some match \<Rightarrow> match repo))"

definition resolve_repo :: "broker \<Rightarrow> string \<Rightarrow> string" where
  "resolve_repo b repo =
     (case bk_repos b repo of Some p \<Rightarrow> if p \<noteq> [] then p else repo | None \<Rightarrow> repo)"

definition auth_ok ::
  "broker \<Rightarrow> string \<Rightarrow> string \<Rightarrow> broker_request \<Rightarrow> broker_run \<Rightarrow> broker_run \<times> string option" where
  "auth_ok b repo op r s =
     (case broker_authenticate b r of
        Inl e \<Rightarrow>
          (broker_audit b [] repo op ''deny'' [''unauthorized'']
             (respond_error 401 ''unauthorized''
               (s\<lparr>br_header := header_set (br_header s) ''Www-Authenticate'' ''Bearer''\<rparr>)), None)
      | Inr agent \<Rightarrow>
          if \<not> authorize b agent op repo then
            (broker_audit b agent repo op ''deny'' [''forbidden''] (respond_error 403 ''forbidden'' s), None)
          else (s, Some agent))"

text \<open>\<open>issuesOK\<close> and \<open>checkLogsOK\<close>: the optional capability, or 501 after the other gates.\<close>

definition capability_ok ::
  "broker \<Rightarrow> scm option \<Rightarrow> string \<Rightarrow> string \<Rightarrow> broker_request \<Rightarrow> broker_run \<Rightarrow>
   broker_run \<times> (string \<times> scm) option" where
  "capability_ok b cap repo op r s =
     (case auth_ok b repo op r s of
        (s1, None) \<Rightarrow> (s1, None)
      | (s1, Some agent) \<Rightarrow>
          (case cap of
             None \<Rightarrow> (op_fail b agent repo op ErrNotImplemented s1, None)
           | Some c \<Rightarrow> (s1, Some (agent, c))))"

definition max_body :: nat where
  "max_body = 1048576"

definition decode_json :: "(string \<Rightarrow> go_error + 'a) \<Rightarrow> 'a \<Rightarrow> broker_request \<Rightarrow> go_error + 'a" where
  "decode_json unmarshal zero r =
     (if length (src_bytes (bq_body r)) > max_body then Inl ''read body: http: request body too large''
      else (case read_all (bq_body r) of
              Inl e \<Rightarrow> Inl (''read body: '' @ e)
            | Inr body \<Rightarrow>
                if body = [] then Inr zero
                else (case unmarshal body of
                        Inl e \<Rightarrow> Inl (''decode body: '' @ e) | Inr v \<Rightarrow> Inr v)))"

section \<open>The shape of an operation\<close>

text \<open>
  Every handler goes through its guards, builds one call from the path, the query and the body, and
  makes it; a failure on the way ends in \<open>op_fail\<close>. \<open>perform\<close> is the end of the handlers, the
  \<open>with_\<close> functions are the guards, which pass on what they read.
\<close>

definition perform ::
  "broker \<Rightarrow> string \<Rightarrow> string \<Rightarrow> string \<Rightarrow> nat \<Rightarrow> scm \<Rightarrow> scm_call \<Rightarrow> broker_run \<Rightarrow> broker_run" where
  "perform b agent repo op status cap c s =
     (let s1 = s\<lparr>br_calls := br_calls s @ [c]\<rparr> in
      case cap (br_calls s) c of
        Inl e \<Rightarrow> op_fail b agent repo op e s1
      | Inr res \<Rightarrow>
          (let s2 = broker_audit b agent repo op ''allow'' [] s1 in
           if status = 204 then no_content s2 else respond_json status (json_of res) s2))"

definition with_agent ::
  "broker \<Rightarrow> string \<Rightarrow> broker_request \<Rightarrow>
   (string \<Rightarrow> string \<Rightarrow> scm \<Rightarrow> broker_run \<Rightarrow> broker_run) \<Rightarrow> broker_run \<Rightarrow> broker_run" where
  "with_agent b op r k s =
     (let repo = resolve_repo b (bq_repo r) in
      case auth_ok b repo op r s of
        (s1, None) \<Rightarrow> s1
      | (s1, Some agent) \<Rightarrow> k agent repo (bk_prs b) s1)"

definition with_capability ::
  "broker \<Rightarrow> scm option \<Rightarrow> string \<Rightarrow> broker_request \<Rightarrow>
   (string \<Rightarrow> string \<Rightarrow> scm \<Rightarrow> broker_run \<Rightarrow> broker_run) \<Rightarrow> broker_run \<Rightarrow> broker_run" where
  "with_capability b cap op r k s =
     (let repo = resolve_repo b (bq_repo r) in
      case capability_ok b cap repo op r s of
        (s1, None) \<Rightarrow> s1
      | (s1, Some (agent, c)) \<Rightarrow> k agent repo c s1)"

definition with_number ::
  "broker \<Rightarrow> string \<Rightarrow> string \<Rightarrow> string \<Rightarrow> string \<Rightarrow> broker_request \<Rightarrow>
   (int \<Rightarrow> broker_run \<Rightarrow> broker_run) \<Rightarrow> broker_run \<Rightarrow> broker_run" where
  "with_number b agent repo op what r k s =
     (case atoi (bq_number r) of
        None \<Rightarrow> op_fail b agent repo op (OtherError (''invalid '' @ what @ '' number'')) s
      | Some n \<Rightarrow> k n s)"

definition with_body ::
  "broker \<Rightarrow> string \<Rightarrow> string \<Rightarrow> string \<Rightarrow> broker_request \<Rightarrow>
   ((string \<Rightarrow> string) \<Rightarrow> broker_run \<Rightarrow> broker_run) \<Rightarrow> broker_run \<Rightarrow> broker_run" where
  "with_body b agent repo op r k s =
     (case decode_json (js_strings (bk_json b)) (\<lambda>_. []) r of
        Inl e \<Rightarrow> op_fail b agent repo op (OtherError e) s
      | Inr fs \<Rightarrow> k fs s)"

section \<open>Pull requests and CI\<close>

definition handle_healthz :: "broker \<Rightarrow> broker_request \<Rightarrow> broker_run \<Rightarrow> broker_run" where
  "handle_healthz b r = respond_json 200 (JObj [(''status'', JStr ''ok'')])"

definition handle_create :: "broker \<Rightarrow> broker_request \<Rightarrow> broker_run \<Rightarrow> broker_run" where
  "handle_create b r =
     (let op = ''pr.create'' in
      with_agent b op r (\<lambda>agent repo prs.
        with_body b agent repo op r (\<lambda>f.
          perform b agent repo op 201 prs
            (EnsurePR repo (f ''head'') (f ''base'') (f ''title'') (f ''body'')))))"

definition handle_list :: "broker \<Rightarrow> broker_request \<Rightarrow> broker_run \<Rightarrow> broker_run" where
  "handle_list b r =
     (let op = ''pr.list'' in
      with_agent b op r (\<lambda>agent repo prs.
        perform b agent repo op 200 prs (ListPRs repo (query_get (bq_query r) ''state''))))"

definition handle_get :: "broker \<Rightarrow> broker_request \<Rightarrow> broker_run \<Rightarrow> broker_run" where
  "handle_get b r =
     (let op = ''pr.get'' in
      with_agent b op r (\<lambda>agent repo prs.
        with_number b agent repo op ''pr'' r (\<lambda>n.
          perform b agent repo op 200 prs (GetPR repo n))))"

definition handle_merge :: "broker \<Rightarrow> broker_request \<Rightarrow> broker_run \<Rightarrow> broker_run" where
  "handle_merge b r =
     (let op = ''pr.merge'' in
      with_agent b op r (\<lambda>agent repo prs.
        with_number b agent repo op ''pr'' r (\<lambda>n.
          with_body b agent repo op r (\<lambda>f.
            let m1 = f ''method'';
                m2 = (if m1 = [] then query_get (bq_query r) ''method'' else m1);
                m3 = (if m2 = [] then bk_merge_method b else m2) in
            perform b agent repo op 204 prs (MergePR repo n m3)))))"

definition handle_comment :: "broker \<Rightarrow> broker_request \<Rightarrow> broker_run \<Rightarrow> broker_run" where
  "handle_comment b r =
     (let op = ''pr.comment'' in
      with_agent b op r (\<lambda>agent repo prs.
        with_number b agent repo op ''pr'' r (\<lambda>n.
          with_body b agent repo op r (\<lambda>f.
            perform b agent repo op 204 prs (CommentPR repo n (f ''body''))))))"

definition handle_review :: "broker \<Rightarrow> broker_request \<Rightarrow> broker_run \<Rightarrow> broker_run" where
  "handle_review b r =
     (let op = ''pr.review'' in
      with_agent b op r (\<lambda>agent repo prs.
        with_number b agent repo op ''pr'' r (\<lambda>n.
          with_body b agent repo op r (\<lambda>f.
            perform b agent repo op 204 prs (ReviewPR repo n (f ''event'') (f ''body''))))))"

definition handle_checks :: "broker \<Rightarrow> broker_request \<Rightarrow> broker_run \<Rightarrow> broker_run" where
  "handle_checks b r =
     (let op = ''ci.status'' in
      with_agent b op r (\<lambda>agent repo prs.
        perform b agent repo op 200 prs (Checks repo (bq_ref r))))"

definition handle_check_log :: "broker \<Rightarrow> broker_request \<Rightarrow> broker_run \<Rightarrow> broker_run" where
  "handle_check_log b r =
     (let op = ''ci.log''; ref = query_get (bq_query r) ''ref''; name = query_get (bq_query r) ''check_name'' in
      with_capability b (bk_logs b) op r (\<lambda>agent repo logs s.
        if ref = [] \<or> name = [] then
          op_fail b agent repo op (OtherError ''ref and check_name query params are required'') s
        else if query_get (bq_query r) ''failed_steps_only'' = ''true'' then
          op_fail b agent repo op ErrNotImplemented s
        else perform b agent repo op 200 logs (CheckLog repo ref name (bk_max_log b)) s))"

section \<open>Issues\<close>

definition handle_create_issue :: "broker \<Rightarrow> broker_request \<Rightarrow> broker_run \<Rightarrow> broker_run" where
  "handle_create_issue b r =
     (let op = ''issue.create'' in
      with_capability b (bk_issues b) op r (\<lambda>agent repo is.
        with_body b agent repo op r (\<lambda>f.
          perform b agent repo op 201 is (CreateIssue repo (f ''title'') (f ''body'')))))"

definition handle_list_issues :: "broker \<Rightarrow> broker_request \<Rightarrow> broker_run \<Rightarrow> broker_run" where
  "handle_list_issues b r =
     (let op = ''issue.list'' in
      with_capability b (bk_issues b) op r (\<lambda>agent repo is.
        perform b agent repo op 200 is (ListIssues repo (query_get (bq_query r) ''state''))))"

definition handle_get_issue :: "broker \<Rightarrow> broker_request \<Rightarrow> broker_run \<Rightarrow> broker_run" where
  "handle_get_issue b r =
     (let op = ''issue.get'' in
      with_capability b (bk_issues b) op r (\<lambda>agent repo is.
        with_number b agent repo op ''issue'' r (\<lambda>n.
          perform b agent repo op 200 is (GetIssue repo n))))"

definition handle_comment_issue :: "broker \<Rightarrow> broker_request \<Rightarrow> broker_run \<Rightarrow> broker_run" where
  "handle_comment_issue b r =
     (let op = ''issue.comment'' in
      with_capability b (bk_issues b) op r (\<lambda>agent repo is.
        with_number b agent repo op ''issue'' r (\<lambda>n.
          with_body b agent repo op r (\<lambda>f.
            perform b agent repo op 204 is (CommentIssue repo n (f ''body''))))))"

definition handle_close_issue :: "broker \<Rightarrow> broker_request \<Rightarrow> broker_run \<Rightarrow> broker_run" where
  "handle_close_issue b r =
     (let op = ''issue.close'' in
      with_capability b (bk_issues b) op r (\<lambda>agent repo is.
        with_number b agent repo op ''issue'' r (\<lambda>n.
          perform b agent repo op 204 is (CloseIssue repo n))))"

definition handle_reopen_issue :: "broker \<Rightarrow> broker_request \<Rightarrow> broker_run \<Rightarrow> broker_run" where
  "handle_reopen_issue b r =
     (let op = ''issue.reopen'' in
      with_capability b (bk_issues b) op r (\<lambda>agent repo is.
        with_number b agent repo op ''issue'' r (\<lambda>n.
          perform b agent repo op 204 is (ReopenIssue repo n))))"

definition handle_edit_issue :: "broker \<Rightarrow> broker_request \<Rightarrow> broker_run \<Rightarrow> broker_run" where
  "handle_edit_issue b r =
     (let op = ''issue.edit'' in
      with_capability b (bk_issues b) op r (\<lambda>agent repo is.
        with_number b agent repo op ''issue'' r (\<lambda>n.
          with_body b agent repo op r (\<lambda>f.
            perform b agent repo op 200 is (EditIssue repo n (f ''title'') (f ''body''))))))"

definition handle_add_labels :: "broker \<Rightarrow> broker_request \<Rightarrow> broker_run \<Rightarrow> broker_run" where
  "handle_add_labels b r =
     (let op = ''issue.label.add'' in
      with_capability b (bk_issues b) op r (\<lambda>agent repo is.
        with_number b agent repo op ''issue'' r (\<lambda>n s.
          (case decode_json (js_labels (bk_json b)) [] r of
             Inl e \<Rightarrow> op_fail b agent repo op (OtherError e) s
           | Inr labels \<Rightarrow> perform b agent repo op 200 is (AddLabels repo n labels) s))))"

definition handle_remove_label :: "broker \<Rightarrow> broker_request \<Rightarrow> broker_run \<Rightarrow> broker_run" where
  "handle_remove_label b r =
     (let op = ''issue.label.remove'' in
      with_capability b (bk_issues b) op r (\<lambda>agent repo is.
        with_number b agent repo op ''issue'' r (\<lambda>n.
          with_body b agent repo op r (\<lambda>f.
            perform b agent repo op 204 is (RemoveLabel repo n (f ''label''))))))"

section \<open>Routes\<close>

definition routes :: "(string \<times> string \<times> (broker \<Rightarrow> broker_request \<Rightarrow> broker_run \<Rightarrow> broker_run)) list" where
  "routes =
     [(''POST /{repo}/prs'', ''pr.create'', handle_create),
      (''GET /{repo}/prs'', ''pr.list'', handle_list),
      (''GET /{repo}/prs/{number}'', ''pr.get'', handle_get),
      (''POST /{repo}/prs/{number}/merge'', ''pr.merge'', handle_merge),
      (''POST /{repo}/prs/{number}/comments'', ''pr.comment'', handle_comment),
      (''POST /{repo}/prs/{number}/reviews'', ''pr.review'', handle_review),
      (''GET /{repo}/checks/{ref...}'', ''ci.status'', handle_checks),
      (''GET /{repo}/checks/log'', ''ci.log'', handle_check_log),
      (''POST /{repo}/issues'', ''issue.create'', handle_create_issue),
      (''GET /{repo}/issues'', ''issue.list'', handle_list_issues),
      (''GET /{repo}/issues/{number}'', ''issue.get'', handle_get_issue),
      (''POST /{repo}/issues/{number}/comments'', ''issue.comment'', handle_comment_issue),
      (''POST /{repo}/issues/{number}/close'', ''issue.close'', handle_close_issue),
      (''POST /{repo}/issues/{number}/reopen'', ''issue.reopen'', handle_reopen_issue),
      (''POST /{repo}/issues/{number}/edit'', ''issue.edit'', handle_edit_issue),
      (''POST /{repo}/issues/{number}/labels'', ''issue.label.add'', handle_add_labels),
      (''POST /{repo}/issues/{number}/labels/remove'', ''issue.label.remove'', handle_remove_label)]"

text \<open>A request: the handler of its pattern; the router answers the others itself.\<close>

definition broker_serve :: "broker \<Rightarrow> broker_request \<Rightarrow> broker_run \<Rightarrow> broker_run" where
  "broker_serve b r s =
     (if bq_pattern r = ''/healthz'' then handle_healthz b r s
      else (case map_of routes (bq_pattern r) of
              None \<Rightarrow> s
            | Some (op, h) \<Rightarrow> h b r s))"

section \<open>What an operation does\<close>

text \<open>
  The outcomes of an operation, over the steps that end it: refused by the authentication or the
  authorization, failed before or in the call, or done.
\<close>

definition provider :: "broker \<Rightarrow> string \<Rightarrow> scm option" where
  "provider b op =
     (if has_prefix op ''issue.'' then bk_issues b else if op = ''ci.log'' then bk_logs b else Some (bk_prs b))"

definition success_status :: "string \<Rightarrow> nat" where
  "success_status op =
     (if op \<in> {''pr.create'', ''issue.create''} then 201
      else if op \<in> {''pr.list'', ''pr.get'', ''ci.status'', ''ci.log'', ''issue.list'', ''issue.get'',
                    ''issue.edit'', ''issue.label.add''} then 200
      else 204)"

inductive op_outcome ::
  "broker \<Rightarrow> string \<Rightarrow> broker_request \<Rightarrow> broker_run \<Rightarrow> broker_run \<Rightarrow> bool"
  for b op r s where
  unauthenticated: "broker_authenticate b r = Inl e \<Longrightarrow>
    op_outcome b op r s
      (broker_audit b [] (resolve_repo b (bq_repo r)) op ''deny'' [''unauthorized'']
        (respond_error 401 ''unauthorized''
          (s\<lparr>br_header := header_set (br_header s) ''Www-Authenticate'' ''Bearer''\<rparr>)))"
| forbidden: "broker_authenticate b r = Inr agent \<Longrightarrow>
    \<not> authorize b agent op (resolve_repo b (bq_repo r)) \<Longrightarrow>
    op_outcome b op r s
      (broker_audit b agent (resolve_repo b (bq_repo r)) op ''deny'' [''forbidden''] (respond_error 403 ''forbidden'' s))"
| invalid: "broker_authenticate b r = Inr agent \<Longrightarrow> authorize b agent op (resolve_repo b (bq_repo r)) \<Longrightarrow>
    op_outcome b op r s (op_fail b agent (resolve_repo b (bq_repo r)) op e s)"
| performed: "broker_authenticate b r = Inr agent \<Longrightarrow> authorize b agent op (resolve_repo b (bq_repo r)) \<Longrightarrow>
    call_repo c = resolve_repo b (bq_repo r) \<Longrightarrow> call_op c = op \<Longrightarrow>
    provider b op = Some cap \<Longrightarrow> status = success_status op \<Longrightarrow>
    op_outcome b op r s (perform b agent (resolve_repo b (bq_repo r)) op status cap c s)"

lemma auth_ok_outcome:
  "auth_ok b (resolve_repo b (bq_repo r)) op r s = (s1, None) \<Longrightarrow> op_outcome b op r s s1"
  "auth_ok b (resolve_repo b (bq_repo r)) op r s = (s1, Some agent) \<Longrightarrow>
   s1 = s \<and> broker_authenticate b r = Inr agent \<and> authorize b agent op (resolve_repo b (bq_repo r))"
  by (auto simp: auth_ok_def split: sum.splits if_splits intro: unauthenticated forbidden)

lemma with_agent_outcome:
  assumes "\<And>agent. broker_authenticate b r = Inr agent \<Longrightarrow> authorize b agent op (resolve_repo b (bq_repo r)) \<Longrightarrow>
    op_outcome b op r s (k agent (resolve_repo b (bq_repo r)) (bk_prs b) s)"
  shows "op_outcome b op r s (with_agent b op r k s)"
  using assms auth_ok_outcome [of b r op s] by (auto simp: with_agent_def Let_def split: prod.splits option.splits)

lemma with_capability_outcome:
  assumes "\<And>agent c. broker_authenticate b r = Inr agent \<Longrightarrow> authorize b agent op (resolve_repo b (bq_repo r)) \<Longrightarrow>
    cap = Some c \<Longrightarrow> op_outcome b op r s (k agent (resolve_repo b (bq_repo r)) c s)"
  shows "op_outcome b op r s (with_capability b cap op r k s)"
  using assms auth_ok_outcome [of b r op s] invalid [of b r _ op s]
  by (auto simp: with_capability_def capability_ok_def Let_def split: prod.splits option.splits)

lemma with_number_outcome:
  assumes "broker_authenticate b r = Inr agent" and "authorize b agent op (resolve_repo b (bq_repo r))"
    and "\<And>n. op_outcome b op r s (k n s)"
  shows "op_outcome b op r s (with_number b agent (resolve_repo b (bq_repo r)) op what r k s)"
  using assms invalid [OF assms(1,2)] by (simp add: with_number_def split: option.splits)

lemma with_body_outcome:
  assumes "broker_authenticate b r = Inr agent" and "authorize b agent op (resolve_repo b (bq_repo r))"
    and "\<And>f. op_outcome b op r s (k f s)"
  shows "op_outcome b op r s (with_body b agent (resolve_repo b (bq_repo r)) op r k s)"
  using assms invalid [OF assms(1,2)] by (simp add: with_body_def split: sum.splits)

lemmas outcome_intros = with_agent_outcome with_capability_outcome with_number_outcome with_body_outcome
  performed invalid

lemma handlers_outcome:
  assumes "(pat, op, h) \<in> set routes"
  shows "op_outcome b op r s (h b r s)"
proof -
  have log: "op_outcome b ''ci.log'' r s (handle_check_log b r s)"
    unfolding handle_check_log_def Let_def by (rule with_capability_outcome) (auto intro!: performed invalid simp: provider_def success_status_def has_prefix_def)
  have labels: "op_outcome b ''issue.label.add'' r s (handle_add_labels b r s)"
    unfolding handle_add_labels_def Let_def
    by (intro with_capability_outcome with_number_outcome) (auto split: sum.splits intro!: performed invalid simp: provider_def success_status_def has_prefix_def)
  show ?thesis
    using assms log labels unfolding routes_def
    by (auto simp: handle_create_def handle_list_def handle_get_def handle_merge_def handle_comment_def
          handle_review_def handle_checks_def handle_create_issue_def handle_list_issues_def
          handle_get_issue_def handle_comment_issue_def handle_close_issue_def handle_reopen_issue_def
          handle_edit_issue_def handle_remove_label_def Let_def provider_def success_status_def has_prefix_def
          intro!: outcome_intros)
qed

inductive_cases op_outcomeE: "op_outcome b op r s s'"

lemma serve_outcome:
  "map_of routes (bq_pattern r) = Some (op, h) \<Longrightarrow> op_outcome b op r s (broker_serve b r s)"
proof -
  assume m: "map_of routes (bq_pattern r) = Some (op, h)"
  have "map_of routes ''/healthz'' = None" by (simp add: routes_def)
  then have "broker_serve b r s = h b r s" using m by (auto simp: broker_serve_def)
  then show ?thesis using handlers_outcome [OF map_of_SomeD [OF m]] by simp
qed

lemma audit_sel [simp]:
  "br_calls (broker_audit b a repo op v rs s) = br_calls s"
  "br_status (broker_audit b a repo op v rs s) = br_status s"
  "br_body (broker_audit b a repo op v rs s) = br_body s"
  "br_calls (respond_json n v' s) = br_calls s" "br_events (respond_json n v' s) = br_events s"
  "br_status (respond_json n v' s) = Some n" "br_body (respond_json n v' s) = Some v'"
  "br_calls (no_content s) = br_calls s" "br_events (no_content s) = br_events s"
  "br_status (no_content s) = Some 204"
  by (simp_all add: broker_audit_def respond_json_def no_content_def split: option.splits)

lemma respond_error_sel [simp]:
  "br_calls (respond_error n m s) = br_calls s" "br_events (respond_error n m s) = br_events s"
  "br_status (respond_error n m s) = Some n" "br_body (respond_error n m s) = Some (JObj [(''error'', JStr m)])"
  by (simp_all add: respond_error_def)

lemma op_fail_sel [simp]:
  "br_calls (op_fail b a repo op e s) = br_calls s"
  "br_status (op_fail b a repo op e s) = Some (fst (error_class e))"
  "br_body (op_fail b a repo op e s) = Some (JObj [(''error'', JStr (snd (error_class e)))])"
  by (simp_all add: op_fail_def write_error_def Let_def split: prod.splits scm_error.splits)

definition broker_event :: "string \<Rightarrow> string \<Rightarrow> string \<Rightarrow> string \<Rightarrow> string list \<Rightarrow> audit_event" where
  "broker_event agent repo op verdict reasons =
     \<lparr>ae_transport = ''broker'', ae_agent = agent, ae_repo = repo, ae_service = op, ae_verdict = verdict,
      ae_reasons = reasons, ae_refs = [], ae_denied_paths = [], ae_denied_oids = [], ae_dry_run = False\<rparr>"

lemma audit_events:
  "bk_audit b = Some sink \<Longrightarrow>
   br_events (broker_audit b a repo op v rs s) = br_events s @ [broker_event a repo op v rs]"
  by (simp add: broker_audit_def broker_event_def)

lemma op_fail_events:
  "bk_audit b = Some sink \<Longrightarrow> br_events (op_fail b a repo op e s) =
   br_events s @ [broker_event a repo op ''deny'' [snd (error_class e)]]"
  by (simp add: op_fail_def write_error_def Let_def audit_events split: prod.splits scm_error.splits)

lemma perform_calls [simp]: "br_calls (perform b a repo op n cap c s) = br_calls s @ [c]"
  by (simp add: perform_def Let_def split: sum.splits)

end
