(* ===== verification/BrokerProps.thy ===== *)
theory BrokerProps
  imports Broker
begin

text \<open>
  The properties of the broker: what a request must pass before a provider is called, and what
  every operation answers and records.
\<close>

definition demo_scm :: scm where
  "demo_scm calls c = (case c of GetPR repo n \<Rightarrow> Inl (ErrUpstream ''status 500'') | _ \<Rightarrow> Inr RDone)"

definition demo_broker :: broker where
  "demo_broker =
     \<lparr>bk_prs = demo_scm, bk_issues = None, bk_logs = None, bk_max_log = 1000,
      bk_repos = [''alias'' \<mapsto> ''o/r''], bk_auth = Some (\<lambda>t. if t = ''tok'' then Inr ''bot'' else Inl ''no''),
      bk_audit = Some (\<lambda>e. None), bk_merge_method = ''merge'', bk_agents = {}, bk_ops = {},
      bk_agent_repos = [''bot'' \<mapsto> Some (\<lambda>r. r = ''o/r'')],
      bk_json = \<lparr>js_strings = (\<lambda>s. Inl ''bad''), js_labels = (\<lambda>s. Inl ''bad'')\<rparr>\<rparr>"

definition demo_merge :: broker_request where
  "demo_merge =
     \<lparr>bq_pattern = ''POST /{repo}/prs/{number}/merge'', bq_repo = ''alias'', bq_number = ''7'', bq_ref = [],
      bq_query = ''method=squash'', bq_authorization = ''Bearer tok'', bq_body = bytes_source []\<rparr>"

definition fresh_run :: broker_run where
  "fresh_run = \<lparr>br_status = None, br_header = Map.empty, br_body = None, br_events = [], br_calls = []\<rparr>"

text \<open>C8: a provider is called only for an agent whose token the authenticator resolves and who is
  authorized for the operation and for the resolved repository; the request makes this one call,
  and it is on that repository.\<close>

theorem broker_gate:
  assumes "br_calls (broker_serve b r s) \<noteq> br_calls s"
  shows "\<exists>agent c. br_calls (broker_serve b r s) = br_calls s @ [c] \<and>
    broker_authenticate b r = Inr agent \<and>
    (bk_agents b \<noteq> {} \<longrightarrow> agent \<in> bk_agents b) \<and> (bk_ops b \<noteq> {} \<longrightarrow> call_op c \<in> bk_ops b) \<and>
    (\<forall>m. bk_agent_repos b agent = Some m \<longrightarrow> (\<exists>match. m = Some match \<and> match (call_repo c))) \<and>
    call_repo c = resolve_repo b (bq_repo r) \<and> provider b (call_op c) \<noteq> None"
proof (cases "map_of routes (bq_pattern r)")
  case None
  then show ?thesis using assms by (simp add: broker_serve_def handle_healthz_def split: if_splits)
next
  case (Some opt)
  then obtain op h where "map_of routes (bq_pattern r) = Some (op, h)" by (cases opt) auto
  from serve_outcome [OF this, of b s] obtain agent c where
    "br_calls (broker_serve b r s) = br_calls s @ [c]" "broker_authenticate b r = Inr agent"
    "authorize b agent (call_op c) (call_repo c)" "call_repo c = resolve_repo b (bq_repo r)"
    "provider b (call_op c) \<noteq> None"
    using assms by (cases rule: op_outcome.cases) auto
  then show ?thesis by (fastforce simp: authorize_def split: option.splits)
qed

theorem broker_gate_witness:
  "\<exists>agent c. br_calls (broker_serve demo_broker demo_merge fresh_run) = [c] \<and>
    broker_authenticate demo_broker demo_merge = Inr agent \<and> call_repo c = ''o/r''"
proof -
  have "br_calls (broker_serve demo_broker demo_merge fresh_run) \<noteq> []" by code_simp
  then have "br_calls (broker_serve demo_broker demo_merge fresh_run) \<noteq> br_calls fresh_run"
    by (simp add: fresh_run_def)
  then obtain agent c where "br_calls (broker_serve demo_broker demo_merge fresh_run) = br_calls fresh_run @ [c]"
    "broker_authenticate demo_broker demo_merge = Inr agent" "call_repo c = resolve_repo demo_broker (bq_repo demo_merge)"
    using broker_gate by blast
  then show ?thesis
    by (auto simp: fresh_run_def resolve_repo_def demo_broker_def demo_merge_def)
qed

definition deny_reasons :: "string set" where
  "deny_reasons =
     {''unauthorized'', ''forbidden'', ''not found'', ''upstream auth'', ''upstream denied'', ''not mergeable'',
      ''request unprocessable'', ''rate limited'', ''not implemented'', ''upstream error'', ''bad request''}"

lemma error_class_reason: "snd (error_class e) \<in> deny_reasons \<and> fst (error_class e) \<noteq> 401"
  by (cases e) (simp_all add: deny_reasons_def)

definition call_succeeded :: "broker \<Rightarrow> string \<Rightarrow> broker_run \<Rightarrow> broker_run \<Rightarrow> bool" where
  "call_succeeded b op s s' \<longleftrightarrow>
     (\<exists>cap c res. provider b op = Some cap \<and> br_calls s' = br_calls s @ [c] \<and> cap (br_calls s) c = Inr res)"

lemma success_not_401: "success_status op \<noteq> 401"
  by (simp add: success_status_def)

lemma perform_result:
  assumes "provider b op = Some cap" and "bk_audit b = Some sink"
  shows "if call_succeeded b op s (perform b a repo op status cap c s)
    then br_events (perform b a repo op status cap c s) = br_events s @ [broker_event a repo op ''allow'' []] \<and>
      br_status (perform b a repo op status cap c s) = Some status \<and>
      (\<exists>res. br_calls (perform b a repo op status cap c s) = br_calls s @ [c] \<and>
         cap (br_calls s) c = Inr res \<and>
         br_body (perform b a repo op status cap c s) = (if status = 204 then br_body s else Some (json_of res)))
    else (\<exists>e. br_events (perform b a repo op status cap c s) =
        br_events s @ [broker_event a repo op ''deny'' [snd (error_class e)]] \<and>
      br_status (perform b a repo op status cap c s) = Some (fst (error_class e)) \<and>
      br_body (perform b a repo op status cap c s) = Some (JObj [(''error'', JStr (snd (error_class e)))]))"
proof (cases "cap (br_calls s) c")
  case (Inl e)
  then have run: "perform b a repo op status cap c s = op_fail b a repo op e (s\<lparr>br_calls := br_calls s @ [c]\<rparr>)"
    by (simp add: perform_def Let_def)
  have "\<not> call_succeeded b op s (perform b a repo op status cap c s)"
    using assms(1) Inl by (simp add: call_succeeded_def)
  then show ?thesis unfolding run by (auto simp: op_fail_events [OF assms(2)])
next
  case (Inr res)
  then have "call_succeeded b op s (perform b a repo op status cap c s)"
    using assms(1) by (simp add: call_succeeded_def)
  then show ?thesis
    using Inr assms by (auto simp: perform_def Let_def audit_events respond_json_def no_content_def)
qed

text \<open>C34: every operation records exactly one event, for the resolved repository and the
  authenticated agent. It is an allow exactly when the provider was called and succeeded: the
  status is then the operation's own, and the body is the provider's result, or none with a 204.
  Else it is a deny whose only reason, which is also the whole response, is one of eleven fixed
  texts. The status 401 is only ever about the agent's own token.\<close>


theorem broker_answer:
  assumes "map_of routes (bq_pattern r) = Some (op, h)" and "bk_audit b = Some sink"
  shows "\<exists>agent verdict reasons.
    br_events (broker_serve b r s) =
      br_events s @ [broker_event agent (resolve_repo b (bq_repo r)) op verdict reasons] \<and>
    agent = (case broker_authenticate b r of Inl e \<Rightarrow> [] | Inr a \<Rightarrow> a) \<and>
    (br_status (broker_serve b r s) = Some 401 \<longleftrightarrow> (\<exists>e. broker_authenticate b r = Inl e)) \<and>
    (if call_succeeded b op s (broker_serve b r s)
     then verdict = ''allow'' \<and> reasons = [] \<and> br_status (broker_serve b r s) = Some (success_status op) \<and>
       (\<exists>cap c res. provider b op = Some cap \<and> br_calls (broker_serve b r s) = br_calls s @ [c] \<and>
          cap (br_calls s) c = Inr res \<and>
          br_body (broker_serve b r s) = (if success_status op = 204 then br_body s else Some (json_of res)))
     else \<exists>reason. reason \<in> deny_reasons \<and> verdict = ''deny'' \<and> reasons = [reason] \<and>
       br_body (broker_serve b r s) = Some (JObj [(''error'', JStr reason)]))"
  using serve_outcome [OF assms(1), of b s]
proof (cases rule: op_outcome.cases)
  case (unauthenticated e)
  then have "\<not> call_succeeded b op s (broker_serve b r s)" by (simp add: call_succeeded_def)
  then show ?thesis
    using unauthenticated by (simp add: audit_events [OF assms(2)] deny_reasons_def)
next
  case (forbidden agent)
  then have "\<not> call_succeeded b op s (broker_serve b r s)" by (simp add: call_succeeded_def)
  then show ?thesis
    using forbidden by (simp add: audit_events [OF assms(2)] deny_reasons_def)
next
  case (invalid agent e)
  then have "\<not> call_succeeded b op s (broker_serve b r s)" by (simp add: call_succeeded_def)
  then show ?thesis
    using invalid error_class_reason [of e] by (simp add: op_fail_events [OF assms(2)])
next
  case (performed agent c cap status)
  note p = perform_result [OF performed(6) assms(2), of s agent "resolve_repo b (bq_repo r)" status c, folded performed(1)]
  show ?thesis
  proof (cases "call_succeeded b op s (broker_serve b r s)")
    case True
    then show ?thesis
      using p performed(2,6,7) success_not_401 [of op]
      by - (rule exI [of _ agent], rule exI [of _ "''allow''"], rule exI [of _ "[]"], simp)
  next
    case False
    then obtain e where "br_events (broker_serve b r s) =
        br_events s @ [broker_event agent (resolve_repo b (bq_repo r)) op ''deny'' [snd (error_class e)]]"
      "br_status (broker_serve b r s) = Some (fst (error_class e))"
      "br_body (broker_serve b r s) = Some (JObj [(''error'', JStr (snd (error_class e)))])"
      using p performed(1) by auto
    then show ?thesis using False performed(2) error_class_reason [of e] by simp
  qed
qed

definition demo_list :: broker_request where
  "demo_list = demo_merge\<lparr>bq_pattern := ''GET /{repo}/prs'', bq_query := []\<rparr>"

definition list_broker :: broker where
  "list_broker = demo_broker\<lparr>bk_prs := (\<lambda>calls c. Inr (RPRStates []))\<rparr>"

theorem broker_answer_witness:
  "\<exists>verdict reasons. br_events (broker_serve list_broker demo_list fresh_run) =
      [broker_event ''bot'' ''o/r'' ''pr.list'' verdict reasons] \<and> verdict = ''allow'' \<and>
    br_status (broker_serve list_broker demo_list fresh_run) = Some 200 \<and>
    br_body (broker_serve list_broker demo_list fresh_run) = Some (JList [])"
proof -
  let ?s = "broker_serve list_broker demo_list fresh_run"
  have m: "map_of routes (bq_pattern demo_list) = Some (''pr.list'', handle_list)"
    by (simp add: demo_list_def routes_def)
  have audit: "bk_audit list_broker = Some (\<lambda>e. None)" by (simp add: list_broker_def demo_broker_def)
  have "br_calls ?s = [ListPRs ''o/r'' []]" by code_simp
  then have ok: "call_succeeded list_broker ''pr.list'' fresh_run ?s"
    by (simp add: call_succeeded_def provider_def has_prefix_def list_broker_def fresh_run_def)
  have auth: "broker_authenticate list_broker demo_list = Inr ''bot''"
    by (simp add: broker_authenticate_def list_broker_def demo_broker_def demo_list_def demo_merge_def
        has_prefix_def trim_prefix_def)
  have "resolve_repo list_broker (bq_repo demo_list) = ''o/r''"
    by (simp add: resolve_repo_def list_broker_def demo_broker_def demo_list_def demo_merge_def)
  then show ?thesis
    using broker_answer [OF m audit, of fresh_run] ok auth
    by (auto simp: fresh_run_def provider_def has_prefix_def list_broker_def success_status_def)
qed

end
