(* ===== verification/Rest.thy ===== *)
theory Rest
  imports Scm Access HttpFront
begin

text \<open>
  The GitHub adapter (\<open>internal/upstream/github\<close>): the REST client of its package \<open>rest\<close> (requests,
  error mapping, pagination, escaping of agent-controlled values, the CI roll-up, job logs) and
  the provider it makes of the broker's calls.

  The HTTP client of Go's library is a parameter: \<open>rn_do\<close> is \<open>Client.Do\<close> and \<open>rn_hop\<close> one round
  trip of the client of \<open>JobLog\<close>, whose redirects the code controls; both may answer by the
  requests made so far, which a run logs. \<open>Client.Do\<close> is used with its default policy, so it may
  itself follow up to ten redirects of a call, sending the token again to the same host or a
  subdomain of it: those requests happen inside the parameter and are not in the log, which holds
  what the adapter's own code hands to the client. A response body is the value \<open>encoding/json\<close> parses,
  or its syntax error; how it is decoded into the structs (field names match without regard to
  case, absent and null fields are zero, a value of another type is an error) is modelled for
  objects that name a field once. URL parsing is a parameter. A run that never returns, which
  the redirects allow, is \<open>None\<close>.
\<close>

section \<open>Requests and responses\<close>

record rest_out =
  ro_method :: string
  ro_url :: string
  ro_bearer :: "string option"
  ro_body :: "json option"

text \<open>How a read of a body ends: with data to follow, at the end of the body, or with an error.\<close>

datatype read_end = More | Eof | ReadError go_error

record rest_in =
  ri_status :: nat
  ri_header :: header
  ri_json :: "go_error + json"
  ri_reads :: "(string \<times> read_end) list" \<comment> \<open>the reads of the body, of at most 32 KiB\<close>

record rest_net =
  rn_url_error :: "string \<Rightarrow> go_error option"
  rn_do :: "rest_out list \<Rightarrow> rest_out \<Rightarrow> go_error + rest_in"
  rn_hop :: "rest_out list \<Rightarrow> rest_out \<Rightarrow> go_error + rest_in"
  rn_resolve :: "string \<Rightarrow> string \<Rightarrow> string option" \<comment> \<open>a Location, against the URL of the request\<close>
  rn_url_path :: "string \<Rightarrow> string option" \<comment> \<open>\<open>url.Parse(u).Path\<close>\<close>

record rest_client =
  rc_net :: rest_net
  rc_base :: string
  rc_token :: string

definition rest_new :: "rest_net \<Rightarrow> string \<Rightarrow> string \<Rightarrow> rest_client" where
  "rest_new net base tok = \<lparr>rc_net = net, rc_base = trim_right CHR ''/'' base, rc_token = tok\<rparr>"

type_synonym 'a rest = "rest_out list \<Rightarrow> (rest_out list \<times> (scm_error + 'a)) option"

definition rest_ret :: "'a \<Rightarrow> 'a rest" where
  "rest_ret a l = Some (l, Inr a)"

definition rest_err :: "scm_error \<Rightarrow> 'a rest" where
  "rest_err e l = Some (l, Inl e)"

text \<open>The continuation runs on success; \<open>rest_catch\<close> also hands the error to its second argument.\<close>

definition rest_catch :: "'a rest \<Rightarrow> ('a \<Rightarrow> 'b rest) \<Rightarrow> (scm_error \<Rightarrow> 'b rest) \<Rightarrow> 'b rest" where
  "rest_catch f k h l =
     (case f l of None \<Rightarrow> None | Some (l', Inl e) \<Rightarrow> h e l' | Some (l', Inr a) \<Rightarrow> k a l')"

definition rest_bind :: "'a rest \<Rightarrow> ('a \<Rightarrow> 'b rest) \<Rightarrow> 'b rest" where
  "rest_bind f k = rest_catch f k rest_err"

section \<open>Decoding\<close>

type_synonym 'a decoder = "json \<Rightarrow> 'a option"

definition json_field :: "json \<Rightarrow> string \<Rightarrow> json option" where
  "json_field j k =
     (case j of
        JNull \<Rightarrow> Some JNull
      | JObj kvs \<Rightarrow>
          Some (case find (\<lambda>(k', v). to_upper k' = to_upper k) kvs of None \<Rightarrow> JNull | Some (k', v) \<Rightarrow> v)
      | _ \<Rightarrow> None)"

definition str_field :: "string \<Rightarrow> string decoder" where
  "str_field k j =
     (case json_field j k of Some JNull \<Rightarrow> Some [] | Some (JStr s) \<Rightarrow> Some s | _ \<Rightarrow> None)"

definition int_field :: "string \<Rightarrow> int decoder" where
  "int_field k j =
     (case json_field j k of
        Some JNull \<Rightarrow> Some 0
      | Some (JNum n) \<Rightarrow> if - (2 ^ 63) \<le> n \<and> n < 2 ^ 63 then Some n else None
      | _ \<Rightarrow> None)"

definition bool_field :: "string \<Rightarrow> bool option decoder" where
  "bool_field k j =
     (case json_field j k of Some JNull \<Rightarrow> Some None | Some (JBool b) \<Rightarrow> Some (Some b) | _ \<Rightarrow> None)"

definition dec_list :: "'a decoder \<Rightarrow> 'a list decoder" where
  "dec_list d j =
     (case j of
        JNull \<Rightarrow> Some []
      | JList js \<Rightarrow> those (map d js)
      | _ \<Rightarrow> None)"

definition list_field :: "string \<Rightarrow> 'a decoder \<Rightarrow> 'a list decoder" where
  "list_field k d j = (case json_field j k of Some v \<Rightarrow> dec_list d v | None \<Rightarrow> None)"

definition ref_field :: "string \<Rightarrow> string decoder" where
  "ref_field k j = (case json_field j k of Some v \<Rightarrow> str_field ''ref'' v | None \<Rightarrow> None)"

text \<open>\<open>prPayload\<close> with \<open>toPR\<close> and the adapter's \<open>toPRState\<close>.\<close>

definition dec_pr :: "pr_state decoder" where
  "dec_pr j =
     (case (int_field ''number'' j, str_field ''title'' j, str_field ''state'' j, bool_field ''mergeable'' j,
            ref_field ''head'' j, ref_field ''base'' j, str_field ''html_url'' j) of
        (Some n, Some t, Some s, Some m, Some h, Some b, Some u) \<Rightarrow>
          Some \<lparr>prs_number = n, prs_title = t, prs_state = s, prs_mergeable = m, prs_head = h, prs_base = b,
                prs_url = u\<rparr>
      | _ \<Rightarrow> None)"

text \<open>\<open>issuePayload\<close> with \<open>toIssueState\<close>, and whether the entry is a pull request.\<close>

definition dec_label :: "string decoder" where
  "dec_label = str_field ''name''"

definition dec_issue :: "(issue_state \<times> bool) decoder" where
  "dec_issue j =
     (case (int_field ''number'' j, str_field ''title'' j, str_field ''state'' j, str_field ''body'' j,
            str_field ''html_url'' j, list_field ''labels'' dec_label j, json_field j ''pull_request'') of
        (Some n, Some t, Some s, Some b, Some u, Some ls, Some p) \<Rightarrow>
          Some (\<lparr>iss_number = n, iss_title = t, iss_state = s, iss_body = b, iss_url = u, iss_labels = ls\<rparr>,
                p \<noteq> JNull)
      | _ \<Rightarrow> None)"

record rest_check =
  rk_id :: int
  rk_name :: string
  rk_status :: string
  rk_conclusion :: string
  rk_details :: string

definition dec_check :: "rest_check decoder" where
  "dec_check j =
     (case (int_field ''id'' j, str_field ''name'' j, str_field ''status'' j, str_field ''conclusion'' j,
            str_field ''details_url'' j) of
        (Some i, Some n, Some s, Some c, Some d) \<Rightarrow>
          Some \<lparr>rk_id = i, rk_name = n, rk_status = s, rk_conclusion = c, rk_details = d\<rparr>
      | _ \<Rightarrow> None)"

record rest_workflow =
  rw_id :: int
  rw_name :: string
  rw_status :: string
  rw_conclusion :: string
  rw_url :: string

definition dec_workflow :: "rest_workflow decoder" where
  "dec_workflow j =
     (case (int_field ''id'' j, str_field ''name'' j, str_field ''status'' j, str_field ''conclusion'' j,
            str_field ''html_url'' j) of
        (Some i, Some n, Some s, Some c, Some u) \<Rightarrow>
          Some \<lparr>rw_id = i, rw_name = n, rw_status = s, rw_conclusion = c, rw_url = u\<rparr>
      | _ \<Rightarrow> None)"

definition dec_job :: "(int \<times> string) decoder" where
  "dec_job j = (case (int_field ''id'' j, str_field ''name'' j) of (Some i, Some n) \<Rightarrow> Some (i, n) | _ \<Rightarrow> None)"

section \<open>URLs\<close>

definition show_int :: "int \<Rightarrow> string" where
  "show_int n = (if n < 0 then ''-'' @ show_nat (nat (- n)) else show_nat (nat n))"

definition upper_hex :: "nat \<Rightarrow> char" where
  "upper_hex d = char_of (if d < 10 then 48 + d else 55 + d)"

definition percent :: "char \<Rightarrow> string" where
  "percent c = (let n = (of_char c :: nat) in [CHR ''%'', upper_hex (n div 16), upper_hex (n mod 16)])"

definition unreserved :: "char \<Rightarrow> bool" where
  "unreserved c \<longleftrightarrow> letter c \<or> digit_val c \<noteq> None \<or> c \<in> {CHR ''-'', CHR ''_'', CHR ''.'', CHR ''~''}"

text \<open>\<open>url.PathEscape\<close> and \<open>url.QueryEscape\<close>.\<close>

definition path_escape :: "string \<Rightarrow> string" where
  "path_escape s =
     concat (map (\<lambda>c. if unreserved c \<or> c \<in> {CHR ''$'', CHR ''&'', CHR ''+'', CHR '':'', CHR ''='', CHR ''@''}
                      then [c] else percent c) s)"

definition query_escape :: "string \<Rightarrow> string" where
  "query_escape s =
     concat (map (\<lambda>c. if unreserved c then [c] else if c = SP then ''+'' else percent c) s)"

definition trim_left :: "char \<Rightarrow> string \<Rightarrow> string" where
  "trim_left c s = dropWhile (\<lambda>x. x = c) s"

definition normalize_repo :: "string \<Rightarrow> go_error + (string \<times> string)" where
  "normalize_repo repo0 =
     (let repo = trim_prefix (trim_suffix repo0 ''.git'') ''/'' in
      case index_byte repo CHR ''/'' of
        None \<Rightarrow> Inl (''rest: invalid repo '' @ go_quote repo @ '': expected owner/name'')
      | Some i \<Rightarrow> Inr (take i repo, drop (Suc i) repo))"

definition repo_api_path :: "string \<Rightarrow> string rest" where
  "repo_api_path repo =
     (case normalize_repo repo of
        Inl e \<Rightarrow> rest_err (OtherError e)
      | Inr (owner, name) \<Rightarrow> rest_ret (''repos/'' @ owner @ ''/'' @ name))"

definition rel_next :: string where
  "rel_next = ''rel='' @ [CHR 0x22] @ ''next'' @ [CHR 0x22]"

fun next_of :: "string list \<Rightarrow> string option" where
  "next_of [] = None"
| "next_of (p # ps) =
     (let part = trim_space p in
      if \<not> contains part rel_next then next_of ps
      else (case (index_byte part CHR ''<'', index_byte part CHR ''>'') of
              (Some lt, Some gt) \<Rightarrow>
                if gt \<le> lt then next_of ps else Some (take (gt - lt - 1) (drop (Suc lt) part))
            | _ \<Rightarrow> next_of ps))"

definition parse_next_link :: "string \<Rightarrow> string option" where
  "parse_next_link link = (if link = [] then None else next_of (split_on CHR '','' link))"

definition strip_to_path :: "rest_client \<Rightarrow> string \<Rightarrow> string" where
  "strip_to_path c nxt =
     (if has_prefix nxt (rc_base c @ ''/'') then trim_prefix nxt (rc_base c @ ''/'')
      else if has_prefix nxt (rc_base c) then trim_left CHR ''/'' (trim_prefix nxt (rc_base c))
      else trim_left CHR ''/'' nxt)"

text \<open>\<open>BaseURL\<close>: \<open>parse\<close> is \<open>url.Parse\<close>, giving the scheme, the host name and the host with its port.\<close>

definition base_url :: "(string \<Rightarrow> go_error + (string \<times> string \<times> string)) \<Rightarrow> string \<Rightarrow> go_error + string" where
  "base_url parse u =
     (if u = [] then Inr ''https://api.github.com''
      else (case parse u of
              Inl e \<Rightarrow> Inl (''rest: derive base url: '' @ e)
            | Inr (scheme, hostname, host) \<Rightarrow>
                if hostname = [] \<or> hostname = ''github.com'' then Inr ''https://api.github.com''
                else Inr ((if scheme = [] then ''https'' else scheme) @ ''://'' @ host @ ''/api/v3'')))"

section \<open>One request\<close>

definition map_error :: "rest_in \<Rightarrow> scm_error" where
  "map_error resp =
     (if ri_status resp = 429 then ErrRateLimited (header_get (ri_header resp) ''Retry-After'')
      else if ri_status resp = 403 \<and> header_get (ri_header resp) ''X-Ratelimit-Remaining'' = ''0'' then
        ErrRateLimited (header_get (ri_header resp) ''Retry-After'')
      else if ri_status resp = 401 then ErrUnauthorized
      else if ri_status resp = 403 then ErrForbidden
      else if ri_status resp = 404 then ErrNotFound
      else if ri_status resp = 422 then ErrUnprocessable
      else if ri_status resp = 409 then ErrNotMergeable
      else ErrUpstream (''git-proxy: upstream scm error: status '' @ show_nat (ri_status resp)))"

definition rest_url :: "rest_client \<Rightarrow> string \<Rightarrow> string" where
  "rest_url c path = rc_base c @ ''/'' @ trim_left CHR ''/'' path"

text \<open>
  \<open>do\<close>, up to the decoding: one request with the token, and its response when the status is 2xx.
\<close>

definition rest_exchange :: "rest_client \<Rightarrow> string \<Rightarrow> string \<Rightarrow> json option \<Rightarrow> rest_in rest" where
  "rest_exchange c meth path body l =
     (let u = rest_url c path;
          rq = \<lparr>ro_method = meth, ro_url = u, ro_bearer = Some (rc_token c), ro_body = body\<rparr> in
      case rn_url_error (rc_net c) u of
        Some e \<Rightarrow> Some (l, Inl (OtherError e))
      | None \<Rightarrow>
          Some (l @ [rq],
            case rn_do (rc_net c) l rq of
              Inl e \<Rightarrow> Inl (OtherError (''rest: '' @ meth @ '' '' @ path @ '': '' @ e))
            | Inr resp \<Rightarrow>
                if ri_status resp < 200 \<or> ri_status resp \<ge> 300 then Inl (map_error resp) else Inr resp))"

definition decode_response :: "'a decoder \<Rightarrow> rest_in \<Rightarrow> scm_error + 'a" where
  "decode_response dec resp =
     (case ri_json resp of
        Inl e \<Rightarrow> Inl (OtherError (''rest: decode response: '' @ e))
      | Inr j \<Rightarrow>
          (case dec j of
             None \<Rightarrow> Inl (OtherError ''rest: decode response: json: cannot unmarshal'')
           | Some v \<Rightarrow> Inr v))"

definition rest_do ::
  "rest_client \<Rightarrow> string \<Rightarrow> string \<Rightarrow> json option \<Rightarrow> 'a decoder \<Rightarrow> (header \<times> 'a) rest" where
  "rest_do c meth path body dec =
     rest_bind (rest_exchange c meth path body) (\<lambda>resp.
       case decode_response dec resp of
         Inl e \<Rightarrow> rest_err e
       | Inr v \<Rightarrow> rest_ret (ri_header resp, v))"

text \<open>A request whose response is not decoded.\<close>

definition rest_send :: "rest_client \<Rightarrow> string \<Rightarrow> string \<Rightarrow> json option \<Rightarrow> unit rest" where
  "rest_send c meth path body = rest_bind (rest_exchange c meth path body) (\<lambda>_. rest_ret ())"

definition max_pages :: nat where
  "max_pages = 10"

text \<open>The pagination loop (\<open>listAll\<close> and the loops of the enveloped lists), \<open>n\<close> pages left.\<close>

fun page_loop :: "nat \<Rightarrow> rest_client \<Rightarrow> 'a list decoder \<Rightarrow> string \<Rightarrow> 'a list \<Rightarrow> 'a list rest" where
  "page_loop 0 c dec path acc = rest_ret acc"
| "page_loop (Suc n) c dec path acc =
     rest_bind (rest_do c ''GET'' path None dec) (\<lambda>(h, page).
       case parse_next_link (header_get h ''Link'') of
         None \<Rightarrow> rest_ret (acc @ page)
       | Some nxt \<Rightarrow> page_loop n c dec (strip_to_path c nxt) (acc @ page))"

definition list_all_pages :: "rest_client \<Rightarrow> 'a decoder \<Rightarrow> string \<Rightarrow> 'a list rest" where
  "list_all_pages c dec path = page_loop max_pages c (dec_list dec) path []"

section \<open>Pull requests (prs.go)\<close>

text \<open>
  An operation on a repository: \<open>repoPath\<close> first, which fails closed on a malformed key.
\<close>

definition on_repo :: "string \<Rightarrow> (string \<Rightarrow> 'a rest) \<Rightarrow> 'a rest" where
  "on_repo repo k = rest_bind (repo_api_path repo) k"

definition create_pr ::
  "rest_client \<Rightarrow> string \<Rightarrow> string \<Rightarrow> string \<Rightarrow> string \<Rightarrow> string \<Rightarrow> pr_state rest" where
  "create_pr c repo head base title body =
     on_repo repo (\<lambda>p.
       rest_bind (rest_do c ''POST'' (p @ ''/pulls'')
           (Some (JObj [(''head'', JStr head), (''base'', JStr base), (''title'', JStr title),
                        (''body'', JStr body)])) dec_pr)
         (\<lambda>(_, pr). rest_ret pr))"

definition get_pr :: "rest_client \<Rightarrow> string \<Rightarrow> int \<Rightarrow> pr_state rest" where
  "get_pr c repo n =
     on_repo repo (\<lambda>p.
       rest_bind (rest_do c ''GET'' (p @ ''/pulls/'' @ show_int n) None dec_pr) (\<lambda>(_, pr). rest_ret pr))"

definition list_prs :: "rest_client \<Rightarrow> string \<Rightarrow> string \<Rightarrow> pr_state list rest" where
  "list_prs c repo state =
     on_repo repo (\<lambda>p.
       list_all_pages c dec_pr
         (p @ ''/pulls?state='' @ (if state = [] then ''open'' else state) @ ''&per_page=100''))"

definition merge_pr :: "rest_client \<Rightarrow> string \<Rightarrow> int \<Rightarrow> string \<Rightarrow> unit rest" where
  "merge_pr c repo n meth =
     on_repo repo (\<lambda>p.
       rest_send c ''PUT'' (p @ ''/pulls/'' @ show_int n @ ''/merge'')
         (Some (JObj [(''merge_method'', JStr (if meth = [] then ''merge'' else meth))])))"

definition comment_pr :: "rest_client \<Rightarrow> string \<Rightarrow> int \<Rightarrow> string \<Rightarrow> unit rest" where
  "comment_pr c repo n body =
     on_repo repo (\<lambda>p.
       rest_send c ''POST'' (p @ ''/issues/'' @ show_int n @ ''/comments'')
         (Some (JObj [(''body'', JStr body)])))"

definition review_pr :: "rest_client \<Rightarrow> string \<Rightarrow> int \<Rightarrow> string \<Rightarrow> string \<Rightarrow> unit rest" where
  "review_pr c repo n event body =
     on_repo repo (\<lambda>p.
       rest_send c ''POST'' (p @ ''/pulls/'' @ show_int n @ ''/reviews'')
         (Some (JObj [(''event'', JStr event), (''body'', JStr body)])))"

section \<open>Issues (issues.go)\<close>

text \<open>A field that is left out of the request when it is empty.\<close>

definition omit_empty :: "string \<Rightarrow> string \<Rightarrow> (string \<times> json) list" where
  "omit_empty k v = (if v = [] then [] else [(k, JStr v)])"

definition create_issue :: "rest_client \<Rightarrow> string \<Rightarrow> string \<Rightarrow> string \<Rightarrow> issue rest" where
  "create_issue c repo title body =
     on_repo repo (\<lambda>p.
       rest_bind (rest_do c ''POST'' (p @ ''/issues'')
           (Some (JObj ((''title'', JStr title) # omit_empty ''body'' body))) dec_issue)
         (\<lambda>(_, i, _). rest_ret \<lparr>is_number = iss_number i, is_url = iss_url i\<rparr>))"

definition get_issue :: "rest_client \<Rightarrow> string \<Rightarrow> int \<Rightarrow> issue_state rest" where
  "get_issue c repo n =
     on_repo repo (\<lambda>p.
       rest_bind (rest_do c ''GET'' (p @ ''/issues/'' @ show_int n) None dec_issue) (\<lambda>(_, i, _). rest_ret i))"

text \<open>The list without the pull requests, which GitHub reports as issues.\<close>

definition list_issues :: "rest_client \<Rightarrow> string \<Rightarrow> string \<Rightarrow> issue_state list rest" where
  "list_issues c repo state =
     on_repo repo (\<lambda>p.
       rest_bind (list_all_pages c dec_issue
           (p @ ''/issues?state='' @ (if state = [] then ''open'' else state) @ ''&per_page=100''))
         (\<lambda>is. rest_ret (map fst (filter (\<lambda>(_, is_pr). \<not> is_pr) is))))"

definition comment_issue :: "rest_client \<Rightarrow> string \<Rightarrow> int \<Rightarrow> string \<Rightarrow> unit rest" where
  "comment_issue c repo n body =
     on_repo repo (\<lambda>p.
       rest_send c ''POST'' (p @ ''/issues/'' @ show_int n @ ''/comments'')
         (Some (JObj [(''body'', JStr body)])))"

definition close_issue :: "rest_client \<Rightarrow> string \<Rightarrow> int \<Rightarrow> unit rest" where
  "close_issue c repo n =
     on_repo repo (\<lambda>p.
       rest_send c ''PATCH'' (p @ ''/issues/'' @ show_int n) (Some (JObj [(''state'', JStr ''closed'')])))"

definition reopen_issue :: "rest_client \<Rightarrow> string \<Rightarrow> int \<Rightarrow> unit rest" where
  "reopen_issue c repo n =
     on_repo repo (\<lambda>p.
       rest_send c ''PATCH'' (p @ ''/issues/'' @ show_int n) (Some (JObj [(''state'', JStr ''open'')])))"

definition edit_issue :: "rest_client \<Rightarrow> string \<Rightarrow> int \<Rightarrow> string \<Rightarrow> string \<Rightarrow> issue_state rest" where
  "edit_issue c repo n title body =
     on_repo repo (\<lambda>p.
       rest_bind (rest_do c ''PATCH'' (p @ ''/issues/'' @ show_int n)
           (Some (JObj (omit_empty ''title'' title @ omit_empty ''body'' body))) dec_issue)
         (\<lambda>(_, i, _). rest_ret i))"

text \<open>A nil list of labels is not told from an empty one: both are sent as an empty list.\<close>

definition add_labels :: "rest_client \<Rightarrow> string \<Rightarrow> int \<Rightarrow> string list \<Rightarrow> string list rest" where
  "add_labels c repo n labels =
     on_repo repo (\<lambda>p.
       rest_bind (rest_do c ''POST'' (p @ ''/issues/'' @ show_int n @ ''/labels'')
           (Some (JObj [(''labels'', JList (map JStr labels))])) (dec_list dec_label))
         (\<lambda>(_, ls). rest_ret ls))"

definition remove_label :: "rest_client \<Rightarrow> string \<Rightarrow> int \<Rightarrow> string \<Rightarrow> unit rest" where
  "remove_label c repo n label =
     on_repo repo (\<lambda>p.
       rest_send c ''DELETE'' (p @ ''/issues/'' @ show_int n @ ''/labels/'' @ path_escape label) None)"

section \<open>CI state (checks.go)\<close>

definition list_check_runs :: "rest_client \<Rightarrow> string \<Rightarrow> string \<Rightarrow> rest_check list rest" where
  "list_check_runs c repo ref =
     on_repo repo (\<lambda>p.
       page_loop max_pages c (list_field ''check_runs'' dec_check)
         (p @ ''/commits/'' @ path_escape ref @ ''/check-runs?per_page=100'') [])"

definition list_workflow_runs :: "rest_client \<Rightarrow> string \<Rightarrow> string \<Rightarrow> rest_workflow list rest" where
  "list_workflow_runs c repo ref =
     on_repo repo (\<lambda>p.
       page_loop max_pages c (list_field ''workflow_runs'' dec_workflow)
         (p @ ''/actions/runs?head_sha='' @ query_escape ref @ ''&per_page=100'') [])"

definition classify_run :: "string \<Rightarrow> string \<Rightarrow> string" where
  "classify_run status conclusion =
     (if status \<noteq> ''completed'' then ''pending''
      else if conclusion = [] then ''pending''
      else if conclusion \<in> {''success'', ''neutral'', ''skipped''} then ''success''
      else if conclusion \<in> {''failure'', ''cancelled'', ''timed_out'', ''action_required'', ''stale''}
        then ''failure''
      else ''unknown'')"

text \<open>One round of the two loops of \<open>rollupCI\<close>, over the flags failure, pending and success.\<close>

definition roll_step :: "string \<Rightarrow> string \<Rightarrow> bool \<times> bool \<times> bool \<Rightarrow> bool \<times> bool \<times> bool" where
  "roll_step status conclusion flags =
     (case flags of (f, p, s) \<Rightarrow>
       (let k = classify_run status conclusion in
        if k = ''failure'' then (True, p, s)
        else if k = ''pending'' then (f, True, s)
        else if k = ''success'' then (f, p, True)
        else (f, p, s)))"

record rest_summary =
  rs_overall :: string
  rs_checks :: "rest_check list"
  rs_workflows :: "rest_workflow list"
  rs_unavailable :: bool

definition rollup_ci :: "rest_check list \<Rightarrow> rest_workflow list \<Rightarrow> rest_summary" where
  "rollup_ci checks workflows =
     \<lparr>rs_overall =
        (if checks = [] \<and> workflows = [] then ''none''
         else (case fold (\<lambda>w. roll_step (rw_status w) (rw_conclusion w)) workflows
                      (fold (\<lambda>k. roll_step (rk_status k) (rk_conclusion k)) checks (False, False, False)) of
                 (f, p, s) \<Rightarrow>
                   if f then ''failure'' else if p then ''pending'' else if s then ''success''
                   else ''unknown'')),
      rs_checks = checks, rs_workflows = workflows, rs_unavailable = False\<rparr>"

definition forbidden_fallback :: "scm_error \<Rightarrow> scm_error \<Rightarrow> scm_error" where
  "forbidden_fallback checks_err fallback_err =
     (if fallback_err = ErrForbidden then checks_err else fallback_err)"

text \<open>
  The legs of \<open>Summary\<close>: only a plain 403 of the Checks API leads to a summary of the workflow
  runs alone.
\<close>

definition summary :: "rest_client \<Rightarrow> string \<Rightarrow> string \<Rightarrow> rest_summary rest" where
  "summary c repo ref =
     rest_catch (list_check_runs c repo ref)
       (\<lambda>checks.
          rest_bind (list_workflow_runs c repo ref) (\<lambda>ws. rest_ret (rollup_ci checks ws)))
       (\<lambda>e. if e \<noteq> ErrForbidden then rest_err e
            else rest_catch (list_workflow_runs c repo ref)
                   (\<lambda>ws. rest_ret ((rollup_ci [] ws)\<lparr>rs_unavailable := True\<rparr>))
                   (\<lambda>we. rest_err (forbidden_fallback e we)))"

end
