(* ===== verification/RestLog.thy ===== *)
theory RestLog
  imports Rest
begin

text \<open>
  Job logs (\<open>internal/upstream/github/rest/checklog.go\<close>): the circular buffer that keeps the tail
  of a log, the client whose redirects lose the token, and the resolution of a check name to the
  job behind it, through the Checks API or through the jobs of the workflow runs.
\<close>

section \<open>The tail of a stream\<close>

definition min_hard_ceiling :: nat where
  "min_hard_ceiling = 64 * 1024 * 1024"

text \<open>
  The inner loop that copies \<open>dat\<close> into the buffer of \<open>mx\<close> bytes from \<open>pos\<close> on, going round at
  its end; the position always stays below \<open>mx\<close>.
\<close>

function ring_copy :: "nat \<Rightarrow> string \<Rightarrow> nat \<Rightarrow> string \<Rightarrow> string \<times> nat" where
  "ring_copy mx buf pos dat =
     (if dat = [] \<or> mx \<le> pos then (buf, pos)
      else
        let k = min (length dat) (mx - pos);
            buf' = take pos buf @ take k dat @ drop (pos + k) buf;
            pos' = (if pos + k = mx then 0 else pos + k)
        in ring_copy mx buf' pos' (drop k dat))"
  by pat_completeness auto

termination ring_copy
  by (relation "measure (\<lambda>(mx, buf, pos, dat). length dat)") auto

declare ring_copy.simps [simp del]

text \<open>The read loop: the bytes read so far, the buffer and the next write position.\<close>

fun tail_loop ::
  "nat \<Rightarrow> nat \<Rightarrow> nat \<Rightarrow> string \<Rightarrow> nat \<Rightarrow> (string \<times> read_end) list \<Rightarrow> go_error + (nat \<times> string \<times> nat)" where
  "tail_loop mx ceiling got buf pos [] = Inr (got, buf, pos)"
| "tail_loop mx ceiling got buf pos ((dat, re) # rs) =
     (let got' = got + length dat;
          (buf', pos') = (if mx > 0 then ring_copy mx buf pos dat else (buf, pos))
      in case re of
           Eof \<Rightarrow> Inr (got', buf', pos')
         | ReadError e \<Rightarrow> Inl e
         | More \<Rightarrow>
             if got' \<ge> ceiling then Inr (got', buf', pos')
             else tail_loop mx ceiling got' buf' pos' rs)"

definition tail_read :: "(string \<times> read_end) list \<Rightarrow> int \<Rightarrow> go_error + (string \<times> bool)" where
  "tail_read rs max_bytes =
     (let mx = nat max_bytes;
          ceiling = max min_hard_ceiling mx
      in case tail_loop mx ceiling 0 (replicate mx NUL) 0 rs of
           Inl e \<Rightarrow> Inl e
         | Inr (got, buf, pos) \<Rightarrow>
             if \<not> got > mx then Inr (take got buf, False)
             else if mx = 0 then Inr ([], True)
             else Inr (drop pos buf @ take pos buf, True))"

section \<open>Job logs\<close>

definition trim_both :: "char \<Rightarrow> string \<Rightarrow> string" where
  "trim_both c s = trim_right c (trim_left c s)"

text \<open>\<open>parseJobIDFromDetailsURL\<close>: the loop over the segments of the path.\<close>

fun find_job_id :: "string list \<Rightarrow> (int \<times> int) option" where
  "find_job_id (a # b # r # j # i # parts) =
     (case (if a \<noteq> ''actions'' \<or> b \<noteq> ''runs'' \<or> j \<noteq> ''job'' then None
            else (case (atoi r, atoi i) of (Some rid, Some jid) \<Rightarrow> Some (rid, jid) | _ \<Rightarrow> None)) of
        Some ids \<Rightarrow> Some ids
      | None \<Rightarrow> find_job_id (b # r # j # i # parts))"
| "find_job_id _ = None"

definition parse_job_id :: "rest_net \<Rightarrow> string \<Rightarrow> (int \<times> int) option" where
  "parse_job_id net u =
     (case rn_url_path net u of
        None \<Rightarrow> None
      | Some path \<Rightarrow> find_job_id (split_on CHR ''/'' (trim_both CHR ''/'' path)))"

definition redirect_status :: "nat \<Rightarrow> bool" where
  "redirect_status st \<longleftrightarrow> st \<in> {301, 302, 303, 307, 308}"

text \<open>
  The client of \<open>JobLog\<close>: one round trip after the other, as long as the response redirects. Its
  \<open>CheckRedirect\<close> takes the token off every request but the first and never ends the chain.
\<close>

partial_function (option) follow ::
  "rest_net \<Rightarrow> rest_out \<Rightarrow> rest_out list \<Rightarrow> (rest_out list \<times> (go_error + rest_in)) option" where
  "follow net rq l =
     (case rn_hop net l rq of
        Inl e \<Rightarrow> Some (l @ [rq], Inl e)
      | Inr resp \<Rightarrow>
          (let loc = header_get (ri_header resp) ''Location'' in
           if \<not> redirect_status (ri_status resp) \<or> loc = [] then Some (l @ [rq], Inr resp)
           else (case rn_resolve net (ro_url rq) loc of
                   None \<Rightarrow> Some (l @ [rq], Inl (''failed to parse Location header '' @ go_quote loc))
                 | Some u \<Rightarrow> follow net (rq\<lparr>ro_url := u, ro_bearer := None\<rparr>) (l @ [rq]))))"

declare follow.simps [code]

definition job_fetch :: "rest_client \<Rightarrow> int \<Rightarrow> string \<Rightarrow> (string \<times> bool) rest" where
  "job_fetch c max_bytes path l =
     (let u = rest_url c path;
          rq = \<lparr>ro_method = ''GET'', ro_url = u, ro_bearer = Some (rc_token c), ro_body = None\<rparr> in
      case rn_url_error (rc_net c) u of
        Some e \<Rightarrow> Some (l, Inl (OtherError e))
      | None \<Rightarrow>
          (case follow (rc_net c) rq l of
             None \<Rightarrow> None
           | Some (l', Inl e) \<Rightarrow> Some (l', Inl (OtherError (''rest: GET '' @ path @ '': '' @ e)))
           | Some (l', Inr resp) \<Rightarrow>
               Some (l',
                 if ri_status resp < 200 \<or> ri_status resp \<ge> 300 then Inl (map_error resp)
                 else (case tail_read (ri_reads resp) max_bytes of
                         Inl e \<Rightarrow> Inl (OtherError e)
                       | Inr r \<Rightarrow> Inr r))))"

definition job_log :: "rest_client \<Rightarrow> string \<Rightarrow> int \<Rightarrow> int \<Rightarrow> (string \<times> bool) rest" where
  "job_log c repo job max_bytes =
     on_repo repo (\<lambda>p. job_fetch c max_bytes (p @ ''/actions/jobs/'' @ show_int job @ ''/logs''))"

section \<open>From the name of a check to its job\<close>

definition max_log_lookup_runs :: nat where
  "max_log_lookup_runs = 10"

definition list_run_jobs :: "rest_client \<Rightarrow> string \<Rightarrow> int \<Rightarrow> (int \<times> string) list rest" where
  "list_run_jobs c repo run =
     on_repo repo (\<lambda>p.
       page_loop max_pages c (list_field ''jobs'' dec_job)
         (p @ ''/actions/runs/'' @ show_int run @ ''/jobs?per_page=100'') [])"

definition better_job :: "string \<Rightarrow> int \<times> string \<Rightarrow> int \<Rightarrow> int" where
  "better_job name job best = (if snd job = name \<and> fst job > best then fst job else best)"

text \<open>The loop over the runs, with the best job id so far.\<close>

fun jobs_loop ::
  "rest_client \<Rightarrow> string \<Rightarrow> string \<Rightarrow> scm_error \<Rightarrow> rest_workflow list \<Rightarrow> int \<Rightarrow> int rest" where
  "jobs_loop c repo name checks_err [] best = rest_ret best"
| "jobs_loop c repo name checks_err (r # rs) best =
     rest_catch (list_run_jobs c repo (rw_id r))
       (\<lambda>jobs. jobs_loop c repo name checks_err rs (fold (better_job name) jobs best))
       (\<lambda>e. rest_err (forbidden_fallback checks_err e))"

definition check_log_via_actions ::
  "rest_client \<Rightarrow> string \<Rightarrow> string \<Rightarrow> string \<Rightarrow> int \<Rightarrow> scm_error \<Rightarrow> (string \<times> bool) rest" where
  "check_log_via_actions c repo ref name max_bytes checks_err =
     rest_catch (list_workflow_runs c repo ref)
       (\<lambda>runs.
          rest_bind (jobs_loop c repo name checks_err (take max_log_lookup_runs runs) 0) (\<lambda>best.
            if best = 0 then rest_err ErrNotFound else job_log c repo best max_bytes))
       (\<lambda>e. rest_err (forbidden_fallback checks_err e))"

text \<open>The latest run of a name: the first of those with the greatest id.\<close>

definition better_check :: "string \<Rightarrow> rest_check \<Rightarrow> rest_check option \<Rightarrow> rest_check option" where
  "better_check name k best =
     (if rk_name k \<noteq> name then best
      else (case best of
              None \<Rightarrow> Some k
            | Some b \<Rightarrow> if rk_id k > rk_id b then Some k else best))"

definition check_log_for_check ::
  "rest_client \<Rightarrow> string \<Rightarrow> string \<Rightarrow> string \<Rightarrow> int \<Rightarrow> (string \<times> bool) rest" where
  "check_log_for_check c repo ref name max_bytes =
     rest_catch (list_check_runs c repo ref)
       (\<lambda>runs.
          case fold (better_check name) runs None of
            None \<Rightarrow> rest_err ErrNotFound
          | Some k \<Rightarrow>
              (case parse_job_id (rc_net c) (rk_details k) of
                 None \<Rightarrow> rest_err ErrNotFound
               | Some (_, job) \<Rightarrow> job_log c repo job max_bytes))
       (\<lambda>e. if e \<noteq> ErrForbidden then rest_err e
            else check_log_via_actions c repo ref name max_bytes e)"

end
