(* ===== verification/Github.thy ===== *)
theory Github
  imports RestLog
begin

text \<open>
  The GitHub adapter (\<open>internal/upstream/github/github.go\<close>) over the REST client, and the probes
  of \<open>rest/probe.go\<close>: the token of a repository from the vault, the client that fails closed
  without one, and the call of the SCM port as one function.
\<close>

section \<open>The adapter\<close>

record github =
  gh_base :: "go_error + string" \<comment> \<open>\<open>restBase\<close>, or \<open>baseErr\<close>\<close>
  gh_creds :: "(string \<Rightarrow> credentials option) option"

definition new_github ::
  "(string \<Rightarrow> go_error + (string \<times> string \<times> string)) \<Rightarrow> string \<Rightarrow> (string \<Rightarrow> credentials option) option \<Rightarrow> github" where
  "new_github parse u creds = \<lparr>gh_base = base_url parse u, gh_creds = creds\<rparr>"

definition token_for :: "github \<Rightarrow> string \<Rightarrow> scm_error + string" where
  "token_for a repo =
     (case gh_creds a of
        None \<Rightarrow> Inl ErrUnauthorized
      | Some creds \<Rightarrow>
          (case creds repo of
             None \<Rightarrow> Inl ErrUnauthorized
           | Some c \<Rightarrow> if cr_token c = [] then Inl ErrUnauthorized else Inr (cr_token c)))"

definition rest_client_for :: "rest_net \<Rightarrow> github \<Rightarrow> string \<Rightarrow> scm_error + rest_client" where
  "rest_client_for net a repo =
     (case gh_base a of
        Inl e \<Rightarrow> Inl (OtherError e)
      | Inr base \<Rightarrow>
          (case token_for a repo of
             Inl e \<Rightarrow> Inl e
           | Inr tok \<Rightarrow> Inr (rest_new net base tok)))"

definition to_check_summary :: "rest_summary \<Rightarrow> check_summary" where
  "to_check_summary s =
     \<lparr>cs_overall = rs_overall s,
      cs_checks =
        map (\<lambda>k. \<lparr>cr_name = rk_name k, cr_status = rk_status k, cr_conclusion = rk_conclusion k\<rparr>) (rs_checks s),
      cs_workflows =
        map (\<lambda>w. \<lparr>wr_name = rw_name w, wr_status = rw_status w, wr_conclusion = rw_conclusion w,
                  wr_url = rw_url w\<rparr>) (rs_workflows s),
      cs_unavailable = rs_unavailable s\<rparr>"

text \<open>
  The methods of the adapter behind \<open>restClient\<close>, by the call: those of \<open>IssueSupport\<close>, and all.
\<close>

definition rest_map :: "('a \<Rightarrow> 'b) \<Rightarrow> 'a rest \<Rightarrow> 'b rest" where
  "rest_map f r = rest_bind r (\<lambda>x. rest_ret (f x))"

fun issue_call :: "rest_client \<Rightarrow> scm_call \<Rightarrow> scm_reply rest" where
  "issue_call c (CreateIssue repo title body) = rest_map RIssue (create_issue c repo title body)"
| "issue_call c (GetIssue repo n) = rest_map RIssueState (get_issue c repo n)"
| "issue_call c (ListIssues repo state) = rest_map RIssueStates (list_issues c repo state)"
| "issue_call c (CommentIssue repo n body) = rest_map (\<lambda>_. RDone) (comment_issue c repo n body)"
| "issue_call c (CloseIssue repo n) = rest_map (\<lambda>_. RDone) (close_issue c repo n)"
| "issue_call c (ReopenIssue repo n) = rest_map (\<lambda>_. RDone) (reopen_issue c repo n)"
| "issue_call c (EditIssue repo n title body) = rest_map RIssueState (edit_issue c repo n title body)"
| "issue_call c (AddLabels repo n labels) = rest_map RLabels (add_labels c repo n labels)"
| "issue_call c (RemoveLabel repo n label) = rest_map (\<lambda>_. RDone) (remove_label c repo n label)"
| "issue_call c _ = rest_err ErrNotImplemented"

fun rest_call :: "rest_client \<Rightarrow> scm_call \<Rightarrow> scm_reply rest" where
  "rest_call c (BranchProtection repo branch) = rest_err ErrNotImplemented"
| "rest_call c (EnsurePR repo head base title body) =
     rest_map (\<lambda>p. RPR \<lparr>pr_number = prs_number p, pr_url = prs_url p\<rparr>) (create_pr c repo head base title body)"
| "rest_call c (GetPR repo n) = rest_map RPRState (get_pr c repo n)"
| "rest_call c (ListPRs repo state) = rest_map RPRStates (list_prs c repo state)"
| "rest_call c (MergePR repo n meth) = rest_map (\<lambda>_. RDone) (merge_pr c repo n meth)"
| "rest_call c (CommentPR repo n body) = rest_map (\<lambda>_. RDone) (comment_pr c repo n body)"
| "rest_call c (ReviewPR repo n event body) = rest_map (\<lambda>_. RDone) (review_pr c repo n event body)"
| "rest_call c (Checks repo ref) = rest_map (\<lambda>s. RChecks (to_check_summary s)) (summary c repo ref)"
| "rest_call c (CheckLog repo ref name max_bytes) =
     rest_map (\<lambda>(t, b). RLog \<lparr>cl_log = t, cl_truncated = b\<rparr>) (check_log_for_check c repo ref name max_bytes)"
| "rest_call c call = issue_call c call"

definition github_call :: "rest_net \<Rightarrow> github \<Rightarrow> scm_call \<Rightarrow> scm_reply rest" where
  "github_call net a call =
     (case call of
        BranchProtection _ _ \<Rightarrow> rest_err ErrNotImplemented
      | _ \<Rightarrow>
          (case rest_client_for net a (call_repo call) of
             Inl e \<Rightarrow> rest_err e
           | Inr c \<Rightarrow> rest_call c call))"

section \<open>Probes\<close>

definition probe :: "rest_client \<Rightarrow> string \<Rightarrow> unit rest" where
  "probe c path = rest_send c ''GET'' path None"

record repo_info =
  inf_full_name :: string
  inf_default_branch :: string

definition dec_repo_info :: "repo_info decoder" where
  "dec_repo_info j =
     (case (str_field ''full_name'' j, str_field ''default_branch'' j) of
        (Some f, Some d) \<Rightarrow> Some \<lparr>inf_full_name = f, inf_default_branch = d\<rparr>
      | _ \<Rightarrow> None)"

definition get_repo_info :: "rest_client \<Rightarrow> string \<Rightarrow> repo_info rest" where
  "get_repo_info c repo =
     on_repo repo (\<lambda>p. rest_map snd (rest_do c ''GET'' p None dec_repo_info))"

definition list_owner_repos :: "rest_client \<Rightarrow> string \<Rightarrow> int \<Rightarrow> string list rest" where
  "list_owner_repos c owner limit0 =
     (let limit = (if limit0 \<le> 0 then 1 else limit0);
          q = ''?per_page='' @ show_int limit @ ''&sort=updated'';
          keep = (\<lambda>(_, page). rest_ret (take (nat limit) (filter (\<lambda>n. n \<noteq> []) page)));
          get = (\<lambda>kind. rest_do c ''GET'' (kind @ ''/'' @ path_escape owner @ ''/repos'' @ q) None
                          (dec_list (str_field ''full_name''))) in
      rest_catch (get ''orgs'') keep
        (\<lambda>e. if e = ErrNotFound then rest_bind (get ''users'') keep else rest_err e))"

end
