(* ===== verification/RestLaws.thy ===== *)
theory RestLaws
  imports Github
begin

text \<open>
  Two judgements on runs of the REST client, with a rule for each of its combinators: what holds
  of every request a run sends (\<open>sends\<close>), and that a run returns after a bounded number of
  requests (\<open>returns\<close>).
\<close>

named_theorems sends_intros "every request of a run has a property"
named_theorems returns_intros "a run returns after a bounded number of requests"

section \<open>Every request of a run\<close>

definition sends :: "(rest_out \<Rightarrow> bool) \<Rightarrow> 'a rest \<Rightarrow> bool" where
  "sends P f \<longleftrightarrow>
     (\<forall>l l' r. f l = Some (l', r) \<longrightarrow> (\<exists>rqs. l' = l @ rqs \<and> (\<forall>rq \<in> set rqs. P rq)))"

lemma sendsI:
  assumes "\<And>l l' r. f l = Some (l', r) \<Longrightarrow> \<exists>rqs. l' = l @ rqs \<and> (\<forall>rq \<in> set rqs. P rq)"
  shows "sends P f"
  using assms by (simp add: sends_def)

lemma sendsD:
  assumes "sends P f" "f l = Some (l', r)"
  obtains rqs where "l' = l @ rqs" "\<forall>rq \<in> set rqs. P rq"
  using assms unfolding sends_def by blast

lemma sends_mono: "sends P f \<Longrightarrow> (\<And>rq. P rq \<Longrightarrow> Q rq) \<Longrightarrow> sends Q f"
  unfolding sends_def by blast

lemma sends_ret [sends_intros]: "sends P (rest_ret a)"
  by (simp add: sends_def rest_ret_def)

lemma sends_err [sends_intros]: "sends P (rest_err e)"
  by (simp add: sends_def rest_err_def)

lemma sends_catch [sends_intros]:
  assumes f: "sends P f" and k: "\<And>a. sends P (k a)" and h: "\<And>e. sends P (h e)"
  shows "sends P (rest_catch f k h)"
proof (rule sendsI)
  fix l l' r
  assume run: "rest_catch f k h l = Some (l', r)"
  then obtain l1 r1 where r1: "f l = Some (l1, r1)"
    by (auto simp: rest_catch_def split: option.splits)
  obtain rqs1 where rqs1: "l1 = l @ rqs1" "\<forall>rq \<in> set rqs1. P rq"
    by (rule sendsD[OF f r1])
  have "\<exists>g. sends P g \<and> g l1 = Some (l', r)"
  proof (cases r1)
    case (Inl e)
    then show ?thesis
      using run r1 h[of e] by (auto simp: rest_catch_def)
  next
    case (Inr a)
    then show ?thesis
      using run r1 k[of a] by (auto simp: rest_catch_def)
  qed
  then obtain rqs2 where "l' = l1 @ rqs2" "\<forall>rq \<in> set rqs2. P rq"
    unfolding sends_def by blast
  then show "\<exists>rqs. l' = l @ rqs \<and> (\<forall>rq \<in> set rqs. P rq)"
    using rqs1 by (intro exI[of _ "rqs1 @ rqs2"]) auto
qed

lemma sends_bind [sends_intros]:
  "sends P f \<Longrightarrow> (\<And>a. sends P (k a)) \<Longrightarrow> sends P (rest_bind f k)"
  unfolding rest_bind_def by (intro sends_intros)

lemma sends_map [sends_intros]: "sends P f \<Longrightarrow> sends P (rest_map g f)"
  unfolding rest_map_def by (intro sends_intros)

lemma sends_if [sends_intros]:
  "(b \<Longrightarrow> sends P f) \<Longrightarrow> (\<not> b \<Longrightarrow> sends P g) \<Longrightarrow> sends P (if b then f else g)"
  by simp

lemma sends_pair [sends_intros]: "(\<And>a b. sends P (f a b)) \<Longrightarrow> sends P (case p of (a, b) \<Rightarrow> f a b)"
  by (cases p) simp

lemma sends_sum [sends_intros]:
  "(\<And>e. sends P (f e)) \<Longrightarrow> (\<And>a. sends P (g a)) \<Longrightarrow> sends P (case s of Inl e \<Rightarrow> f e | Inr a \<Rightarrow> g a)"
  by (cases s) simp_all

lemma sends_option [sends_intros]:
  "sends P f \<Longrightarrow> (\<And>a. sends P (g a)) \<Longrightarrow> sends P (case x of None \<Rightarrow> f | Some a \<Rightarrow> g a)"
  by (cases x) simp_all

section \<open>Runs that return\<close>

definition returns :: "nat \<Rightarrow> 'a rest \<Rightarrow> bool" where
  "returns n f \<longleftrightarrow> (\<forall>l. \<exists>rqs r. f l = Some (l @ rqs, r) \<and> length rqs \<le> n)"

lemma returnsI: "(\<And>l. \<exists>rqs r. f l = Some (l @ rqs, r) \<and> length rqs \<le> n) \<Longrightarrow> returns n f"
  by (simp add: returns_def)

lemma returnsE:
  assumes "returns n f"
  obtains rqs r where "f l = Some (l @ rqs, r)" "length rqs \<le> n"
  using assms unfolding returns_def by blast

lemma returns_mono: "returns m f \<Longrightarrow> m \<le> n \<Longrightarrow> returns n f"
  unfolding returns_def by (meson le_trans)

lemma returns_ret [returns_intros]: "returns n (rest_ret a)"
  by (simp add: returns_def rest_ret_def)

lemma returns_err [returns_intros]: "returns n (rest_err e)"
  by (simp add: returns_def rest_err_def)

lemma returns_catch [returns_intros]:
  assumes f: "returns m f" and k: "\<And>a. returns n (k a)" and h: "\<And>e. returns n (h e)"
  shows "returns (m + n) (rest_catch f k h)"
proof (rule returnsI)
  fix l
  obtain rqs1 r1 where r1: "f l = Some (l @ rqs1, r1)" "length rqs1 \<le> m"
    by (rule returnsE[OF f])
  define g where "g = (case r1 of Inl e \<Rightarrow> h e | Inr a \<Rightarrow> k a)"
  have "returns n g"
    using k h by (cases r1) (simp_all add: g_def)
  then obtain rqs2 r2 where "g (l @ rqs1) = Some ((l @ rqs1) @ rqs2, r2)" "length rqs2 \<le> n"
    by (rule returnsE)
  then show "\<exists>rqs r. rest_catch f k h l = Some (l @ rqs, r) \<and> length rqs \<le> m + n"
    using r1 by (intro exI[of _ "rqs1 @ rqs2"] exI[of _ r2])
      (cases r1, simp_all add: rest_catch_def g_def)
qed

lemma returns_bind [returns_intros]:
  "returns m f \<Longrightarrow> (\<And>a. returns n (k a)) \<Longrightarrow> returns (m + n) (rest_bind f k)"
  unfolding rest_bind_def by (intro returns_intros)

lemma returns_then: "returns n f \<Longrightarrow> (\<And>a. returns 0 (k a)) \<Longrightarrow> returns n (rest_bind f k)"
  using returns_bind[of n f 0 k] by simp

lemma returns_map [returns_intros]: "returns n f \<Longrightarrow> returns n (rest_map g f)"
  unfolding rest_map_def by (rule returns_then, assumption, rule returns_ret)

lemma returns_if [returns_intros]:
  "(b \<Longrightarrow> returns n f) \<Longrightarrow> (\<not> b \<Longrightarrow> returns n g) \<Longrightarrow> returns n (if b then f else g)"
  by simp

lemma returns_pair [returns_intros]:
  "(\<And>a b. returns n (f a b)) \<Longrightarrow> returns n (case p of (a, b) \<Rightarrow> f a b)"
  by (cases p) simp

lemma returns_sum [returns_intros]:
  "(\<And>e. returns n (f e)) \<Longrightarrow> (\<And>a. returns n (g a)) \<Longrightarrow>
     returns n (case s of Inl e \<Rightarrow> f e | Inr a \<Rightarrow> g a)"
  by (cases s) simp_all

lemma returns_option [returns_intros]:
  "returns n f \<Longrightarrow> (\<And>a. returns n (g a)) \<Longrightarrow> returns n (case x of None \<Rightarrow> f | Some a \<Rightarrow> g a)"
  by (cases x) simp_all

section \<open>Requests of the client\<close>

text \<open>A request to the REST API: below its base URL, with the token of the client.\<close>

definition api_request :: "rest_client \<Rightarrow> rest_out \<Rightarrow> bool" where
  "api_request c rq \<longleftrightarrow> ro_bearer rq = Some (rc_token c) \<and> has_prefix (ro_url rq) (rc_base c @ ''/'')"

text \<open>A request of a job log: to the API, or without a token.\<close>

definition log_request :: "rest_client \<Rightarrow> rest_out \<Rightarrow> bool" where
  "log_request c rq \<longleftrightarrow> api_request c rq \<or> ro_bearer rq = None"

lemma rest_url_prefix: "has_prefix (rest_url c path) (rc_base c @ ''/'')"
  by (auto simp: rest_url_def has_prefix_iff)

lemma sends_exchange [sends_intros]: "sends (api_request c) (rest_exchange c meth path body)"
  using rest_url_prefix[of c path]
  by (intro sendsI) (auto simp: rest_exchange_def Let_def api_request_def split: option.splits)

lemma returns_exchange [returns_intros]: "returns 1 (rest_exchange c meth path body)"
  by (intro returnsI) (auto simp: rest_exchange_def Let_def split: option.splits)

lemma sends_do [sends_intros]: "sends (api_request c) (rest_do c meth path body dec)"
  unfolding rest_do_def by (intro sends_intros)

lemma returns_do [returns_intros]: "returns 1 (rest_do c meth path body dec)"
  unfolding rest_do_def by (rule returns_then) (intro returns_intros)+

lemma sends_send [sends_intros]: "sends (api_request c) (rest_send c meth path body)"
  unfolding rest_send_def by (intro sends_intros)

lemma returns_send [returns_intros]: "returns 1 (rest_send c meth path body)"
  unfolding rest_send_def by (rule returns_then) (intro returns_intros)+

lemma sends_on_repo [sends_intros]: "(\<And>p. sends P (k p)) \<Longrightarrow> sends P (on_repo repo k)"
  unfolding on_repo_def repo_api_path_def by (intro sends_intros) auto

lemma returns_on_repo [returns_intros]: "(\<And>p. returns n (k p)) \<Longrightarrow> returns n (on_repo repo k)"
  using returns_bind[of 0 "repo_api_path repo" n k]
  unfolding on_repo_def repo_api_path_def by (auto intro: returns_intros)

lemma sends_page_loop [sends_intros]: "sends (api_request c) (page_loop n c dec path acc)"
proof (induction n arbitrary: path acc)
  case 0
  then show ?case
    by (simp add: sends_ret)
next
  case (Suc n)
  show ?case
    unfolding page_loop.simps by (intro sends_intros Suc.IH)
qed

lemma returns_page_loop: "returns n (page_loop n c dec path acc)"
proof (induction n arbitrary: path acc)
  case 0
  then show ?case
    by (simp add: returns_ret)
next
  case (Suc n)
  have "returns (1 + n) (page_loop (Suc n) c dec path acc)"
    unfolding page_loop.simps by (intro returns_intros Suc.IH)
  then show ?case
    by simp
qed

lemma returns_pages [returns_intros]: "returns 10 (page_loop max_pages c dec path acc)"
  using returns_page_loop[of max_pages c dec path acc] by (simp add: max_pages_def)

lemma sends_list_all [sends_intros]: "sends (api_request c) (list_all_pages c dec path)"
  unfolding list_all_pages_def by (intro sends_intros)

lemma returns_list_all [returns_intros]: "returns 10 (list_all_pages c dec path)"
  unfolding list_all_pages_def by (intro returns_intros)

section \<open>Operations\<close>

text \<open>The operations of one request, or of one list of pages.\<close>

lemmas rest_ops =
  create_pr_def get_pr_def list_prs_def merge_pr_def comment_pr_def review_pr_def create_issue_def
  get_issue_def list_issues_def comment_issue_def close_issue_def reopen_issue_def edit_issue_def
  add_labels_def remove_label_def list_check_runs_def list_workflow_runs_def list_run_jobs_def

lemma sends_summary [sends_intros]: "sends (api_request c) (summary c repo ref)"
  unfolding summary_def rest_ops by (intro sends_intros)

lemma returns_check_runs [returns_intros]: "returns 10 (list_check_runs c repo ref)"
  unfolding rest_ops by (intro returns_intros)

lemma returns_workflow_runs [returns_intros]: "returns 10 (list_workflow_runs c repo ref)"
  unfolding rest_ops by (intro returns_intros)

lemma returns_run_jobs [returns_intros]: "returns 10 (list_run_jobs c repo run)"
  unfolding rest_ops by (intro returns_intros)

lemma returns_or_else: "returns n f \<Longrightarrow> (\<And>a. returns 0 (k a)) \<Longrightarrow> (\<And>e. returns 0 (h e)) \<Longrightarrow>
    returns n (rest_catch f k h)"
  using returns_catch[of n f 0 k h] by simp

lemma returns_summary: "returns 20 (summary c repo ref)"
proof -
  have checked: "returns 10 (rest_bind (list_workflow_runs c repo ref) (\<lambda>ws. rest_ret (rollup_ci checks ws)))" for checks
    by (rule returns_then) (intro returns_intros)+
  have denied: "returns 10 (rest_catch (list_workflow_runs c repo ref)
      (\<lambda>ws. rest_ret ((rollup_ci [] ws)\<lparr>rs_unavailable := True\<rparr>))
      (\<lambda>we. rest_err (forbidden_fallback e we)))" for e
    by (rule returns_or_else) (intro returns_intros)+
  have "returns (10 + 10) (summary c repo ref)"
    unfolding summary_def by (intro returns_catch returns_check_runs checked returns_if returns_err denied)
  then show ?thesis
    by simp
qed

section \<open>Job logs\<close>

text \<open>The requests of a chain of redirects: the first one, and then requests without a token.\<close>

lemma follow_requests:
  assumes ret: "follow net rq l = Some y"
  shows "\<exists>rqs. fst y = l @ rq # rqs \<and> (\<forall>rq' \<in> set rqs. ro_bearer rq' = None)"
proof (rule follow.raw_induct
    [where P = "\<lambda>net rq l y. \<exists>rqs. fst y = l @ rq # rqs \<and> (\<forall>rq' \<in> set rqs. ro_bearer rq' = None)", OF _ ret])
  fix rec net rq l y
  assume IH: "\<And>net rq l y. rec net rq l = Some y \<Longrightarrow>
      \<exists>rqs. fst y = l @ rq # rqs \<and> (\<forall>rq' \<in> set rqs. ro_bearer rq' = None)"
    and eq: "(case rn_hop net l rq of
        Inl e \<Rightarrow> Some (l @ [rq], Inl e)
      | Inr resp \<Rightarrow>
          (let loc = header_get (ri_header resp) ''Location'' in
           if \<not> redirect_status (ri_status resp) \<or> loc = [] then Some (l @ [rq], Inr resp)
           else (case rn_resolve net (ro_url rq) loc of
                   None \<Rightarrow> Some (l @ [rq], Inl (''failed to parse Location header '' @ go_quote loc))
                 | Some u \<Rightarrow> rec net (rq\<lparr>ro_url := u, ro_bearer := None\<rparr>) (l @ [rq])))) = Some y"
  show "\<exists>rqs. fst y = l @ rq # rqs \<and> (\<forall>rq' \<in> set rqs. ro_bearer rq' = None)"
  proof (cases "\<exists>u. rec net (rq\<lparr>ro_url := u, ro_bearer := None\<rparr>) (l @ [rq]) = Some y")
    case True
    then obtain u where "rec net (rq\<lparr>ro_url := u, ro_bearer := None\<rparr>) (l @ [rq]) = Some y"
      by blast
    from IH[OF this] show ?thesis
      by fastforce
  next
    case False
    then have "fst y = l @ [rq]"
      using eq by (auto simp: Let_def split: sum.splits if_splits option.splits)
    then show ?thesis
      by auto
  qed
qed

text \<open>
  A chain that ends: within \<open>n\<close> hops from the request the server answers with something that is
  not followed.
\<close>

fun settles :: "nat \<Rightarrow> rest_net \<Rightarrow> rest_out \<Rightarrow> rest_out list \<Rightarrow> bool" where
  "settles 0 net rq l \<longleftrightarrow> False"
| "settles (Suc n) net rq l \<longleftrightarrow>
     (case rn_hop net l rq of
        Inl e \<Rightarrow> True
      | Inr resp \<Rightarrow>
          \<not> redirect_status (ri_status resp) \<or> header_get (ri_header resp) ''Location'' = [] \<or>
          (case rn_resolve net (ro_url rq) (header_get (ri_header resp) ''Location'') of
             None \<Rightarrow> True
           | Some u \<Rightarrow> settles n net (rq\<lparr>ro_url := u, ro_bearer := None\<rparr>) (l @ [rq])))"

lemma follow_settles:
  "settles n net rq l \<Longrightarrow> \<exists>rqs r. follow net rq l = Some (l @ rqs, r) \<and> length rqs \<le> n"
proof (induction n arbitrary: rq l)
  case (Suc n)
  show ?case
  proof (cases "\<exists>resp u. rn_hop net l rq = Inr resp \<and> redirect_status (ri_status resp) \<and>
      header_get (ri_header resp) ''Location'' \<noteq> [] \<and>
      rn_resolve net (ro_url rq) (header_get (ri_header resp) ''Location'') = Some u")
    case True
    then obtain resp u where hop: "rn_hop net l rq = Inr resp" "redirect_status (ri_status resp)"
      "header_get (ri_header resp) ''Location'' \<noteq> []"
      "rn_resolve net (ro_url rq) (header_get (ri_header resp) ''Location'') = Some u"
      by blast
    then have "settles n net (rq\<lparr>ro_url := u, ro_bearer := None\<rparr>) (l @ [rq])"
      using Suc.prems by simp
    from Suc.IH[OF this] show ?thesis
      using hop by (subst follow.simps) (fastforce simp: Let_def)
  next
    case False
    then show ?thesis
      by (subst follow.simps) (auto simp: Let_def split: sum.splits option.splits)
  qed
qed simp

lemma job_fetch_run:
  assumes "job_fetch c max_bytes path l = Some (l', r)"
  shows "l' = l \<or> (\<exists>r0. follow (rc_net c)
    \<lparr>ro_method = ''GET'', ro_url = rest_url c path, ro_bearer = Some (rc_token c), ro_body = None\<rparr> l = Some (l', r0))"
  using assms unfolding job_fetch_def Let_def by (auto split: option.splits sum.splits)

lemma sends_job_fetch [sends_intros]: "sends (log_request c) (job_fetch c max_bytes path)"
proof (rule sendsI)
  fix l l' r
  assume "job_fetch c max_bytes path l = Some (l', r)"
  from job_fetch_run[OF this]
  show "\<exists>rqs. l' = l @ rqs \<and> (\<forall>rq \<in> set rqs. log_request c rq)"
  proof
    assume "\<exists>r0. follow (rc_net c)
      \<lparr>ro_method = ''GET'', ro_url = rest_url c path, ro_bearer = Some (rc_token c), ro_body = None\<rparr> l = Some (l', r0)"
    then obtain rqs where
      "l' = l @ \<lparr>ro_method = ''GET'', ro_url = rest_url c path, ro_bearer = Some (rc_token c), ro_body = None\<rparr> # rqs"
      "\<forall>rq' \<in> set rqs. ro_bearer rq' = None"
      using follow_requests by fastforce
    then show ?thesis
      by (auto simp: log_request_def api_request_def rest_url_prefix)
  qed simp
qed

lemma sends_job_log [sends_intros]: "sends (log_request c) (job_log c repo job max_bytes)"
  unfolding job_log_def by (intro sends_intros)

lemma returns_job_log:
  assumes "\<And>rq l. settles h (rc_net c) rq l"
  shows "returns h (job_log c repo job max_bytes)"
  unfolding job_log_def
proof (rule returns_on_repo, rule returnsI)
  fix p l
  let ?rq = "\<lambda>path. \<lparr>ro_method = ''GET'', ro_url = rest_url c path, ro_bearer = Some (rc_token c), ro_body = None\<rparr>"
  obtain rqs r where
    "follow (rc_net c) (?rq (p @ ''/actions/jobs/'' @ show_int job @ ''/logs'')) l = Some (l @ rqs, r)"
    "length rqs \<le> h"
    using follow_settles[OF assms] by blast
  then show "\<exists>rqs r. job_fetch c max_bytes (p @ ''/actions/jobs/'' @ show_int job @ ''/logs'') l = Some (l @ rqs, r)
      \<and> length rqs \<le> h"
    unfolding job_fetch_def by (cases r) (auto simp: Let_def split: option.splits)
qed

text \<open>A server that always redirects is followed for ever.\<close>

lemma follow_forever:
  assumes loops: "\<And>rq l. \<exists>resp u. rn_hop net l rq = Inr resp \<and> redirect_status (ri_status resp) \<and>
      header_get (ri_header resp) ''Location'' \<noteq> [] \<and>
      rn_resolve net (ro_url rq) (header_get (ri_header resp) ''Location'') = Some u"
  shows "follow net rq l = None"
proof (rule ccontr)
  assume "follow net rq l \<noteq> None"
  then obtain y where "follow net rq l = Some y"
    by blast
  then have "net = net0 \<longrightarrow> False" if "net0 = net" for net0
  proof (rule follow.raw_induct[where P = "\<lambda>net rq l y. net = net0 \<longrightarrow> False", rotated])
    fix rec and net' :: rest_net and rq l y
    assume IH: "\<And>net rq l y. rec net rq l = Some y \<Longrightarrow> net = net0 \<longrightarrow> False"
      and eq: "(case rn_hop net' l rq of
          Inl e \<Rightarrow> Some (l @ [rq], Inl e)
        | Inr resp \<Rightarrow>
            (let loc = header_get (ri_header resp) ''Location'' in
             if \<not> redirect_status (ri_status resp) \<or> loc = [] then Some (l @ [rq], Inr resp)
             else (case rn_resolve net' (ro_url rq) loc of
                     None \<Rightarrow> Some (l @ [rq], Inl (''failed to parse Location header '' @ go_quote loc))
                   | Some u \<Rightarrow> rec net' (rq\<lparr>ro_url := u, ro_bearer := None\<rparr>) (l @ [rq])))) = Some y"
    show "net' = net0 \<longrightarrow> False"
    proof
      assume same: "net' = net0"
      obtain resp u where "rn_hop net l rq = Inr resp" "redirect_status (ri_status resp)"
        "header_get (ri_header resp) ''Location'' \<noteq> []"
        "rn_resolve net (ro_url rq) (header_get (ri_header resp) ''Location'') = Some u"
        using loops[of l rq] by blast
      then have "rec net (rq\<lparr>ro_url := u, ro_bearer := None\<rparr>) (l @ [rq]) = Some y"
        using eq same that by (simp add: Let_def)
      from IH[OF this] that show False
        by simp
    qed
  qed
  then show False
    by blast
qed

section \<open>Check logs\<close>

lemma sends_log_mono: "sends (api_request c) f \<Longrightarrow> sends (log_request c) f"
  by (erule sends_mono) (simp add: log_request_def)

lemma sends_log_ops [sends_intros]:
  "sends (log_request c) (list_check_runs c repo ref)"
  "sends (log_request c) (list_workflow_runs c repo ref)"
  "sends (log_request c) (list_run_jobs c repo run)"
  unfolding rest_ops by (rule sends_log_mono, intro sends_intros)+

lemma sends_jobs_loop [sends_intros]: "sends (log_request c) (jobs_loop c repo name e rs best)"
proof (induction rs arbitrary: best)
  case Nil
  then show ?case
    by (simp add: sends_ret)
next
  case (Cons r rs)
  then show ?case
    unfolding jobs_loop.simps by (intro sends_intros)
qed

lemma sends_check_log [sends_intros]:
  "sends (log_request c) (check_log_for_check c repo ref name max_bytes)"
  unfolding check_log_for_check_def check_log_via_actions_def by (intro sends_intros)

lemma returns_jobs_loop: "returns (10 * length rs) (jobs_loop c repo name e rs best)"
proof (induction rs arbitrary: best)
  case Nil
  then show ?case
    by (simp add: returns_ret)
next
  case (Cons r rs)
  have "returns (10 + 10 * length rs) (jobs_loop c repo name e (r # rs) best)"
    unfolding jobs_loop.simps by (intro returns_catch returns_run_jobs Cons.IH returns_err)
  then show ?case
    by simp
qed

lemma returns_check_log:
  assumes settled: "\<And>rq l. settles h (rc_net c) rq l"
  shows "returns (120 + h) (check_log_for_check c repo ref name max_bytes)"
proof -
  note job = returns_job_log[OF settled]
  have "returns (100 + h) (rest_bind (jobs_loop c repo name e (take max_log_lookup_runs runs) 0)
      (\<lambda>best. if best = 0 then rest_err ErrNotFound else job_log c repo best max_bytes))" for e runs
    by (rule returns_mono[OF returns_bind[OF returns_jobs_loop]])
      (auto intro: returns_if returns_err job simp: max_log_lookup_runs_def)
  then have actions: "returns (10 + (100 + h)) (check_log_via_actions c repo ref name max_bytes e)" for e
    unfolding check_log_via_actions_def
    by (intro returns_catch returns_workflow_runs returns_err)
  have direct: "returns (110 + h) (case parse_job_id net u of None \<Rightarrow> rest_err ErrNotFound
      | Some (ids, j) \<Rightarrow> job_log c repo j max_bytes)" for net u
    by (intro returns_option returns_pair returns_err returns_mono[OF job]) simp
  have "returns (10 + (110 + h)) (check_log_for_check c repo ref name max_bytes)"
    unfolding check_log_for_check_def
    by (intro returns_catch returns_check_runs returns_option returns_err direct returns_if
        returns_mono[OF actions]) simp
  then show ?thesis
    by simp
qed

section \<open>Calls\<close>

definition is_log_call :: "scm_call \<Rightarrow> bool" where
  "is_log_call call \<longleftrightarrow> (case call of CheckLog _ _ _ _ \<Rightarrow> True | _ \<Rightarrow> False)"

lemma sends_api_call: "\<not> is_log_call call \<Longrightarrow> sends (api_request c) (rest_call c call)"
  by (cases call) (simp_all only: is_log_call_def scm_call.case simp_thms rest_call.simps issue_call.simps rest_ops, (intro sends_intros)+)

lemma sends_rest_call: "sends (log_request c) (rest_call c call)"
proof (cases "is_log_call call")
  case True
  then show ?thesis
    by (cases call) (simp_all add: is_log_call_def, intro sends_intros)
next
  case False
  then show ?thesis
    by (intro sends_log_mono sends_api_call)
qed

lemma one_request:
  "returns 1 (create_pr c repo head base title body)" "returns 1 (get_pr c repo n)"
  "returns 1 (merge_pr c repo n meth)" "returns 1 (comment_pr c repo n body)"
  "returns 1 (review_pr c repo n event body)" "returns 1 (create_issue c repo title body)"
  "returns 1 (get_issue c repo n)" "returns 1 (comment_issue c repo n body)"
  "returns 1 (close_issue c repo n)" "returns 1 (reopen_issue c repo n)"
  "returns 1 (edit_issue c repo n title body)" "returns 1 (add_labels c repo n labels)"
  "returns 1 (remove_label c repo n label)"
  unfolding rest_ops
  by (rule returns_on_repo, (rule returns_send | rule returns_then, rule returns_do, intro returns_intros))+

lemma one_list: "returns 10 (list_prs c repo state)" "returns 10 (list_issues c repo state)"
  unfolding rest_ops
  by (rule returns_on_repo, (rule returns_list_all | rule returns_then, rule returns_list_all, intro returns_intros))+

lemma returns_api_call: "\<not> is_log_call call \<Longrightarrow> returns 20 (rest_call c call)"
  by (cases call)
    (auto simp: is_log_call_def intro!: returns_map returns_err returns_summary
       intro: one_request[THEN returns_mono] one_list[THEN returns_mono])

end
