(* ===== verification/TailLaws.thy ===== *)
theory TailLaws
  imports RestLog
begin

text \<open>
  The circular buffer of \<open>tailRead\<close> against what it stands for: the last bytes of the stream.
\<close>

section \<open>The buffer\<close>

text \<open>The contents in the order they were written, oldest first.\<close>

definition unrolled :: "string \<Rightarrow> nat \<Rightarrow> string" where
  "unrolled buf pos = drop pos buf @ take pos buf"

lemma length_unrolled [simp]: "length (unrolled buf pos) = length buf"
  by (simp add: unrolled_def)

lemma ring_chunk:
  assumes "pos < mx" "length buf = mx" "k \<le> length dat" "pos + k \<le> mx"
  defines "buf2 \<equiv> take pos buf @ take k dat @ drop (pos + k) buf"
  defines "pos2 \<equiv> (if pos + k = mx then 0 else pos + k)"
  shows "length buf2 = mx" "pos2 < mx" "unrolled buf2 pos2 = drop k (unrolled buf pos @ take k dat)"
proof -
  show "length buf2 = mx"
    using assms by (simp add: buf2_def)
  show "pos2 < mx"
    using assms by (auto simp: pos2_def)
  show "unrolled buf2 pos2 = drop k (unrolled buf pos @ take k dat)"
  proof (cases "pos + k = mx")
    case True
    then have "k = mx - pos"
      by simp
    then show ?thesis
      using assms True by (simp add: unrolled_def buf2_def pos2_def)
  next
    case False
    then have "k < mx - pos"
      using assms by simp
    then show ?thesis
      using assms False by (simp add: unrolled_def buf2_def pos2_def add.commute)
  qed
qed

lemma ring_copy_unrolled:
  assumes "pos < mx" "length buf = mx" "ring_copy mx buf pos dat = (buf', pos')"
  shows "length buf' = mx \<and> pos' < mx \<and> unrolled buf' pos' = drop (length dat) (unrolled buf pos @ dat)
         \<and> pos' = (pos + length dat) mod mx"
  using assms
proof (induction mx buf pos dat arbitrary: buf' pos' rule: ring_copy.induct)
  case (1 mx buf pos dat)
  define k where "k = min (length dat) (mx - pos)"
  define buf2 where "buf2 = take pos buf @ take k dat @ drop (pos + k) buf"
  define pos2 where "pos2 = (if pos + k = mx then 0 else pos + k)"
  show ?case
  proof (cases "dat = []")
    case True
    then show ?thesis
      using "1.prems" by (simp add: ring_copy.simps unrolled_def)
  next
    case False
    have k: "k \<le> length dat" "pos + k \<le> mx"
      using "1.prems" by (auto simp: k_def)
    have chunk: "length buf2 = mx" "pos2 < mx" "unrolled buf2 pos2 = drop k (unrolled buf pos @ take k dat)"
      unfolding buf2_def pos2_def by (rule ring_chunk[OF "1.prems"(1,2) k])+
    have run: "ring_copy mx buf2 pos2 (drop k dat) = (buf', pos')"
      using "1.prems" False unfolding ring_copy.simps[of mx buf pos dat]
      by (simp only: Let_def k_def buf2_def pos2_def not_le[symmetric] simp_thms if_False)
    have IH: "length buf' = mx \<and> pos' < mx \<and> unrolled buf' pos' = drop (length (drop k dat)) (unrolled buf2 pos2 @ drop k dat)
        \<and> pos' = (pos2 + length (drop k dat)) mod mx"
      by (rule "1.IH"[OF _ k_def buf2_def pos2_def chunk(2,1) run]) (use "1.prems" False in auto)
    have "unrolled buf2 pos2 @ drop k dat = drop k (unrolled buf pos @ take k dat @ drop k dat)"
      using k "1.prems" by (simp add: chunk(3))
    then have "unrolled buf' pos' = drop (length dat) (unrolled buf pos @ dat)"
      using IH k by (auto simp del: drop_append)
    moreover have "(pos2 + (length dat - k)) mod mx = (pos + length dat) mod mx"
    proof (cases "pos + k = mx")
      case True
      then have "pos + length dat = (length dat - k) + mx"
        using k by simp
      then show ?thesis
        using True k by (simp only: pos2_def mod_add_self2) simp
    next
      case False
      then show ?thesis
        using k by (simp add: pos2_def)
    qed
    ultimately show ?thesis
      using IH by simp
  qed
qed

section \<open>The stream\<close>

text \<open>What the read loop consumes of the reads, \<open>got\<close> bytes after the start: up to the end or the ceiling.\<close>

fun consumed :: "nat \<Rightarrow> nat \<Rightarrow> (string \<times> read_end) list \<Rightarrow> go_error + string" where
  "consumed ceiling got [] = Inr []"
| "consumed ceiling got ((dat, re) # rs) =
     (case re of
        Eof \<Rightarrow> Inr dat
      | ReadError e \<Rightarrow> Inl e
      | More \<Rightarrow>
          if got + length dat \<ge> ceiling then Inr dat
          else (case consumed ceiling (got + length dat) rs of Inl e \<Rightarrow> Inl e | Inr s \<Rightarrow> Inr (dat @ s)))"

text \<open>The last \<open>n\<close> elements of a list.\<close>

definition last_n :: "nat \<Rightarrow> 'a list \<Rightarrow> 'a list" where
  "last_n n xs = drop (length xs - n) xs"

text \<open>The state of the read loop after the bytes \<open>s\<close>.\<close>

definition tail_inv :: "nat \<Rightarrow> string \<Rightarrow> string \<Rightarrow> nat \<Rightarrow> bool" where
  "tail_inv mx s buf pos \<longleftrightarrow>
     length buf = mx \<and>
     (mx > 0 \<longrightarrow> pos < mx \<and> pos = length s mod mx \<and> unrolled buf pos = drop (length s) (replicate mx NUL @ s))"

lemma tail_inv_init: "tail_inv mx [] (replicate mx NUL) 0"
  by (simp add: tail_inv_def unrolled_def)

lemma tail_inv_step:
  assumes "tail_inv mx s buf pos"
    and "(if mx > 0 then ring_copy mx buf pos dat else (buf, pos)) = (buf', pos')"
  shows "tail_inv mx (s @ dat) buf' pos'"
proof (cases "mx > 0")
  case True
  then have "length buf' = mx \<and> pos' < mx \<and> unrolled buf' pos' = drop (length dat) (unrolled buf pos @ dat)
      \<and> pos' = (pos + length dat) mod mx"
    using assms by (intro ring_copy_unrolled) (simp_all add: tail_inv_def)
  moreover have "unrolled buf pos @ dat = drop (length s) (replicate mx NUL @ s @ dat)"
    using assms(1) True by (auto simp: tail_inv_def)
  moreover have "pos' = length (s @ dat) mod mx"
    using assms True calculation by (simp add: tail_inv_def mod_add_left_eq)
  moreover have "unrolled buf' pos' = drop (length (s @ dat)) (replicate mx NUL @ s @ dat)"
    using calculation by (auto simp: add.commute simp del: drop_append)
  ultimately show ?thesis
    by (simp add: tail_inv_def del: drop_append)
qed (use assms in \<open>simp add: tail_inv_def\<close>)

lemma tail_loop_Cons:
  assumes "(if mx > 0 then ring_copy mx buf pos dat else (buf, pos)) = (buf', pos')"
  shows "tail_loop mx ceiling got buf pos ((dat, re) # rs) =
     (case re of
        Eof \<Rightarrow> Inr (got + length dat, buf', pos')
      | ReadError e \<Rightarrow> Inl e
      | More \<Rightarrow> if got + length dat \<ge> ceiling then Inr (got + length dat, buf', pos')
                else tail_loop mx ceiling (got + length dat) buf' pos' rs)"
  unfolding tail_loop.simps assms Let_def by simp

lemma tail_loop_consumed:
  "tail_inv mx s buf pos \<Longrightarrow>
     (case consumed ceiling (length s) rs of
        Inl e \<Rightarrow> tail_loop mx ceiling (length s) buf pos rs = Inl e
      | Inr t \<Rightarrow> \<exists>buf' pos'. tail_loop mx ceiling (length s) buf pos rs = Inr (length (s @ t), buf', pos')
                  \<and> tail_inv mx (s @ t) buf' pos')"
proof (induction rs arbitrary: s buf pos)
  case Nil
  then show ?case
    by simp
next
  case (Cons r rs)
  obtain dat re where r: "r = (dat, re)"
    by fastforce
  obtain buf' pos' where step: "(if mx > 0 then ring_copy mx buf pos dat else (buf, pos)) = (buf', pos')"
    by fastforce
  have inv: "tail_inv mx (s @ dat) buf' pos'"
    by (rule tail_inv_step[OF Cons.prems step])
  note run = tail_loop_Cons[OF step, of ceiling "length s" re rs]
  show ?case
  proof (cases re)
    case More
    show ?thesis
    proof (cases "length s + length dat \<ge> ceiling")
      case True
      then show ?thesis
        using inv unfolding r run by (simp add: More del: tail_loop.simps)
    next
      case False
      then show ?thesis
        using Cons.IH[OF inv] unfolding r run
        by (cases "consumed ceiling (length s + length dat) rs") (simp_all add: More del: tail_loop.simps)
    qed
  next
    case Eof
    show ?thesis
      using inv unfolding r run by (simp add: Eof del: tail_loop.simps)
  next
    case (ReadError e)
    show ?thesis
      unfolding r run by (simp add: ReadError del: tail_loop.simps)
  qed
qed

lemma tail_inv_short:
  assumes "tail_inv mx s buf pos" "length s \<le> mx"
  shows "take (length s) buf = s"
proof -
  consider "mx = 0" | "0 < mx" "length s = mx" | "0 < mx" "length s < mx"
    using assms(2) by linarith
  then show ?thesis
  proof cases
    case 1
    then show ?thesis
      using assms(2) by simp
  next
    case 2
    then have "pos = 0" "unrolled buf pos = s" "length buf = length s"
      using assms(1) unfolding tail_inv_def by auto
    then show ?thesis
      by (simp add: unrolled_def)
  next
    case 3
    then have "pos = length s" "length buf = mx" "unrolled buf pos = replicate (mx - length s) NUL @ s"
      using assms(1) unfolding tail_inv_def by auto
    then show ?thesis
      using 3 by (simp add: unrolled_def append_eq_append_conv)
  qed
qed

lemma tail_inv_long:
  assumes "tail_inv mx s buf pos" "mx > 0" "mx \<le> length s"
  shows "drop pos buf @ take pos buf = last_n mx s"
  using assms unfolding tail_inv_def unrolled_def[symmetric] last_n_def by auto

lemma tail_read_consumed:
  "tail_read rs m =
     (case consumed (max min_hard_ceiling (nat m)) 0 rs of
        Inl e \<Rightarrow> Inl e
      | Inr s \<Rightarrow> Inr (last_n (nat m) s, length s > nat m))"
proof -
  define mx where "mx = nat m"
  define ceiling where "ceiling = max min_hard_ceiling mx"
  note loop = tail_loop_consumed[OF tail_inv_init, of mx ceiling rs, simplified]
  show ?thesis
  proof (cases "consumed ceiling 0 rs")
    case (Inl e)
    then show ?thesis
      using loop by (simp add: tail_read_def ceiling_def mx_def)
  next
    case (Inr s)
    then obtain buf pos where run: "tail_loop mx ceiling 0 (replicate mx NUL) 0 rs = Inr (length s, buf, pos)"
      and inv: "tail_inv mx s buf pos"
      using loop by auto
    have "tail_read rs m = (if \<not> length s > mx then Inr (take (length s) buf, False)
        else if mx = 0 then Inr ([], True) else Inr (drop pos buf @ take pos buf, True))"
      using run by (simp add: tail_read_def ceiling_def mx_def)
    also have "\<dots> = Inr (last_n mx s, length s > mx)"
      using tail_inv_short[OF inv] tail_inv_long[OF inv] by (auto simp: last_n_def)
    finally show ?thesis
      using Inr by (simp add: ceiling_def mx_def)
  qed
qed

text \<open>A stream below the ceiling is consumed whole.\<close>

lemma consumed_all:
  assumes "\<forall>re \<in> snd ` set rs. re = More \<or> re = Eof" "\<forall>re \<in> snd ` set (butlast rs). re = More"
    and "got + length (concat (map fst rs)) < ceiling"
  shows "consumed ceiling got rs = Inr (concat (map fst rs))"
  using assms
proof (induction rs arbitrary: got)
  case (Cons r rs)
  then show ?case
    by (cases r; cases "snd r"; cases rs) auto
qed simp

end
