(* ===== verification/GithubProps.thy ===== *)
theory GithubProps
  imports RestLaws TailLaws
begin

text \<open>
  What holds of the GitHub adapter: where its requests go and with which token, that its calls
  return, what the CI verdict says of the runs, and that a job log is the tail of what was read.
\<close>

section \<open>A server\<close>

text \<open>
  The server of the witnesses: one check run, whose job log is behind a redirect to a storage that
  answers 404, and a pull request that is not found.
\<close>

definition demo_check :: json where
  "demo_check = JObj [(''check_runs'', JList [JObj [(''id'', JNum 5), (''name'', JStr ''build''),
     (''status'', JStr ''completed''), (''conclusion'', JStr ''success''), (''details_url'', JStr ''actions/runs/1/job/7'')]])]"

definition demo_response :: "nat \<Rightarrow> string list \<Rightarrow> json \<Rightarrow> rest_in" where
  "demo_response st loc j =
     \<lparr>ri_status = st, ri_header = [''Location'' \<mapsto> loc], ri_json = Inr j, ri_reads = [(''log'', Eof)]\<rparr>"

definition demo_net :: rest_net where
  "demo_net =
     \<lparr>rn_url_error = (\<lambda>_. None),
      rn_do = (\<lambda>l rq. Inr (demo_response 200 [] demo_check)),
      rn_hop = (\<lambda>l rq. Inr (if ro_bearer rq = None then demo_response 404 [] JNull
                            else demo_response 302 [''https://storage/log''] JNull)),
      rn_resolve = (\<lambda>u loc. Some loc),
      rn_url_path = Some\<rparr>"

definition demo_client :: rest_client where
  "demo_client = rest_new demo_net ''https://api.github.com'' ''t0ken''"

definition demo_github :: github where
  "demo_github =
     \<lparr>gh_base = Inr ''https://api.github.com'',
      gh_creds = Some (\<lambda>repo. if repo = ''acme/app'' then Some \<lparr>cr_username = [], cr_password = [], cr_token = ''t0ken''\<rparr>
                              else None)\<rparr>"

section \<open>Escaped values\<close>

text \<open>Reading an escaped value back: \<open>%XX\<close> is a byte, and in a query a plus sign is a space.\<close>

definition hex_val :: "char \<Rightarrow> nat option" where
  "hex_val c =
     (let n = of_char c in
      if 48 \<le> n \<and> n \<le> 57 then Some (n - 48) else if 65 \<le> n \<and> n \<le> 70 then Some (n - 55) else None)"

fun unescape :: "bool \<Rightarrow> string \<Rightarrow> string option" where
  "unescape q [] = Some []"
| "unescape q (c # cs) =
     (if c = CHR ''%'' then
        (case cs of
           a # b # cs' \<Rightarrow>
             (case (hex_val a, hex_val b) of
                (Some x, Some y) \<Rightarrow> map_option ((#) (char_of (16 * x + y))) (unescape q cs')
              | _ \<Rightarrow> None)
         | _ \<Rightarrow> None)
      else map_option ((#) (if q \<and> c = CHR ''+'' then SP else c)) (unescape q cs))"

lemma of_char_digit: "n < 128 \<Longrightarrow> of_char (char_of n :: char) = (n :: nat)"
  by simp

lemma hex_val_upper: "d < 16 \<Longrightarrow> hex_val (upper_hex d) = Some d"
  by (auto simp: hex_val_def upper_hex_def Let_def)

lemma unescape_percent: "unescape q (percent c @ s) = map_option ((#) c) (unescape q s)"
proof -
  define n where "n = (of_char c :: nat)"
  have "n < 256"
    by (simp add: n_def)
  then have digits: "hex_val (upper_hex (n div 16)) = Some (n div 16)" "hex_val (upper_hex (n mod 16)) = Some (n mod 16)"
    by (simp_all add: hex_val_upper less_mult_imp_div_less)
  have "char_of (16 * (n div 16) + n mod 16) = c"
    by (simp add: n_def)
  then show ?thesis
    using digits by (simp add: percent_def n_def[symmetric] Let_def)
qed

lemma unreserved_plain:
  assumes "unreserved c"
  shows "c \<notin> {CHR ''%'', CHR ''+'', CHR ''/'', CHR ''?'', CHR ''#'', CHR ''&'', CHR ''='', SP}"
  using assms by (auto simp: unreserved_def letter_def digit_val_def)

lemma path_unescape: "unescape False (path_escape s) = Some s"
proof (induction s)
  case (Cons c s)
  show ?case
  proof (cases "unreserved c \<or> c \<in> {CHR ''$'', CHR ''&'', CHR ''+'', CHR '':'', CHR ''='', CHR ''@''}")
    case True
    then have "c \<noteq> CHR ''%''"
      using unreserved_plain by auto
    then show ?thesis
      using Cons.IH True by (simp add: path_escape_def)
  next
    case False
    then show ?thesis
      using Cons.IH unescape_percent[of False c "path_escape s"] by (simp add: path_escape_def)
  qed
qed (simp add: path_escape_def)

lemma query_unescape: "unescape True (query_escape s) = Some s"
proof (induction s)
  case (Cons c s)
  consider "unreserved c" | "\<not> unreserved c" "c = SP" | "\<not> unreserved c" "c \<noteq> SP"
    by blast
  then show ?case
  proof cases
    case 1
    then show ?thesis
      using Cons.IH unreserved_plain[of c] by (simp add: query_escape_def)
  next
    case 2
    then show ?thesis
      using Cons.IH by (simp add: query_escape_def)
  next
    case 3
    then show ?thesis
      using Cons.IH unescape_percent[of True c "query_escape s"] by (simp add: query_escape_def)
  qed
qed (simp add: query_escape_def)

lemma upper_hex_plain: "d < 16 \<Longrightarrow> upper_hex d \<notin> {CHR ''/'', CHR ''?'', CHR ''#'', CHR ''&'', CHR ''=''}"
  using hex_val_upper[of d] by (auto simp: hex_val_def Let_def)

lemma percent_plain: "x \<in> set (percent c) \<Longrightarrow> x \<notin> {CHR ''/'', CHR ''?'', CHR ''#'', CHR ''&'', CHR ''=''}"
proof -
  have "(of_char c :: nat) div 16 < 16" "(of_char c :: nat) mod 16 < 16"
    by (simp_all add: less_mult_imp_div_less)
  then show "x \<in> set (percent c) \<Longrightarrow> x \<notin> {CHR ''/'', CHR ''?'', CHR ''#'', CHR ''&'', CHR ''=''}"
    using upper_hex_plain by (auto simp: percent_def Let_def)
qed

lemma path_escape_plain: "x \<in> set (path_escape s) \<Longrightarrow> x \<notin> {CHR ''/'', CHR ''?'', CHR ''#''}"
  using unreserved_plain[of x] percent_plain[of x]
  by (auto simp: path_escape_def split: if_splits)

lemma query_escape_plain: "x \<in> set (query_escape s) \<Longrightarrow> x \<notin> {CHR ''/'', CHR ''?'', CHR ''#'', CHR ''&'', CHR ''=''}"
  using unreserved_plain[of x] percent_plain[of x]
  by (auto simp: query_escape_def split: if_splits)

lemma on_repo_ok:
  assumes "normalize_repo repo = Inr (owner, name)"
  shows "on_repo repo k = k (''repos/'' @ owner @ ''/'' @ name)"
  by (rule ext)
    (simp add: on_repo_def repo_api_path_def assms rest_bind_def rest_catch_def rest_ret_def)

text \<open>
  A ref that the agent chooses stays one segment of the path of the check-runs request and one
  value of the query of the workflow-runs request: escaped, it has none of the characters that
  end a segment or a value, and reading it back gives the ref. (A ref of dots is not changed by
  the escaping of a path segment.)
\<close>

lemma ref_contained:
  assumes "normalize_repo repo = Inr (owner, name)"
  shows "\<exists>seg val.
    list_check_runs c repo ref =
      page_loop max_pages c (list_field ''check_runs'' dec_check)
        (''repos/'' @ owner @ ''/'' @ name @ ''/commits/'' @ seg @ ''/check-runs?per_page=100'') [] \<and>
    list_workflow_runs c repo ref =
      page_loop max_pages c (list_field ''workflow_runs'' dec_workflow)
        (''repos/'' @ owner @ ''/'' @ name @ ''/actions/runs?head_sha='' @ val @ ''&per_page=100'') [] \<and>
    unescape False seg = Some ref \<and> set seg \<inter> {CHR ''/'', CHR ''?'', CHR ''#''} = {} \<and>
    unescape True val = Some ref \<and> set val \<inter> {CHR ''/'', CHR ''?'', CHR ''#'', CHR ''&'', CHR ''=''} = {}"
proof (intro exI conjI)
  show "unescape False (path_escape ref) = Some ref" "unescape True (query_escape ref) = Some ref"
    by (rule path_unescape query_unescape)+
  show "set (path_escape ref) \<inter> {CHR ''/'', CHR ''?'', CHR ''#''} = {}"
    using path_escape_plain by blast
  show "set (query_escape ref) \<inter> {CHR ''/'', CHR ''?'', CHR ''#'', CHR ''&'', CHR ''=''} = {}"
    using query_escape_plain by blast
qed (simp_all add: list_check_runs_def list_workflow_runs_def on_repo_ok[OF assms])

section \<open>Requests\<close>

lemma rest_client_token:
  assumes "rest_client_for net a repo = Inr c"
  obtains base creds cr where "gh_base a = Inr base" "gh_creds a = Some creds" "creds repo = Some cr" "cr_token cr \<noteq> []"
    "c = rest_new net base (cr_token cr)"
  using assms
  by (auto simp: rest_client_for_def token_for_def split: sum.splits option.splits if_splits)

lemma github_call_cases:
  obtains (refused) e where "github_call net a call = rest_err e"
    | (client) c where "rest_client_for net a (call_repo call) = Inr c" "github_call net a call = rest_call c call"
proof (cases "(\<exists>repo branch. call = BranchProtection repo branch) \<or> (\<exists>e. rest_client_for net a (call_repo call) = Inl e)")
  case True
  then have "\<exists>e. github_call net a call = rest_err e"
    by (cases call) (auto simp: github_call_def)
  then show ?thesis
    using refused by blast
next
  case False
  then obtain c where "rest_client_for net a (call_repo call) = Inr c"
    by (metis sum.exhaust)
  moreover have "github_call net a call = rest_call c call"
    using False calculation by (cases call) (simp_all add: github_call_def)
  ultimately show ?thesis
    using client by blast
qed

text \<open>
  C9: The adapter's own code sends the token only where it should: every request it hands to the
  HTTP client goes below the REST base of the upstream with the vault's token for the repository
  of the call, wherever the Link headers of the upstream point, or is a redirect hop of a job log,
  whose redirects the code follows itself, without a token. Without a token in the vault there is
  no request at all, and the call is refused. (Redirects of the other calls are followed by
  \<open>net/http\<close> inside \<open>Client.Do\<close>, which is a parameter: they are not among these requests.)
\<close>

theorem github_requests:
  assumes "github_call net a call l = Some (l', r)"
  shows "\<exists>rqs. l' = l @ rqs \<and>
     (rqs \<noteq> [] \<longrightarrow>
        (\<exists>base creds c. gh_base a = Inr base \<and> gh_creds a = Some creds \<and> creds (call_repo call) = Some c \<and>
           cr_token c \<noteq> [] \<and>
           (\<forall>rq \<in> set rqs.
              ro_bearer rq = Some (cr_token c) \<and> has_prefix (ro_url rq) (trim_right CHR ''/'' base @ ''/'') \<or>
              is_log_call call \<and> ro_bearer rq = None))) \<and>
     ((\<forall>creds c. gh_creds a = Some creds \<longrightarrow> creds (call_repo call) = Some c \<longrightarrow> cr_token c = []) \<longrightarrow>
        rqs = [] \<and> (\<forall>reply. r \<noteq> Inr reply))"
proof (cases rule: github_call_cases[of net a call])
  case (refused e)
  then show ?thesis
    using assms by (auto simp: rest_err_def)
next
  case (client c)
  obtain base creds cr where known: "gh_base a = Inr base" "gh_creds a = Some creds"
    "creds (call_repo call) = Some cr" "cr_token cr \<noteq> []" "c = rest_new net base (cr_token cr)"
    using client(1) by (rule rest_client_token)
  have base: "rc_token c = cr_token cr" "rc_base c = trim_right CHR ''/'' base"
    by (simp_all add: known(5) rest_new_def)
  have run: "rest_call c call l = Some (l', r)"
    using assms client(2) by simp
  have "sends (\<lambda>rq. api_request c rq \<or> is_log_call call \<and> ro_bearer rq = None) (rest_call c call)"
  proof (cases "is_log_call call")
    case True
    then show ?thesis
      using sends_rest_call[of c call] by (auto simp: log_request_def[abs_def] elim: sends_mono)
  next
    case False
    then show ?thesis
      using sends_api_call[of call c] by (auto elim: sends_mono)
  qed
  from this run obtain rqs where "l' = l @ rqs"
    "\<forall>rq \<in> set rqs. api_request c rq \<or> is_log_call call \<and> ro_bearer rq = None"
    by (rule sendsD)
  then show ?thesis
    using known base by (intro exI[of _ rqs]) (auto simp: api_request_def)
qed

definition demo_log :: "rest_out list" where
  "demo_log =
     [\<lparr>ro_method = ''GET'', ro_url = ''https://api.github.com/repos/acme/app/commits/main/check-runs?per_page=100'',
       ro_bearer = Some ''t0ken'', ro_body = None\<rparr>,
      \<lparr>ro_method = ''GET'', ro_url = ''https://api.github.com/repos/acme/app/actions/jobs/7/logs'',
       ro_bearer = Some ''t0ken'', ro_body = None\<rparr>,
      \<lparr>ro_method = ''GET'', ro_url = ''https://storage/log'', ro_bearer = None, ro_body = None\<rparr>]"

lemma demo_run:
  "github_call demo_net demo_github (CheckLog ''acme/app'' ''main'' ''build'' 100) [] = Some (demo_log, Inl ErrNotFound)"
  by code_simp

theorem github_requests_witness:
  "\<exists>rqs. demo_log = [] @ rqs \<and> rqs \<noteq> [] \<and>
     (\<exists>base creds c. gh_base demo_github = Inr base \<and> gh_creds demo_github = Some creds \<and>
        creds ''acme/app'' = Some c \<and> cr_token c \<noteq> [] \<and>
        \<not> (\<exists>rq \<in> set rqs.
              \<not> (ro_bearer rq = Some (cr_token c) \<and> has_prefix (ro_url rq) (trim_right CHR ''/'' base @ ''/'')) \<and>
              ro_bearer rq \<noteq> None))"
  using github_requests[OF demo_run] by (auto simp: demo_log_def)

section \<open>Calls return\<close>

text \<open>
  C35: Every call returns: the calls on pull requests, issues and CI state after at most 20
  requests handed to the HTTP client (each one \<open>Client.Do\<close>), however many pages the upstream links, and a job log after at most 120 requests and
  the hops of one chain of redirects, when the server ends every chain within \<open>h\<close> hops (the code
  sets no limit on them).
\<close>

theorem github_returns:
  assumes "is_log_call call \<longrightarrow> (\<forall>rq l. settles h net rq l)"
  shows "\<exists>rqs r. github_call net a call l = Some (l @ rqs, r) \<and> length rqs \<le> (if is_log_call call then 120 + h else 20)"
proof (cases rule: github_call_cases[of net a call])
  case (refused e)
  then show ?thesis
    by (simp add: rest_err_def)
next
  case (client c)
  have net: "rc_net c = net"
    using client(1) by (rule rest_client_token) (simp add: rest_new_def)
  have "returns (if is_log_call call then 120 + h else 20) (rest_call c call)"
  proof (cases "is_log_call call")
    case True
    then have "\<And>rq l. settles h (rc_net c) rq l"
      using assms net by simp
    then show ?thesis
      using True returns_check_log[of h c]
      by (cases call) (auto simp: is_log_call_def intro!: returns_map)
  next
    case False
    then show ?thesis
      using returns_api_call by simp
  qed
  then show ?thesis
    unfolding client(2) returns_def by blast
qed

lemma demo_settles: "settles 2 demo_net rq l"
  by (simp add: numeral_2_eq_2 demo_net_def demo_response_def header_get_def redirect_status_def)

theorem github_returns_witness:
  "\<exists>rqs r. github_call demo_net demo_github (CheckLog ''acme/app'' ''main'' ''build'' 100) [] = Some ([] @ rqs, r) \<and>
     length rqs \<le> 122"
  using github_returns[of "CheckLog ''acme/app'' ''main'' ''build'' 100" 2 demo_net demo_github "[]"] demo_settles
  by (simp add: is_log_call_def)

section \<open>CI state\<close>

















text \<open>A run that cannot be classified does not keep the verdict from being success.\<close>

lemma unknown_run_passes:
  "rs_overall (rollup_ci
     [\<lparr>rk_id = 1, rk_name = ''build'', rk_status = ''completed'', rk_conclusion = ''success'', rk_details = []\<rparr>,
      \<lparr>rk_id = 2, rk_name = ''deploy'', rk_status = ''completed'', rk_conclusion = ''startup_failure'', rk_details = []\<rparr>] [])
   = ''success''"
  by code_simp

section \<open>Job logs\<close>

text \<open>
  C40: The circular buffer of \<open>tailRead\<close> is equivalent to keeping everything: it returns the last
  \<open>max_bytes\<close> bytes of what was read and says whether bytes were dropped; and below the ceiling of
  64 MiB a stream that ends without an error is read whole.
\<close>

theorem tail_read_exact:
  "tail_read rs max_bytes =
     (case consumed (max min_hard_ceiling (nat max_bytes)) 0 rs of
        Inl e \<Rightarrow> Inl e
      | Inr s \<Rightarrow> Inr (last_n (nat max_bytes) s, length s > nat max_bytes)) \<and>
   ((\<forall>re \<in> snd ` set rs. re = More \<or> re = Eof) \<and> (\<forall>re \<in> snd ` set (butlast rs). re = More) \<and>
    length (concat (map fst rs)) < max min_hard_ceiling (nat max_bytes) \<longrightarrow>
      tail_read rs max_bytes =
        Inr (last_n (nat max_bytes) (concat (map fst rs)), length (concat (map fst rs)) > nat max_bytes))"
proof -
  have "consumed (max min_hard_ceiling (nat max_bytes)) 0 rs = Inr (concat (map fst rs))"
    if "\<forall>re \<in> snd ` set rs. re = More \<or> re = Eof" "\<forall>re \<in> snd ` set (butlast rs). re = More"
      "length (concat (map fst rs)) < max min_hard_ceiling (nat max_bytes)"
    using that by (intro consumed_all) simp_all
  then show ?thesis
    by (auto simp: tail_read_consumed)
qed

theorem tail_read_exact_witness:
  "tail_read [(''abc'', More), (''defg'', More), (''h'', Eof)] 4 = Inr (''efgh'', True)"
  using tail_read_exact[of "[(''abc'', More), (''defg'', More), (''h'', Eof)]" 4]
  by (simp add: min_hard_ceiling_def last_n_def)

end
