(* ===== verification/Config.thy ===== *)
theory Config
  imports Engine Pathmatch
begin

text \<open>
  The configuration (\<open>internal/config/config.go\<close>, \<open>policy.go\<close>): the parsed YAML as records, what
  \<open>validate\<close> rejects, the defaults, and the translation of the policy section for the engine and
  the path matcher. The YAML parser, \<open>net.SplitHostPort\<close> and \<open>url.Parse\<close> are parameters.
\<close>

section \<open>The policy section\<close>

record policy_yaml =
  py_mode :: string
  py_rules :: "(string \<times> rule_config) list"
  py_mirror_dir :: string
  py_max_packfile :: int
  py_read_deny :: "string list"
  py_dry_run :: bool

definition to_policy :: "policy_yaml \<Rightarrow> policy_config" where
  "to_policy p =
     \<lparr>pc_mode = (if py_mode p = ''collect_all'' then CollectAll else FirstDeny), pc_rules = py_rules p\<rparr>"

definition has_enabled_rules :: "policy_yaml \<Rightarrow> bool" where
  "has_enabled_rules p \<longleftrightarrow> list_ex (\<lambda>(name, rc). rc_enabled rc) (py_rules p)"

definition default_max_packfile :: int where
  "default_max_packfile = 256 * 2 ^ 20"

definition max_packfile_or_default :: "policy_yaml \<Rightarrow> int" where
  "max_packfile_or_default p = (if py_max_packfile p > 0 then py_max_packfile p else default_max_packfile)"

definition read_deny_enabled :: "policy_yaml \<Rightarrow> bool" where
  "read_deny_enabled p \<longleftrightarrow> py_read_deny p \<noteq> []"

definition malformed_read_deny :: "policy_yaml \<Rightarrow> string list" where
  "malformed_read_deny p = filter is_malformed (py_read_deny p)"

definition read_deny_matcher :: "policy_yaml \<Rightarrow> pattern list option" where
  "read_deny_matcher p = (if \<not> read_deny_enabled p then None else Some (new_matcher (py_read_deny p)))"

section \<open>The other sections\<close>

record upstream_yaml =
  uy_kind :: string
  uy_url :: string
  uy_credentials_file :: string

record auth_yaml =
  ay_tokens :: "(string \<times> string) list"
  ay_unsafe :: bool

definition requires_explicit_opt_out :: "auth_yaml \<Rightarrow> bool" where
  "requires_explicit_opt_out a \<longleftrightarrow> ay_tokens a = [] \<and> \<not> ay_unsafe a"

record ssh_yaml =
  sy_listen :: string
  sy_host_key :: string
  sy_authorized :: "(string \<times> string) list"

record broker_yaml =
  by_listen :: string
  by_agents :: "string list"
  by_ops :: "string list"
  by_merge_method :: string
  by_allow_logs :: bool
  by_max_log :: int
  by_agent_repos :: "(string \<times> string list) list"

record preflight_yaml =
  fy_enabled :: "bool option"
  fy_timeout :: int
  fy_probe_timeout :: int
  fy_max_repos :: int
  fy_concurrency :: int

definition preflight_enabled :: "preflight_yaml \<Rightarrow> bool" where
  "preflight_enabled p \<longleftrightarrow> (case fy_enabled p of None \<Rightarrow> True | Some b \<Rightarrow> b)"

text \<open>The knobs of the preflight with their defaults; durations in seconds.\<close>

definition preflight_timeout :: "preflight_yaml \<Rightarrow> int" where
  "preflight_timeout p = (if fy_timeout p > 0 then fy_timeout p else 30)"

definition preflight_probe_timeout :: "preflight_yaml \<Rightarrow> int" where
  "preflight_probe_timeout p = (if fy_probe_timeout p > 0 then fy_probe_timeout p else 3)"

definition preflight_max_repos :: "preflight_yaml \<Rightarrow> int" where
  "preflight_max_repos p = (if fy_max_repos p > 0 then fy_max_repos p else 20)"

definition preflight_concurrency :: "preflight_yaml \<Rightarrow> int" where
  "preflight_concurrency p = (if fy_concurrency p > 0 then fy_concurrency p else 4)"

record config =
  cf_listen :: string
  cf_upstream :: upstream_yaml
  cf_issue_upstream :: upstream_yaml
  cf_repos :: "string \<rightharpoonup> string"
  cf_public_repos :: "string list"
  cf_auth :: auth_yaml
  cf_policy :: policy_yaml
  cf_ssh :: ssh_yaml
  cf_audit_file :: string
  cf_webhook :: string
  cf_broker :: broker_yaml
  cf_preflight :: preflight_yaml

section \<open>Validation\<close>

text \<open>A parsed URL: its scheme, its host name and its host with the port.\<close>

type_synonym url_parser = "string \<Rightarrow> go_error + (string \<times> string \<times> string)"

definition validate_host_port :: "(string \<Rightarrow> go_error + (string \<times> string)) \<Rightarrow> string \<Rightarrow> go_error option" where
  "validate_host_port split a =
     (case split a of
        Inl e \<Rightarrow> Some (''invalid host:port '' @ go_quote a @ '': '' @ e)
      | Inr (host, port) \<Rightarrow>
          if port = [] then Some (''invalid host:port '' @ go_quote a @ '': missing port'') else None)"

definition validate_webhook_url :: "url_parser \<Rightarrow> string \<Rightarrow> go_error option" where
  "validate_webhook_url parse u =
     (case parse u of
        Inl e \<Rightarrow> Some e
      | Inr (scheme, name, host) \<Rightarrow>
          if scheme = [] \<or> host = [] then Some ''missing scheme or host''
          else if scheme \<noteq> ''http'' \<and> scheme \<noteq> ''https'' then
            Some (''unsupported scheme '' @ go_quote scheme @ '' (http/https only)'')
          else None)"

text \<open>The first error of a list of checks.\<close>

fun first_error :: "go_error option list \<Rightarrow> go_error option" where
  "first_error [] = None"
| "first_error (None # cs) = first_error cs"
| "first_error (Some e # cs) = Some e"

definition reject_if :: "bool \<Rightarrow> go_error \<Rightarrow> go_error option" where
  "reject_if b e = (if b then Some e else None)"

definition validate :: "(string \<Rightarrow> go_error + (string \<times> string)) \<Rightarrow> url_parser \<Rightarrow> config \<Rightarrow> go_error option" where
  "validate split parse c = first_error
     [reject_if (cf_listen c = []) ''config: listen is required'',
      reject_if (uy_url (cf_upstream c) = []) ''config: upstream.url is required'',
      reject_if (uy_kind (cf_issue_upstream c) \<noteq> [] \<and> uy_url (cf_issue_upstream c) = [])
        ''config: issue_upstream.url is required when issue_upstream.kind is set'',
      reject_if (sy_listen (cf_ssh c) \<noteq> [] \<and> sy_authorized (cf_ssh c) = [])
        ''config: ssh.authorized_keys is required when ssh.listen is set (an enabled SSH frontend with no authorized keys denies everyone)'',
      (if cf_webhook c \<noteq> []
       then map_option (\<lambda>e. ''config: alerts.webhook: '' @ e) (validate_webhook_url parse (cf_webhook c))
       else None),
      (if by_listen (cf_broker c) \<noteq> []
       then first_error
         [map_option (\<lambda>e. ''config: broker.listen: '' @ e) (validate_host_port split (by_listen (cf_broker c))),
          reject_if (by_listen (cf_broker c) = cf_listen c)
            ''config: broker.listen must differ from listen (broker runs on a separate port)'']
       else None),
      reject_if (by_max_log (cf_broker c) < 0) ''config: broker.max_check_log_bytes must not be negative'',
      reject_if (fy_timeout (cf_preflight c) < 0 \<or> fy_probe_timeout (cf_preflight c) < 0 \<or>
                 fy_max_repos (cf_preflight c) < 0 \<or> fy_concurrency (cf_preflight c) < 0)
        ''config: preflight timeout_seconds/probe_timeout_seconds/max_repos_per_profile/concurrency must not be negative'']"

definition parse_config ::
  "(string \<Rightarrow> go_error + config) \<Rightarrow> (string \<Rightarrow> go_error + (string \<times> string)) \<Rightarrow> url_parser \<Rightarrow> string \<Rightarrow>
   go_error + config" where
  "parse_config yaml split parse b =
     (case yaml b of
        Inl e \<Rightarrow> Inl (''config: parse yaml: '' @ e)
      | Inr c \<Rightarrow> (case validate split parse c of Some e \<Rightarrow> Inl e | None \<Rightarrow> Inr c))"

definition load_config ::
  "(string \<Rightarrow> go_error + string) \<Rightarrow> (string \<Rightarrow> go_error + config) \<Rightarrow>
   (string \<Rightarrow> go_error + (string \<times> string)) \<Rightarrow> url_parser \<Rightarrow> string \<Rightarrow> go_error + config" where
  "load_config read yaml split parse path =
     (case read path of
        Inl e \<Rightarrow> Inl (''config: read '' @ path @ '': '' @ e)
      | Inr b \<Rightarrow> parse_config yaml split parse b)"

definition config_repo_path :: "config \<Rightarrow> string \<Rightarrow> string" where
  "config_repo_path c repo = (case cf_repos c repo of Some p \<Rightarrow> if p \<noteq> [] then p else repo | None \<Rightarrow> repo)"

section \<open>What a loaded configuration satisfies\<close>

lemma first_error_None: "first_error cs = None \<longleftrightarrow> (\<forall>c \<in> set cs. c = None)"
  by (induction cs rule: first_error.induct) auto

lemma reject_if_None [simp]: "reject_if b e = None \<longleftrightarrow> \<not> b"
  by (simp add: reject_if_def)

lemma validate_None:
  assumes "validate split parse c = None"
  shows "cf_listen c \<noteq> []" "uy_url (cf_upstream c) \<noteq> []"
    "sy_listen (cf_ssh c) \<noteq> [] \<longrightarrow> sy_authorized (cf_ssh c) \<noteq> []"
    "by_listen (cf_broker c) \<noteq> [] \<longrightarrow> by_listen (cf_broker c) \<noteq> cf_listen c"
    "0 \<le> by_max_log (cf_broker c)"
  using assms by (auto simp: validate_def first_error_None)

lemma load_config_valid: "load_config read yaml split parse path = Inr c \<Longrightarrow> validate split parse c = None"
  by (auto simp: load_config_def parse_config_def split: sum.splits option.splits)

end
