(* ===== verification/Opening.thy ===== *)
theory Opening
  imports Gitx Access
begin

text \<open>
  Opening a mirror (\<open>gitx.Open\<close> with \<open>repoSlug\<close>, \<open>upstreamRepoURL\<close> and \<open>mirrorExists\<close>, and the
  cache of \<open>newMirrorOpener\<close> in \<open>cmd/git-proxy/main.go\<close>). The first eight hexadecimal digits of
  the SHA-256 of a repository path, the insertion of the user info into a URL (\<open>net/url\<close>) and
  \<open>exec.LookPath\<close> are parameters; \<open>filepath.Join\<close> with \<open>filepath.Clean\<close> is modelled for Unix paths.
\<close>

section \<open>Paths\<close>

text \<open>The elements of a cleaned path, last one first.\<close>

fun clean_parts :: "bool \<Rightarrow> string list \<Rightarrow> string list \<Rightarrow> string list" where
  "clean_parts rooted acc [] = acc"
| "clean_parts rooted acc (p # ps) =
     (if p = [] \<or> p = ''.'' then clean_parts rooted acc ps
      else if p = ''..'' then
        (case acc of
           [] \<Rightarrow> clean_parts rooted (if rooted then [] else [p]) ps
         | a # as \<Rightarrow> clean_parts rooted (if a = ''..'' then p # acc else as) ps)
      else clean_parts rooted (p # acc) ps)"

definition path_clean :: "string \<Rightarrow> string" where
  "path_clean s =
     (let rooted = (has_prefix s ''/'');
          parts = rev (clean_parts rooted [] (split_on CHR ''/'' s)) in
      if rooted then ''/'' @ join ''/'' parts
      else if parts = [] then ''.''
      else join ''/'' parts)"

definition path_join :: "string \<Rightarrow> string \<Rightarrow> string" where
  "path_join a b = path_clean (a @ ''/'' @ b)"

section \<open>The mirror of a repository\<close>

definition repo_slug :: "(string \<Rightarrow> string) \<Rightarrow> string \<Rightarrow> string" where
  "repo_slug hash8 repo =
     (if repo = [] then ''default''
      else map (\<lambda>c. if c = CHR ''/'' then CHR ''-'' else c) repo @ ''-'' @ hash8 repo)"

text \<open>\<open>with_user raw user pass\<close> is the URL with the user info, or \<open>None\<close> when it does not parse.\<close>

definition upstream_repo_url ::
  "(string \<Rightarrow> string \<Rightarrow> string \<Rightarrow> string option) \<Rightarrow> string \<Rightarrow> string \<Rightarrow>
   (string \<Rightarrow> credentials option) option \<Rightarrow> string" where
  "upstream_repo_url with_user upstream_url repo creds =
     (let raw = trim_right CHR ''/'' upstream_url @ ''/'' @ repo in
      case creds of
        None \<Rightarrow> raw
      | Some lookup \<Rightarrow>
          (case lookup repo of
             None \<Rightarrow> raw
           | Some c \<Rightarrow>
               (case basic_user_password c of
                  None \<Rightarrow> raw
                | Some (user, pass) \<Rightarrow> (case with_user raw user pass of None \<Rightarrow> raw | Some u \<Rightarrow> u))))"

definition mirror_exists :: "'r env \<Rightarrow> bool \<Rightarrow> ('r, bool) mop" where
  "mirror_exists env git_found m =
     (if m_dir m = [] then (m, Inr False)
      else if \<not> x_stat env (m_disk m) (path_join (m_dir m) ''HEAD'') then (m, Inr False)
      else if \<not> git_found then (m, Inr False)
      else bind_op (git_exec env [''-C'', m_dir m, ''rev-parse'', ''--git-dir''] [])
             (\<lambda>r. ret_op (gr_error r = None)) m)"

record mirror_params =
  mp_hash8 :: "string \<Rightarrow> string"
  mp_with_user :: "string \<Rightarrow> string \<Rightarrow> string \<Rightarrow> string option"
  mp_git_found :: bool

definition open_mirror ::
  "'r env \<Rightarrow> mirror_params \<Rightarrow> string \<Rightarrow> string \<Rightarrow> string \<Rightarrow> (string \<Rightarrow> credentials option) option \<Rightarrow>
   ('r, unit) mop" where
  "open_mirror env mp upstream_url repo root creds m =
     (let m1 = m\<lparr>m_dir := path_join root (repo_slug (mp_hash8 mp) repo),
                 m_url := upstream_repo_url (mp_with_user mp) upstream_url repo creds\<rparr> in
      bind_op (mirror_exists env (mp_git_found mp)) (\<lambda>found.
        bind_op (if found then ret_op ()
                 else wrap_op (''gitx: open mirror for '' @ go_quote repo) (clone_mirror env)) (\<lambda>_.
          bind_op (wrap_op ''gitx: mirror gc.auto'' (run_git env [''config'', ''gc.auto'', ''0'']))
            (\<lambda>_. ret_op ()))) m1)"

text \<open>
  The opener with its cache, seen from one repository: the mirror is open when it has a
  directory; opening fails without leaving one.
\<close>

definition mirror_opener ::
  "'r env \<Rightarrow> mirror_params \<Rightarrow> string \<Rightarrow> string \<Rightarrow> (string \<Rightarrow> credentials option) option \<Rightarrow>
   string \<Rightarrow> 'r mirror \<Rightarrow> 'r mirror \<times> go_error option" where
  "mirror_opener env mp upstream_url root creds repo m =
     (if m_dir m \<noteq> [] then (m, None)
      else (case open_mirror env mp upstream_url repo root creds m of
              (m', Inl e) \<Rightarrow> (m'\<lparr>m_dir := []\<rparr>, Some e)
            | (m', Inr _) \<Rightarrow> (m', None)))"

section \<open>Where a mirror lies\<close>

lemma slug_plain: "CHR ''/'' \<notin> set (hash8 repo) \<Longrightarrow> CHR ''/'' \<notin> set (repo_slug hash8 repo)"
  by (auto simp: repo_slug_def)

lemma slug_not_dots: "hash8 repo \<noteq> [] \<Longrightarrow> CHR ''.'' \<notin> set (hash8 repo) \<Longrightarrow> repo_slug hash8 repo \<notin> {[], ''.'', ''..''}"
  by (cases "hash8 repo" rule: rev_cases) (auto simp: repo_slug_def append_eq_Cons_conv Cons_eq_append_conv)

lemma clean_parts_snoc:
  assumes "p \<noteq> []" "p \<noteq> ''.''" "p \<noteq> ''..''"
  shows "clean_parts rooted acc (ps @ [p]) = p # clean_parts rooted acc ps"
  using assms by (induction rooted acc ps rule: clean_parts.induct) (auto split: list.splits)

lemma split_on_snoc: "CHR ''/'' \<notin> set b \<Longrightarrow> split_on CHR ''/'' (a @ ''/'' @ b) = split_on CHR ''/'' a @ [b]"
  by (induction a) (auto simp: split_on_none split: list.splits)

lemma join_snoc: "ps \<noteq> [] \<Longrightarrow> join sep (ps @ [p]) = join sep ps @ sep @ p"
proof (induction ps)
  case (Cons x xs)
  then show ?case
    by (cases xs) auto
qed simp

text \<open>
  The elements of a cleaned path; the mirror of a repository has those of the root and the slug, so
  it is a direct child of the root, whatever the repository is called.
\<close>

definition path_elements :: "string \<Rightarrow> string list" where
  "path_elements s = rev (clean_parts (has_prefix s ''/'') [] (split_on CHR ''/'' s))"

lemma path_clean_elements:
  "path_clean s =
     (if has_prefix s ''/'' then ''/'' @ join ''/'' (path_elements s)
      else if path_elements s = [] then ''.'' else join ''/'' (path_elements s))"
  by (simp add: path_clean_def path_elements_def Let_def)

lemma join_child:
  assumes "b \<notin> {[], ''.'', ''..''}" "CHR ''/'' \<notin> set b" "root \<noteq> []"
  shows "path_elements (root @ ''/'' @ b) = path_elements root @ [b]"
    "path_join root b = (if has_prefix root ''/'' then ''/'' else []) @ join ''/'' (path_elements root @ [b])"
proof -
  have pre: "has_prefix (root @ ''/'' @ b) ''/'' = has_prefix root ''/''"
    using assms(3) by (cases root) (auto simp: has_prefix_iff)
  show all: "path_elements (root @ ''/'' @ b) = path_elements root @ [b]"
    unfolding path_elements_def split_on_snoc[OF assms(2)] pre using assms(1) by (simp add: clean_parts_snoc)
  show "path_join root b = (if has_prefix root ''/'' then ''/'' else []) @ join ''/'' (path_elements root @ [b])"
    unfolding path_join_def path_clean_elements all pre by simp
qed

end
