(* ===== verification/Wiring.thy ===== *)
theory Wiring
  imports Config Opening Broker Github SshFront Rules
begin

text \<open>
  Startup (\<open>cmd/git-proxy/main.go\<close>, \<open>internal/upstream/registry.go\<close>, \<open>internal/alert\<close>): from the
  configuration to the frontends and the broker, with every check that stops it and every line it
  logs. The system record holds what \<open>serveTransports\<close> is given. What the program takes from the
  machine and from Go's library is the record \<open>machine\<close>; the time of a log line is left out.
\<close>

section \<open>The machine\<close>

record ('r, 'k) machine =
  os_version :: string
  os_listen :: "string \<Rightarrow> go_error option"
  os_read :: "string \<Rightarrow> go_error + string"
  os_profiles :: "string \<Rightarrow> go_error + raw_profile list"
  os_env :: "string \<rightharpoonup> string"
  os_url :: url_parser
  os_without_user :: "string \<Rightarrow> string" \<comment> \<open>the URL of a parsed URL without its user info\<close>
  os_http :: http_client
  os_gunzip :: "source \<Rightarrow> go_error + source"
  os_net :: rest_net
  os_git :: "'r env"
  os_gogit :: gogit
  os_mirror :: mirror_params
  os_audit_open :: "string \<Rightarrow> go_error + (audit_event \<Rightarrow> go_error option)"
  os_post :: "string \<Rightarrow> alert \<Rightarrow> go_error + (nat \<times> string)"
  os_compile :: "string \<Rightarrow> go_error + regexp"
  os_host_key :: "string \<Rightarrow> go_error + 'k"
  os_ephemeral :: "go_error + 'k"
  os_parse_key :: "string \<Rightarrow> go_error + 'k"
  os_fingerprint :: "'k \<Rightarrow> string"
  os_json :: json_api

text \<open>A step of the startup: the log so far, and an error or a result.\<close>

type_synonym 'a step = "string list \<Rightarrow> string list \<times> (go_error + 'a)"

definition done_with :: "'a \<Rightarrow> 'a step" where
  "done_with a l = (l, Inr a)"

definition stop_with :: "go_error \<Rightarrow> 'a step" where
  "stop_with e l = (l, Inl e)"

definition and_then :: "'a step \<Rightarrow> ('a \<Rightarrow> 'b step) \<Rightarrow> 'b step" where
  "and_then f k l = (case f l of (l', Inl e) \<Rightarrow> (l', Inl e) | (l', Inr a) \<Rightarrow> k a l')"

definition log_lines :: "string list \<Rightarrow> unit step" where
  "log_lines ls l = (l @ ls, Inr ())"

definition or_stop :: "string \<Rightarrow> go_error + 'a \<Rightarrow> 'a step" where
  "or_stop what r = (case r of Inl e \<Rightarrow> stop_with (what @ e) | Inr a \<Rightarrow> done_with a)"

definition check_that :: "string \<Rightarrow> go_error option \<Rightarrow> unit step" where
  "check_that what r = (case r of Some e \<Rightarrow> stop_with (what @ e) | None \<Rightarrow> done_with ())"

definition dash :: string where
  "dash = [CHR 0xE2, CHR 0x80, CHR 0x94]"

section \<open>Redaction of URLs\<close>

definition redact_url :: "('r, 'k) machine \<Rightarrow> string \<Rightarrow> string" where
  "redact_url os u = (case os_url os u of Inl e \<Rightarrow> u | Inr _ \<Rightarrow> os_without_user os u)"

definition redact_webhook_url :: "('r, 'k) machine \<Rightarrow> string \<Rightarrow> string" where
  "redact_webhook_url os u =
     (case os_url os u of
        Inl e \<Rightarrow> u
      | Inr (scheme, name, host) \<Rightarrow> if scheme = [] \<or> host = [] then u else scheme @ ''://'' @ host)"

section \<open>The upstream registry\<close>

text \<open>An upstream of the git legs, with the SCM capabilities its adapter implements.\<close>

record built =
  bt_git :: upstream
  bt_scm :: scm_upstream

type_synonym upstream_factory = "string \<Rightarrow> (string \<Rightarrow> credentials option) option \<Rightarrow> go_error + built"
type_synonym upstream_registry = "string \<rightharpoonup> upstream_factory"

definition register_upstream :: "upstream_registry \<Rightarrow> string \<Rightarrow> upstream_factory \<Rightarrow> upstream_registry option" where
  "register_upstream reg name f = (if reg name \<noteq> None then None else Some (reg(name \<mapsto> f)))"

definition build_upstream ::
  "upstream_registry \<Rightarrow> string \<Rightarrow> string \<Rightarrow> (string \<Rightarrow> credentials option) option \<Rightarrow> go_error + built" where
  "build_upstream reg kind0 url creds =
     (let kind = (if kind0 = [] then ''plain'' else kind0) in
      case reg kind of
        None \<Rightarrow> Inl (''upstream: unknown kind '' @ go_quote kind)
      | Some f \<Rightarrow> f url creds)"

text \<open>
  The GitHub adapter as a provider: a call after the calls \<open>h\<close> answers by the requests those made.
  A call whose redirects never end is ended by the request's context.
\<close>

definition github_log :: "rest_net \<Rightarrow> github \<Rightarrow> scm_call list \<Rightarrow> rest_out list" where
  "github_log net a h =
     foldl (\<lambda>l c. case github_call net a c l of None \<Rightarrow> l | Some (l', _) \<Rightarrow> l') [] h"

definition github_scm :: "rest_net \<Rightarrow> github \<Rightarrow> scm" where
  "github_scm net a h c =
     (case github_call net a c (github_log net a h) of
        None \<Rightarrow> Inl (OtherError ''context canceled'')
      | Some (_, r) \<Rightarrow> r)"

definition plain_factory :: "('r, 'k) machine \<Rightarrow> upstream_factory" where
  "plain_factory os url creds =
     Inr \<lparr>bt_git = plain_upstream (new_plain (os_http os) url creds),
          bt_scm = \<lparr>su_prs = None, su_issues = None, su_logs = None\<rparr>\<rparr>"

definition github_factory :: "('r, 'k) machine \<Rightarrow> upstream_factory" where
  "github_factory os url creds =
     (let scm = github_scm (os_net os) (new_github (os_url os) url creds) in
      Inr \<lparr>bt_git = plain_upstream (new_plain (os_http os) url creds),
           bt_scm = \<lparr>su_prs = Some scm, su_issues = Some scm, su_logs = Some scm\<rparr>\<rparr>)"

definition default_upstreams :: "('r, 'k) machine \<Rightarrow> upstream_registry" where
  "default_upstreams os = [''plain'' \<mapsto> plain_factory os, ''github'' \<mapsto> github_factory os]"

section \<open>Alert sinks\<close>

text \<open>\<open>MultiAlertSink.Alert\<close>: every sink is tried, a failure is logged, and the result is no error.\<close>

fun multi_alert :: "(alert \<Rightarrow> go_error option) list \<Rightarrow> alert \<Rightarrow> string list \<times> go_error option" where
  "multi_alert [] a = ([], None)"
| "multi_alert (s # ss) a =
     (let (ls, r) = multi_alert ss a in
      case s a of
        None \<Rightarrow> (ls, r)
      | Some e \<Rightarrow> ((''alert: multi-sink child delivery failed: '' @ e) # ls, r))"

text \<open>The line of the log sink: denied paths and objects are counted, not named.\<close>

definition alert_line :: "alert \<Rightarrow> string" where
  "alert_line a =
     ''git-proxy alert: transport='' @ al_transport a @ '' agent='' @ go_quote (al_agent a) @
     '' repo='' @ go_quote (al_repo a) @ '' service='' @ al_service a @ '' verdict='' @ al_verdict a @
     '' dry_run='' @ (if al_dry_run a then ''true'' else ''false'') @
     '' reasons='' @ go_quote (join ''; '' (al_reasons a)) @
     '' denied_paths='' @ show_nat (length (al_denied_paths a)) @
     '' denied_oids='' @ show_nat (length (al_denied_oids a))"

definition log_alert :: "alert \<Rightarrow> go_error option" where
  "log_alert a = None"

definition new_webhook :: "url_parser \<Rightarrow> string \<Rightarrow> go_error option" where
  "new_webhook parse u =
     (if u = [] then Some ''alert/webhook: empty url''
      else map_option (\<lambda>e. ''alert/webhook: malformed url: '' @ e) (validate_webhook_url parse u))"

definition webhook_alert :: "(string \<Rightarrow> alert \<Rightarrow> go_error + (nat \<times> string)) \<Rightarrow> string \<Rightarrow> alert \<Rightarrow> go_error option" where
  "webhook_alert post u a =
     (case post u a of
        Inl e \<Rightarrow> Some (''alert/webhook: post: '' @ e)
      | Inr (status, text) \<Rightarrow>
          if status < 200 \<or> status \<ge> 300 then Some (''alert/webhook: post returned '' @ text) else None)"

end
