(* ===== verification/Startup.thy ===== *)
theory Startup
  imports Wiring
begin

text \<open>
  The function \<open>run\<close> of \<open>cmd/git-proxy/main.go\<close> up to \<open>serveTransports\<close>, stage by stage in its
  order. Every stage may stop the startup.
\<close>

section \<open>Credentials, authentication and sinks\<close>

record ('r, 'k) system =
  sn_http :: "'r http_front"
  sn_ssh :: "('k \<times> 'r ssh_front) option"
  sn_broker :: "broker option"
  sn_scm_vault :: "vault option"
  sn_issue_vault :: "vault option"

definition load_store :: "('r, 'k) machine \<Rightarrow> string \<Rightarrow> string \<Rightarrow> vault option step" where
  "load_store os what file =
     (if file = [] then done_with None
      else (case new_vault (os_read os) (os_profiles os) (os_env os) file of
              (ls, r) \<Rightarrow> and_then (log_lines ls) (\<lambda>_. and_then (or_stop what r) (\<lambda>v. done_with (Some v)))))"

definition store_lookup :: "vault option \<Rightarrow> (string \<Rightarrow> credentials option) option" where
  "store_lookup v = map_option credentials_for v"

definition load_public :: "string list \<Rightarrow> (string \<Rightarrow> bool) option step" where
  "load_public patterns =
     (if patterns = [] then done_with None
      else and_then (or_stop ''public_repos: '' (new_bool_matcher patterns)) (\<lambda>m. done_with (Some m)))"

definition open_relay_error :: go_error where
  "open_relay_error =
     ''config: auth.tokens is empty '' @ dash @ '' the HTTP frontend would run as an unauthenticated open relay; '' @
     ''configure at least one token, or set auth.unsafe_allow_no_auth: true to acknowledge this explicitly (not recommended for production)''"

definition load_auth :: "auth_yaml \<Rightarrow> (string \<Rightarrow> go_error + string) option step" where
  "load_auth a =
     (if ay_tokens a \<noteq> [] then done_with (Some (token_authenticate (ay_tokens a)))
      else if requires_explicit_opt_out a then stop_with open_relay_error
      else and_then (log_lines [''git-proxy: WARNING: auth.unsafe_allow_no_auth is true '' @ dash @
               '' the HTTP frontend is an OPEN relay (any client can reach the upstream with the proxy's upstream credentials). This was an explicit config choice; do not use it in production.''])
             (\<lambda>_. done_with None))"

definition open_audit ::
  "('r, 'k) machine \<Rightarrow> string \<Rightarrow> (audit_event \<Rightarrow> go_error option) option step" where
  "open_audit os file =
     (if file \<noteq> [] then
        and_then (or_stop (''audit: open '' @ file @ '': '') (os_audit_open os file)) (\<lambda>sink.
          and_then (log_lines [''git-proxy: audit enabled (file='' @ file @ '')'']) (\<lambda>_. done_with (Some sink)))
      else and_then (log_lines [''git-proxy: audit off (no audit.file) '' @ dash @ '' audit disabled''])
             (\<lambda>_. done_with None))"

definition open_alerts :: "('r, 'k) machine \<Rightarrow> string \<Rightarrow> (alert \<Rightarrow> go_error option) option step" where
  "open_alerts os hook =
     (if hook \<noteq> [] then
        and_then (check_that ''alerts: webhook: '' (new_webhook (os_url os) hook)) (\<lambda>_.
          and_then (log_lines [''git-proxy: alerts enabled (webhook='' @ redact_webhook_url os hook @ '')'']) (\<lambda>_.
            done_with (Some (\<lambda>a. snd (multi_alert [webhook_alert (os_post os) hook, log_alert] a)))))
      else and_then (log_lines [''git-proxy: alerts off (no alerts.webhook) '' @ dash @ '' alert disabled''])
             (\<lambda>_. done_with None))"

section \<open>Enforcement\<close>

text \<open>What both frontends are wired with.\<close>

record 'r enforcement =
  ef_engine :: "engine option"
  ef_opener :: "(string \<Rightarrow> 'r mirror \<Rightarrow> 'r mirror \<times> go_error option) option"
  ef_max :: int
  ef_read_deny :: "pattern list option"

definition opener_for ::
  "('r, 'k) machine \<Rightarrow> config \<Rightarrow> (string \<Rightarrow> credentials option) option \<Rightarrow>
   string \<Rightarrow> 'r mirror \<Rightarrow> 'r mirror \<times> go_error option" where
  "opener_for os cfg creds =
     mirror_opener (os_git os) (os_mirror os) (uy_url (cf_upstream cfg)) (py_mirror_dir (cf_policy cfg)) creds"

text \<open>Push enforcement: the engine and the opener, or neither.\<close>

definition load_push ::
  "('r, 'k) machine \<Rightarrow> config \<Rightarrow> (string \<Rightarrow> credentials option) option \<Rightarrow>
   (engine option \<times> (string \<Rightarrow> 'r mirror \<Rightarrow> 'r mirror \<times> go_error option) option) step" where
  "load_push os cfg creds =
     (let p = cf_policy cfg in
      if has_enabled_rules p then
        and_then (or_stop ''load policy: '' (resolve (to_policy p) (default_registry (os_compile os)))) (\<lambda>eng.
          if py_mirror_dir p = [] then
            stop_with ''config: policy.mirror.dir is required when policy rules are enabled''
          else
            and_then (log_lines [''git-proxy: push enforcement enabled (rules='' @ show_nat (length (py_rules p)) @
                '', mirror='' @ py_mirror_dir p @ '', max_packfile_bytes='' @ show_int (max_packfile_or_default p) @ '')''])
              (\<lambda>_. done_with (Some eng, Some (opener_for os cfg creds))))
      else
        and_then (log_lines [''git-proxy: push enforcement off (no policy rules enabled) '' @ dash @ '' passthrough''])
          (\<lambda>_. done_with (None, None)))"

definition quoted_list :: "string list \<Rightarrow> string" where
  "quoted_list xs = ''['' @ join '' '' (map go_quote xs) @ '']''"

text \<open>Read protection: the opener that fetches need when push enforcement has none.\<close>

definition load_read ::
  "('r, 'k) machine \<Rightarrow> config \<Rightarrow> (string \<Rightarrow> credentials option) option \<Rightarrow>
   (string \<Rightarrow> 'r mirror \<Rightarrow> 'r mirror \<times> go_error option) option \<Rightarrow>
   (string \<Rightarrow> 'r mirror \<Rightarrow> 'r mirror \<times> go_error option) option step" where
  "load_read os cfg creds opener =
     (let p = cf_policy cfg in
      if read_deny_enabled p then
        (if malformed_read_deny p \<noteq> [] then
           stop_with (''config: policy.read.deny has malformed pattern(s): '' @ quoted_list (malformed_read_deny p))
         else if py_mirror_dir p = [] then
           stop_with ''config: policy.mirror.dir is required when read protection is enabled''
         else
           and_then (log_lines [''git-proxy: read protection enabled (deny patterns='' @
               show_nat (length (py_read_deny p)) @ '', mirror='' @ py_mirror_dir p @ '')''])
             (\<lambda>_. done_with (if \<not> has_enabled_rules p then Some (opener_for os cfg creds) else opener)))
      else
        and_then (log_lines [''git-proxy: read protection off (no policy.read.deny) '' @ dash @ '' passthrough''])
          (\<lambda>_. done_with opener))"

text \<open>
  The setters of the HTTP frontend, in their order: the sinks and the dry-run flag first, then
  \<open>SetEnforcement\<close> by push enforcement or, without an engine, by read protection.
\<close>

definition wire_http ::
  "config \<Rightarrow> (audit_event \<Rightarrow> go_error option) option \<Rightarrow> (alert \<Rightarrow> go_error option) option \<Rightarrow>
   engine option \<Rightarrow> (string \<Rightarrow> 'r mirror \<Rightarrow> 'r mirror \<times> go_error option) option \<Rightarrow>
   'r http_front \<Rightarrow> 'r http_front" where
  "wire_http cfg audit alerts eng opener f0 =
     (let p = cf_policy cfg;
          f1 = (case audit of Some s \<Rightarrow> hf_set_audit_sink (Some s) ''http'' f0 | None \<Rightarrow> f0);
          f2 = (case alerts of Some s \<Rightarrow> hf_set_alert_sink (Some s) f1 | None \<Rightarrow> f1);
          f3 = (if py_dry_run p then hf_set_dry_run True f2 else f2);
          f4 = (if has_enabled_rules p \<or> read_deny_enabled p
                then hf_set_enforcement eng opener (max_packfile_or_default p) f3 else f3)
      in if read_deny_enabled p then hf_set_read_deny (read_deny_matcher p) f4 else f4)"

definition wire_ssh ::
  "config \<Rightarrow> (audit_event \<Rightarrow> go_error option) option \<Rightarrow> (alert \<Rightarrow> go_error option) option \<Rightarrow>
   engine option \<Rightarrow> (string \<Rightarrow> 'r mirror \<Rightarrow> 'r mirror \<times> go_error option) option \<Rightarrow>
   'r ssh_front \<Rightarrow> 'r ssh_front" where
  "wire_ssh cfg audit alerts eng opener f0 =
     (let p = cf_policy cfg;
          f1 = sf_set_read_deny (read_deny_matcher p) (sf_set_enforcement eng opener (max_packfile_or_default p) f0);
          f2 = (case audit of Some s \<Rightarrow> sf_set_audit_sink (Some s) ''ssh'' f1 | None \<Rightarrow> f1);
          f3 = (if py_dry_run p then sf_set_dry_run True f2 else f2)
      in case alerts of Some s \<Rightarrow> sf_set_alert_sink (Some s) f3 | None \<Rightarrow> f3)"

definition start_ssh ::
  "('r, 'k) machine \<Rightarrow> config \<Rightarrow> upstream \<Rightarrow> (string \<Rightarrow> credentials option) option \<Rightarrow>
   (string \<Rightarrow> bool) option \<Rightarrow> ('r ssh_front \<Rightarrow> 'r ssh_front) \<Rightarrow> ('k \<times> 'r ssh_front) option step" where
  "start_ssh os cfg up creds public wire =
     (let s = cf_ssh cfg in
      if sy_listen s = [] then done_with None
      else
        and_then (or_stop ''load ssh authorized keys: ''
            (new_keyauth (os_parse_key os) (os_fingerprint os) (sy_authorized s))) (\<lambda>keys.
        and_then (check_that ''ssh listen: '' (os_listen os (sy_listen s))) (\<lambda>_.
        and_then (or_stop ''ssh frontend: ''
            (new_ssh_front (os_git os) (os_gogit os) up (cf_repos cfg) (Some (key_authenticate keys))
               (os_host_key os) (os_ephemeral os) (sy_host_key s) creds public)) (\<lambda>(signer, f).
        and_then (log_lines [''git-proxy: SSH frontend enabled: listen='' @ sy_listen s]) (\<lambda>_.
          done_with (Some (signer, wire f)))))))"

section \<open>The broker\<close>

text \<open>The matchers of \<open>allowed_agent_repos\<close>, in the order of the iteration over the map.\<close>

fun agent_matchers ::
  "(string \<times> string list) list \<Rightarrow> (string \<rightharpoonup> (string \<Rightarrow> bool) option) \<Rightarrow>
   (string \<rightharpoonup> (string \<Rightarrow> bool) option) step" where
  "agent_matchers [] acc = done_with acc"
| "agent_matchers ((name, patterns) # rest) acc =
     and_then (or_stop (''broker.allowed_agent_repos['' @ name @ '']: '') (new_bool_matcher patterns))
       (\<lambda>m. agent_matchers rest (acc(name \<mapsto> Some m)))"

definition start_issues :: "('r, 'k) machine \<Rightarrow> config \<Rightarrow> (vault option \<times> scm_upstream option) step" where
  "start_issues os cfg =
     (let u = cf_issue_upstream cfg in
      if uy_kind u = [] then done_with (None, None)
      else
        and_then (load_store os ''load issue_upstream credentials: '' (uy_credentials_file u)) (\<lambda>store.
        and_then (or_stop (''build issue_upstream kind '' @ go_quote (uy_kind u) @ '': '')
            (build_upstream (default_upstreams os) (uy_kind u) (uy_url u) (store_lookup store))) (\<lambda>up.
        and_then (log_lines [''git-proxy: broker issue upstream enabled: kind='' @ uy_kind u @
            '' url='' @ redact_url os (uy_url u)]) (\<lambda>_.
          done_with (store, Some (bt_scm up))))))"

definition start_broker ::
  "('r, 'k) machine \<Rightarrow> config \<Rightarrow> scm_upstream \<Rightarrow> (string \<Rightarrow> go_error + string) option \<Rightarrow>
   (audit_event \<Rightarrow> go_error option) option \<Rightarrow> (vault option \<times> broker option) step" where
  "start_broker os cfg scm auth audit =
     (let b = cf_broker cfg in
      if by_listen b = [] then done_with (None, None)
      else
        and_then (check_that ''broker listen: '' (os_listen os (by_listen b))) (\<lambda>_.
        and_then (start_issues os cfg) (\<lambda>(store, issues).
        and_then (agent_matchers (by_agent_repos b) Map.empty) (\<lambda>agents.
        and_then (or_stop ''broker: ''
            (new_broker (os_json os) scm issues (cf_repos cfg) auth audit
               \<lparr>bc_agents = by_agents b, bc_ops = by_ops b, bc_merge_method = by_merge_method b,
                bc_allow_logs = by_allow_logs b, bc_max_log = by_max_log b, bc_agent_repos = agents\<rparr>)) (\<lambda>br.
        and_then (log_lines
            ((if auth = None
              then [''git-proxy: WARNING: broker enabled with no auth.tokens configured '' @ dash @
                    '' every broker request will be rejected (fail closed). Configure auth.tokens to make the broker usable.'']
              else []) @ [''git-proxy: broker enabled: listen='' @ by_listen b])) (\<lambda>_.
          done_with (store, Some br)))))))"

section \<open>Startup\<close>

definition wildcard_notes :: "vault option \<Rightarrow> string list" where
  "wildcard_notes v =
     (case v of
        None \<Rightarrow> []
      | Some s \<Rightarrow>
          map (\<lambda>w. go_quote (pw_pattern w) @ '' ('' @ pw_name w @ '' '' @ dash @ '' '' @ pw_description w @ '')'')
            (vt_wildcards s))"

definition wildcard_warning :: "config \<Rightarrow> vault option \<Rightarrow> vault option \<Rightarrow> string list" where
  "wildcard_warning cfg scm_store issue_store =
     (let ww = wildcard_notes scm_store @ wildcard_notes issue_store @
               map (\<lambda>p. go_quote p @ '' (public_repos)'') (filter (\<lambda>p. contains p ''*'') (cf_public_repos cfg)) in
      if ww = [] then []
      else [''git-proxy: WARNING: wildcard repo matchers configured '' @ dash @ '' '' @ join '', '' ww @ '' '' @ dash @
            '' matching repos receive that profile's PAT (or anonymous read for public_repos); verify least-privilege''])"

definition startup :: "('r, 'k) machine \<Rightarrow> config \<Rightarrow> ('r, 'k) system step" where
  "startup os cfg =
     (let p = cf_policy cfg; u = cf_upstream cfg in
      and_then (log_lines [''git-proxy '' @ os_version os @ '' starting: listen='' @ cf_listen cfg @
          '' upstream='' @ redact_url os (uy_url u)]) (\<lambda>_.
      and_then (check_that ''listen: '' (os_listen os (cf_listen cfg))) (\<lambda>_.
      and_then (load_store os ''load credentials: '' (uy_credentials_file u)) (\<lambda>store.
      and_then (load_public (cf_public_repos cfg)) (\<lambda>public.
      and_then (load_auth (cf_auth cfg)) (\<lambda>auth.
      and_then (or_stop (''build upstream kind '' @ go_quote (uy_kind u) @ '': '')
          (build_upstream (default_upstreams os) (uy_kind u) (uy_url u) (store_lookup store))) (\<lambda>up.
      and_then (open_audit os (cf_audit_file cfg)) (\<lambda>audit.
      and_then (open_alerts os (cf_webhook cfg)) (\<lambda>alerts.
      and_then (log_lines (if py_dry_run p
          then [''git-proxy: dry-run enabled (policy denies are forwarded, not enforced; mode='' @ py_mode p @ '')'']
          else [])) (\<lambda>_.
      and_then (load_push os cfg (store_lookup store)) (\<lambda>(eng, opener0).
      and_then (load_read os cfg (store_lookup store) opener0) (\<lambda>opener.
      and_then (start_ssh os cfg (bt_git up) (store_lookup store) public (wire_ssh cfg audit alerts eng opener)) (\<lambda>ssh.
      and_then (start_broker os cfg (bt_scm up) auth audit) (\<lambda>(issue_store, br).
      and_then (log_lines (wildcard_warning cfg store issue_store)) (\<lambda>_.
        done_with
          \<lparr>sn_http = wire_http cfg audit alerts eng opener
             (new_http_front (os_git os) (os_gogit os) (os_http os) (os_gunzip os) (bt_git up) (uy_url u)
                (cf_repos cfg) auth (store_lookup store) public),
           sn_ssh = ssh, sn_broker = br, sn_scm_vault = store, sn_issue_vault = issue_store\<rparr>)))))))))))))))"

text \<open>The program on a configuration file, up to \<open>serveTransports\<close>.\<close>

definition git_proxy ::
  "('r, 'k) machine \<Rightarrow> (string \<Rightarrow> go_error + config) \<Rightarrow> (string \<Rightarrow> go_error + (string \<times> string)) \<Rightarrow>
   string \<Rightarrow> string list \<times> (go_error + ('r, 'k) system)" where
  "git_proxy os yaml split path =
     (case load_config (os_read os) yaml split (os_url os) path of
        Inl e \<Rightarrow> ([], Inl e)
      | Inr cfg \<Rightarrow> startup os cfg [])"

end
