(* ===== verification/StartupLaws.thy ===== *)
theory StartupLaws
  imports Startup
begin

text \<open>
  Steps of the startup: a startup that succeeds has gone through every stage with success.
\<close>

lemma and_then_Inr:
  assumes "and_then f k l = (l', Inr b)"
  obtains l1 a where "f l = (l1, Inr a)" "k a l1 = (l', Inr b)"
  using assms by (auto simp: and_then_def split: prod.splits sum.splits)

lemma done_with_Inr [simp]: "done_with a l = (l', Inr b) \<longleftrightarrow> l' = l \<and> b = a"
  by (auto simp: done_with_def)

lemma stop_with_Inr [simp]: "stop_with e l = (l', Inr b) \<longleftrightarrow> False"
  by (simp add: stop_with_def)

lemma log_lines_Inr [simp]: "log_lines ls l = (l', Inr b) \<longleftrightarrow> l' = l @ ls"
  by (auto simp: log_lines_def)

lemma or_stop_Inr [simp]: "or_stop what r l = (l', Inr b) \<longleftrightarrow> l' = l \<and> r = Inr b"
  by (auto simp: or_stop_def split: sum.splits)

lemma check_that_Inr [simp]: "check_that what r l = (l', Inr b) \<longleftrightarrow> l' = l \<and> r = None"
  by (auto simp: check_that_def split: option.splits)

text \<open>The stages.\<close>

lemma load_auth_Inr:
  assumes "load_auth a l = (l', Inr auth)"
  shows "auth = (if ay_tokens a = [] then None else Some (token_authenticate (ay_tokens a)))"
    "auth = None \<longrightarrow> ay_unsafe a"
  using assms by (auto simp: load_auth_def requires_explicit_opt_out_def elim!: and_then_Inr split: if_splits)

lemma open_audit_Inr:
  assumes "open_audit os file l = (l', Inr audit)"
  shows "audit = None \<longleftrightarrow> file = []" "file \<noteq> [] \<longrightarrow> (\<exists>sink. os_audit_open os file = Inr sink \<and> audit = Some sink)"
  using assms by (auto simp: open_audit_def elim!: and_then_Inr split: if_splits)

lemma open_alerts_Inr: "open_alerts os hook l = (l', Inr alerts) \<Longrightarrow> alerts = None \<longleftrightarrow> hook = []"
  by (auto simp: open_alerts_def elim!: and_then_Inr split: if_splits)

lemma load_push_Inr:
  assumes "load_push os cfg creds l = (l', Inr (eng, opener))"
  shows "has_enabled_rules (cf_policy cfg) \<longrightarrow>
      (\<exists>e. eng = Some e \<and> opener = Some (opener_for os cfg creds) \<and>
           resolve (to_policy (cf_policy cfg)) (default_registry (os_compile os)) = Inr e) \<and>
      py_mirror_dir (cf_policy cfg) \<noteq> []"
    "\<not> has_enabled_rules (cf_policy cfg) \<longrightarrow> eng = None \<and> opener = None"
  using assms by (auto simp: load_push_def Let_def elim!: and_then_Inr split: if_splits)

lemma load_read_Inr:
  assumes "load_read os cfg creds opener0 l = (l', Inr opener)"
  shows "read_deny_enabled (cf_policy cfg) \<longrightarrow>
      malformed_read_deny (cf_policy cfg) = [] \<and> py_mirror_dir (cf_policy cfg) \<noteq> [] \<and>
      opener = (if has_enabled_rules (cf_policy cfg) then opener0 else Some (opener_for os cfg creds))"
    "\<not> read_deny_enabled (cf_policy cfg) \<longrightarrow> opener = opener0"
  using assms by (auto simp: load_read_def Let_def elim!: and_then_Inr split: if_splits)

lemma start_ssh_Inr:
  assumes "start_ssh os cfg up creds public wire l = (l', Inr ssh)"
  shows "ssh = None \<longleftrightarrow> sy_listen (cf_ssh cfg) = []"
    "ssh = Some (signer, f) \<Longrightarrow>
       \<exists>keys. new_keyauth (os_parse_key os) (os_fingerprint os) (sy_authorized (cf_ssh cfg)) = Inr keys \<and>
         f = wire \<lparr>sf_up = up, sf_proxy = new_proxy (os_git os) (os_gogit os) up, sf_repos = cf_repos cfg,
                   sf_auth = key_authenticate keys, sf_creds = creds, sf_public = public\<rparr>"
  using assms
  by (auto simp: start_ssh_def Let_def new_ssh_front_def elim!: and_then_Inr split: if_splits sum.splits prod.splits)

lemma start_issues_Inr: "start_issues os cfg l = (l', Inr (store, issues)) \<Longrightarrow> issues = None \<longleftrightarrow> uy_kind (cf_issue_upstream cfg) = []"
  by (auto simp: start_issues_def Let_def elim!: and_then_Inr split: if_splits)

text \<open>A broker of the configuration, over the sinks and the authenticator of the frontends.\<close>

definition broker_wired ::
  "config \<Rightarrow> scm_upstream \<Rightarrow> (string \<Rightarrow> go_error + string) option \<Rightarrow>
   (audit_event \<Rightarrow> go_error option) option \<Rightarrow> broker \<Rightarrow> bool" where
  "broker_wired cfg scm auth audit b \<longleftrightarrow>
     su_prs scm = Some (bk_prs b) \<and> bk_auth b = auth \<and> bk_audit b = audit \<and>
     bk_agents b = set (by_agents (cf_broker cfg)) \<and> bk_ops b = set (by_ops (cf_broker cfg)) \<and>
     bk_repos b = cf_repos cfg \<and> (bk_logs b \<noteq> None \<longrightarrow> by_allow_logs (cf_broker cfg)) \<and>
     (bk_issues b \<noteq> None \<longrightarrow> uy_kind (cf_issue_upstream cfg) \<noteq> [])"

lemma new_broker_wired:
  assumes "new_broker js scm issues (cf_repos cfg) auth audit
      \<lparr>bc_agents = by_agents (cf_broker cfg), bc_ops = by_ops (cf_broker cfg), bc_merge_method = mm,
       bc_allow_logs = by_allow_logs (cf_broker cfg), bc_max_log = n, bc_agent_repos = agents\<rparr> = Inr b"
    and "issues = None \<longleftrightarrow> uy_kind (cf_issue_upstream cfg) = []"
  shows "broker_wired cfg scm auth audit b"
  using assms by (cases issues) (auto simp: new_broker_def broker_wired_def split: option.splits if_splits)

lemma start_broker_Inr:
  assumes "start_broker os cfg scm auth audit l = (l', Inr (store, br))"
  shows "br = None \<longleftrightarrow> by_listen (cf_broker cfg) = []" "\<forall>b. br = Some b \<longrightarrow> broker_wired cfg scm auth audit b"
proof -
  have "(br = None \<longleftrightarrow> by_listen (cf_broker cfg) = []) \<and> (\<forall>b. br = Some b \<longrightarrow> broker_wired cfg scm auth audit b)"
  proof (cases "by_listen (cf_broker cfg) = []")
    case True
    then show ?thesis
      using assms by (simp add: start_broker_def)
  next
    case False
    obtain l1 l2 issues agents b where "start_issues os cfg l1 = (l2, Inr (store, issues))"
      "new_broker (os_json os) scm issues (cf_repos cfg) auth audit
         \<lparr>bc_agents = by_agents (cf_broker cfg), bc_ops = by_ops (cf_broker cfg),
          bc_merge_method = by_merge_method (cf_broker cfg), bc_allow_logs = by_allow_logs (cf_broker cfg),
          bc_max_log = by_max_log (cf_broker cfg), bc_agent_repos = agents\<rparr> = Inr b" "br = Some b"
      using assms False unfolding start_broker_def Let_def if_not_P[OF False]
      by (elim and_then_Inr) (auto simp only: prod.case done_with_Inr or_stop_Inr prod.inject elim!: and_then_Inr)
    then show ?thesis
      using False new_broker_wired[OF _ start_issues_Inr] by auto
  qed
  then show "br = None \<longleftrightarrow> by_listen (cf_broker cfg) = []" "\<forall>b. br = Some b \<longrightarrow> broker_wired cfg scm auth audit b"
    by auto
qed

text \<open>All of them, in the run of the startup.\<close>

lemma startup_stages:
  assumes "startup os cfg l = (l', Inr sys)"
  obtains store public auth up audit alerts eng opener0 opener ssh issue_store br
    l1 l2 l3 l4 l5 l6 l7 l8 l9 l10 l11 l12 l13 l14 l15 l16 where
    "load_store os ''load credentials: '' (uy_credentials_file (cf_upstream cfg)) l1 = (l2, Inr store)"
    "load_public (cf_public_repos cfg) l3 = (l4, Inr public)"
    "load_auth (cf_auth cfg) l5 = (l6, Inr auth)"
    "build_upstream (default_upstreams os) (uy_kind (cf_upstream cfg)) (uy_url (cf_upstream cfg)) (store_lookup store) = Inr up"
    "open_audit os (cf_audit_file cfg) l7 = (l8, Inr audit)"
    "open_alerts os (cf_webhook cfg) l9 = (l10, Inr alerts)"
    "load_push os cfg (store_lookup store) l11 = (l12, Inr (eng, opener0))"
    "load_read os cfg (store_lookup store) opener0 l12 = (l13, Inr opener)"
    "start_ssh os cfg (bt_git up) (store_lookup store) public (wire_ssh cfg audit alerts eng opener) l13 = (l14, Inr ssh)"
    "start_broker os cfg (bt_scm up) auth audit l15 = (l16, Inr (issue_store, br))"
    "sys = \<lparr>sn_http = wire_http cfg audit alerts eng opener
             (new_http_front (os_git os) (os_gogit os) (os_http os) (os_gunzip os) (bt_git up)
                (uy_url (cf_upstream cfg)) (cf_repos cfg) auth (store_lookup store) public),
           sn_ssh = ssh, sn_broker = br, sn_scm_vault = store, sn_issue_vault = issue_store\<rparr>"
  using assms unfolding startup_def Let_def
  by (elim and_then_Inr prod.exhaust) (auto simp only: prod.case done_with_Inr or_stop_Inr elim!: and_then_Inr)

end
