(* ===== verification/StartupProps.thy ===== *)
theory StartupProps
  imports StartupLaws FrontProps RuleProps
begin

text \<open>
  The configuration, end to end: what a successful startup has wired into every frontend, when a
  startup fails, and that a push through a frontend of the started system conforms to every rule
  of the configuration.
\<close>

section \<open>The proxies of a system\<close>

definition proxies :: "('r, 'k) system \<Rightarrow> 'r proxy list" where
  "proxies sys = hf_proxy (sn_http sys) # (case sn_ssh sys of None \<Rightarrow> [] | Some (signer, f) \<Rightarrow> [sf_proxy f])"

lemma wire_http_proxy:
  fixes f0 :: "'r http_front"
  assumes "f0 = new_http_front env G client gunzip up url repos auth creds public"
    and "f = wire_http cfg audit alerts eng opener f0"
    and "\<not> has_enabled_rules (cf_policy cfg) \<longrightarrow> \<not> read_deny_enabled (cf_policy cfg) \<longrightarrow> eng = None \<and> opener = None"
  shows "px_engine (hf_proxy f) = eng" "px_opener (hf_proxy f) = opener"
    "px_read_deny (hf_proxy f) = read_deny_matcher (cf_policy cfg)" "hf_read_deny f = read_deny_matcher (cf_policy cfg)"
    "px_dry_run (hf_proxy f) = py_dry_run (cf_policy cfg)" "px_audit (hf_proxy f) = audit"
    "px_alert (hf_proxy f) = alerts" "hf_auth f = auth" "hf_creds f = creds" "hf_public f = public"
    "px_gogit (hf_proxy f) = G" "px_env (hf_proxy f) = env"
  using assms
  by (auto simp: wire_http_def Let_def new_http_front_def new_proxy_def hf_set_audit_sink_def
      hf_set_alert_sink_def hf_set_dry_run_def hf_set_enforcement_def hf_set_read_deny_def
      set_transport_def set_audit_sink_def set_alert_sink_def set_dry_run_def set_enforcement_def
      set_read_deny_def read_deny_matcher_def split: option.splits)

lemma wire_ssh_proxy:
  fixes f0 :: "'r ssh_front"
  assumes "f0 = \<lparr>sf_up = up, sf_proxy = new_proxy env G up, sf_repos = repos, sf_auth = auth,
      sf_creds = creds, sf_public = public\<rparr>"
    and "f = wire_ssh cfg audit alerts eng opener f0"
  shows "px_engine (sf_proxy f) = eng" "px_opener (sf_proxy f) = opener"
    "px_read_deny (sf_proxy f) = read_deny_matcher (cf_policy cfg)"
    "px_dry_run (sf_proxy f) = py_dry_run (cf_policy cfg)" "px_audit (sf_proxy f) = audit"
    "px_alert (sf_proxy f) = alerts" "sf_auth f = auth" "sf_creds f = creds" "sf_public f = public"
    "px_gogit (sf_proxy f) = G" "px_env (sf_proxy f) = env"
  using assms
  by (auto simp: wire_ssh_def Let_def new_proxy_def sf_set_audit_sink_def
      sf_set_alert_sink_def sf_set_dry_run_def sf_set_enforcement_def sf_set_read_deny_def
      set_transport_def set_audit_sink_def set_alert_sink_def set_dry_run_def set_enforcement_def
      set_read_deny_def split: option.splits)

text \<open>What the startup has put into a proxy.\<close>

definition proxy_wired :: "('r, 'k) machine \<Rightarrow> config \<Rightarrow> vault option \<Rightarrow> 'r proxy \<Rightarrow> bool" where
  "proxy_wired os cfg store px \<longleftrightarrow>
     (has_enabled_rules (cf_policy cfg) \<longrightarrow>
        (\<exists>eng. resolve (to_policy (cf_policy cfg)) (default_registry (os_compile os)) = Inr eng \<and>
           px_engine px = Some eng \<and> px_opener px = Some (opener_for os cfg (store_lookup store)))) \<and>
     (read_deny_enabled (cf_policy cfg) \<longrightarrow>
        malformed_read_deny (cf_policy cfg) = [] \<and>
        px_read_deny px = Some (new_matcher (py_read_deny (cf_policy cfg))) \<and>
        px_opener px = Some (opener_for os cfg (store_lookup store))) \<and>
     px_dry_run px = py_dry_run (cf_policy cfg) \<and>
     (px_audit px = None \<longleftrightarrow> cf_audit_file cfg = []) \<and> (px_alert px = None \<longleftrightarrow> cf_webhook cfg = []) \<and>
     px_gogit px = os_gogit os \<and> px_env px = os_git os"

lemma push_read_none:
  assumes "load_push os cfg creds l = (l', Inr (eng, opener0))" "load_read os cfg creds opener0 l2 = (l3, Inr opener)"
  shows "\<not> has_enabled_rules (cf_policy cfg) \<longrightarrow> \<not> read_deny_enabled (cf_policy cfg) \<longrightarrow> eng = None \<and> opener = None"
  using load_push_Inr(2)[OF assms(1)] load_read_Inr(2)[OF assms(2)] by simp

text \<open>What both legs share once they are wired.\<close>

lemma wired_from_stages:
  assumes "load_push os cfg (store_lookup store) l1 = (l2, Inr (eng, opener0))"
    and "load_read os cfg (store_lookup store) opener0 l3 = (l4, Inr opener)"
    and "open_audit os (cf_audit_file cfg) l5 = (l6, Inr audit)"
    and "open_alerts os (cf_webhook cfg) l7 = (l8, Inr alerts)"
    and "px_engine px = eng" "px_opener px = opener" "px_read_deny px = read_deny_matcher (cf_policy cfg)"
      "px_dry_run px = py_dry_run (cf_policy cfg)" "px_audit px = audit" "px_alert px = alerts"
      "px_gogit px = os_gogit os" "px_env px = os_git os"
  shows "proxy_wired os cfg store px"
proof -
  have "has_enabled_rules (cf_policy cfg) \<longrightarrow> (\<exists>e. eng = Some e \<and> opener = Some (opener_for os cfg (store_lookup store)) \<and>
      resolve (to_policy (cf_policy cfg)) (default_registry (os_compile os)) = Inr e)"
    using load_push_Inr(1)[OF assms(1)] load_read_Inr[OF assms(2)]
    by (cases "read_deny_enabled (cf_policy cfg)") auto
  moreover have "read_deny_enabled (cf_policy cfg) \<longrightarrow> malformed_read_deny (cf_policy cfg) = [] \<and>
      opener = Some (opener_for os cfg (store_lookup store))"
    using load_push_Inr(1)[OF assms(1)] load_read_Inr(1)[OF assms(2)]
    by (cases "has_enabled_rules (cf_policy cfg)") auto
  ultimately show ?thesis
    using open_audit_Inr(1)[OF assms(3)] open_alerts_Inr[OF assms(4)] assms(5-12)
    unfolding proxy_wired_def by (auto simp: read_deny_matcher_def)
qed

text \<open>Who may use the frontends of a system, and the broker.\<close>

definition doors_wired :: "('r, 'k) machine \<Rightarrow> config \<Rightarrow> ('r, 'k) system \<Rightarrow> bool" where
  "doors_wired os cfg sys \<longleftrightarrow>
     hf_auth (sn_http sys) =
       (if ay_tokens (cf_auth cfg) = [] then None else Some (token_authenticate (ay_tokens (cf_auth cfg)))) \<and>
     (hf_auth (sn_http sys) = None \<longrightarrow> ay_unsafe (cf_auth cfg)) \<and>
     hf_creds (sn_http sys) = store_lookup (sn_scm_vault sys) \<and>
     hf_read_deny (sn_http sys) = read_deny_matcher (cf_policy cfg) \<and>
     (case sn_ssh sys of
        None \<Rightarrow> sy_listen (cf_ssh cfg) = []
      | Some (signer, g) \<Rightarrow>
          sf_creds g = hf_creds (sn_http sys) \<and> sf_public g = hf_public (sn_http sys) \<and>
          (\<exists>keys. new_keyauth (os_parse_key os) (os_fingerprint os) (sy_authorized (cf_ssh cfg)) = Inr keys \<and>
             sf_auth g = key_authenticate keys)) \<and>
     (case sn_broker sys of
        None \<Rightarrow> by_listen (cf_broker cfg) = []
      | Some b \<Rightarrow>
          bk_auth b = hf_auth (sn_http sys) \<and> bk_audit b = px_audit (hf_proxy (sn_http sys)) \<and>
          uy_kind (cf_upstream cfg) = ''github'' \<and>
          bk_agents b = set (by_agents (cf_broker cfg)) \<and> bk_ops b = set (by_ops (cf_broker cfg)) \<and>
          bk_prs b = github_scm (os_net os)
            (new_github (os_url os) (uy_url (cf_upstream cfg)) (store_lookup (sn_scm_vault sys))))"

lemma scm_is_github:
  assumes "build_upstream (default_upstreams os) kind url creds = Inr up" "su_prs (bt_scm up) = Some s"
  shows "kind = ''github'' \<and> s = github_scm (os_net os) (new_github (os_url os) url creds)"
  using assms
  by (auto simp: build_upstream_def default_upstreams_def plain_factory_def github_factory_def Let_def
      split: if_splits)

lemma startup_wired:
  assumes "startup os cfg l = (l', Inr sys)"
  shows "list_all (proxy_wired os cfg (sn_scm_vault sys)) (proxies sys) \<and> doors_wired os cfg sys"
proof -
  obtain store public auth up audit alerts eng opener0 opener ssh issue_store br
    l1 l2 l3 l4 l5 l6 l7 l8 l9 l10 l11 l12 l13 l14 l15 l16 where
    st: "load_store os ''load credentials: '' (uy_credentials_file (cf_upstream cfg)) l1 = (l2, Inr store)"
    "load_public (cf_public_repos cfg) l3 = (l4, Inr public)"
    "load_auth (cf_auth cfg) l5 = (l6, Inr auth)"
    "build_upstream (default_upstreams os) (uy_kind (cf_upstream cfg)) (uy_url (cf_upstream cfg)) (store_lookup store) = Inr up"
    "open_audit os (cf_audit_file cfg) l7 = (l8, Inr audit)"
    "open_alerts os (cf_webhook cfg) l9 = (l10, Inr alerts)"
    "load_push os cfg (store_lookup store) l11 = (l12, Inr (eng, opener0))"
    "load_read os cfg (store_lookup store) opener0 l12 = (l13, Inr opener)"
    "start_ssh os cfg (bt_git up) (store_lookup store) public (wire_ssh cfg audit alerts eng opener) l13 = (l14, Inr ssh)"
    "start_broker os cfg (bt_scm up) auth audit l15 = (l16, Inr (issue_store, br))"
    and sys: "sys = \<lparr>sn_http = wire_http cfg audit alerts eng opener
             (new_http_front (os_git os) (os_gogit os) (os_http os) (os_gunzip os) (bt_git up)
                (uy_url (cf_upstream cfg)) (cf_repos cfg) auth (store_lookup store) public),
           sn_ssh = ssh, sn_broker = br, sn_scm_vault = store, sn_issue_vault = issue_store\<rparr>"
    using assms by (rule startup_stages)
  note http = wire_http_proxy[OF refl refl push_read_none[OF st(7,8)]]
  have p1: "proxy_wired os cfg store (hf_proxy (sn_http sys))"
    by (rule wired_from_stages[OF st(7,8,5,6)]) (simp_all add: sys http)
  have ssh: "(\<exists>keys. new_keyauth (os_parse_key os) (os_fingerprint os) (sy_authorized (cf_ssh cfg)) = Inr keys \<and>
      sf_auth g = key_authenticate keys) \<and> sf_creds g = store_lookup store \<and> sf_public g = public \<and>
      proxy_wired os cfg store (sf_proxy g)" if on: "ssh = Some (signer, g)" for signer g
  proof -
    obtain keys where k: "new_keyauth (os_parse_key os) (os_fingerprint os) (sy_authorized (cf_ssh cfg)) = Inr keys"
      "g = wire_ssh cfg audit alerts eng opener
         \<lparr>sf_up = bt_git up, sf_proxy = new_proxy (os_git os) (os_gogit os) (bt_git up), sf_repos = cf_repos cfg,
          sf_auth = key_authenticate keys, sf_creds = store_lookup store, sf_public = public\<rparr>"
      using start_ssh_Inr(2)[OF st(9) on] by blast
    note w = wire_ssh_proxy[OF refl k(2)]
    have "proxy_wired os cfg store (sf_proxy g)"
      by (rule wired_from_stages[OF st(7,8,5,6)]) (simp_all add: w)
    with k(1) w show ?thesis by blast
  qed
  have "list_all (proxy_wired os cfg store) (proxies sys)"
    using p1 ssh by (auto simp: proxies_def sys split: option.splits)
  moreover have "(case br of None \<Rightarrow> by_listen (cf_broker cfg) = []
      | Some b \<Rightarrow> bk_auth b = auth \<and> bk_audit b = audit \<and> uy_kind (cf_upstream cfg) = ''github'' \<and>
          bk_agents b = set (by_agents (cf_broker cfg)) \<and> bk_ops b = set (by_ops (cf_broker cfg)) \<and>
          bk_prs b = github_scm (os_net os) (new_github (os_url os) (uy_url (cf_upstream cfg)) (store_lookup store)))"
    using start_broker_Inr[OF st(10)] scm_is_github[OF st(4)]
    by (cases br) (auto simp: broker_wired_def)
  moreover have "case ssh of None \<Rightarrow> sy_listen (cf_ssh cfg) = []
      | Some (signer, g) \<Rightarrow> sf_creds g = store_lookup store \<and> sf_public g = public \<and>
          (\<exists>keys. new_keyauth (os_parse_key os) (os_fingerprint os) (sy_authorized (cf_ssh cfg)) = Inr keys \<and>
             sf_auth g = key_authenticate keys)"
    using start_ssh_Inr(1)[OF st(9)] ssh by (cases ssh) auto
  ultimately show ?thesis
    using load_auth_Inr[OF st(3)] unfolding doors_wired_def sys by (simp add: http cong: option.case_cong)
qed
lemma startup_mirror_dir:
  assumes "startup os cfg l = (l', Inr sys)" "has_enabled_rules (cf_policy cfg) \<or> read_deny_enabled (cf_policy cfg)"
  shows "py_mirror_dir (cf_policy cfg) \<noteq> []"
  using assms(1) by (rule startup_stages) (use assms(2) load_push_Inr(1) load_read_Inr(1) in blast)

section \<open>Pushes through a started system\<close>

context git_leg
begin

lemma push_prepared:
  assumes "px_engine proxy = Some eng" "px_opener proxy = Some opener" "\<not> px_dry_run proxy"
    and new: "(''git-receive-pack'', r, buf) \<in> set (drop (length (w_sent w)) (w_sent (step q w)))"
  obtains ctx req pid m0 m' qc where "admits q = Some (ctx, r, True)"
    "parse_receive_pack (g_omax (px_gogit proxy)) (bytes_source buf) = Inr req"
    "prepare_push (px_env proxy) (rp_commands req) (agent_name ctx) r pid m0 = (m', Inr qc)"
    "list_all2 mirrors (rp_commands req) (q_updates qc)" "d_verdict (evaluate_push eng qc) = VerdictAllow"
proof -
  obtain ctx repo body v where a: "admits q = Some (ctx, repo, True)" "quiet v w"
      "w_sent (step q w) = w_sent (fst (receive_pack proxy ctx repo body v))"
    using sent_cases [OF new] .
  obtain v' e where run: "receive_pack proxy ctx repo body v = (v', e)" by fastforce
  have "w_sent v' \<noteq> w_sent v" using new a(2,3) run by (auto simp: quiet_def)
  from forwarded_inspected [OF assms(1,2) run this] obtain req pid m0 m' qc where f:
    "parse_receive_pack (g_omax (px_gogit proxy)) (bytes_source (src_bytes body)) = Inr req"
    "prepare_push (px_env proxy) (rp_commands req) (agent_name ctx) repo pid m0 = (m', Inr qc)"
    "list_all2 mirrors (rp_commands req) (q_updates qc)" "d_verdict (evaluate_push eng qc) = VerdictAllow"
    "w_sent v' = w_sent v @ [(''git-receive-pack'', repo, src_bytes body)]"
    using assms(3) by blast
  have eq: "r = repo" "buf = src_bytes body" using new a run f(5) by (auto simp: quiet_def)
  show ?thesis by (rule that) (use a(1) f(1-4) in \<open>simp_all add: eq\<close>)
qed

end

text \<open>
  A push that a started system sends to its upstream: in answer to an HTTP request, or in a
  session whose public key the callback accepted.
\<close>

inductive pushes :: "('r, 'k) machine \<Rightarrow> ('r, 'k) system \<Rightarrow> string \<Rightarrow> string \<Rightarrow> bool" where
  over_http: "(''git-receive-pack'', repo, buf) \<in>
      set (drop (length (w_sent (hx_world x))) (w_sent (hx_world (handle (sn_http sys) r x)))) \<Longrightarrow>
    pushes os sys repo buf"
| over_ssh: "sn_ssh sys = Some (signer, g) \<Longrightarrow> public_key_callback (os_fingerprint os) g key = Inr perms \<Longrightarrow>
    handle_session g (Some perms) stdin reqs s = Some s' \<Longrightarrow>
    (''git-receive-pack'', repo, buf) \<in> set (drop (length (w_sent (ss_world s))) (w_sent (ss_world s'))) \<Longrightarrow>
    pushes os sys repo buf"

text \<open>The agents of a configuration; without tokens the HTTP frontend knows no name.\<close>

definition agent_known :: "config \<Rightarrow> string \<Rightarrow> bool" where
  "agent_known cfg agent \<longleftrightarrow>
     agent \<in> snd ` set (ay_tokens (cf_auth cfg)) \<or> agent \<in> fst ` set (sy_authorized (cf_ssh cfg)) \<or>
     (ay_tokens (cf_auth cfg) = [] \<and> ay_unsafe (cf_auth cfg) \<and> agent = [])"

text \<open>A push context that keeps every rule the policy of the configuration enables for it.\<close>

definition conforms :: "(string \<Rightarrow> go_error + regexp) \<Rightarrow> policy_yaml \<Rightarrow> push_request \<Rightarrow> bool" where
  "conforms re p q \<longleftrightarrow>
     (\<forall>rc. (active (to_policy p) ''history_protect'' (q_agent q) (q_repo q) rc \<longrightarrow> \<not> rewrites_protected rc q) \<and>
       (active (to_policy p) ''branch_pattern'' (q_agent q) (q_repo q) rc \<longrightarrow> \<not> outside_branches rc q) \<and>
       (active (to_policy p) ''commit_message'' (q_agent q) (q_repo q) rc \<longrightarrow> \<not> breaks_convention re rc q) \<and>
       (active (to_policy p) ''path_acl'' (q_agent q) (q_repo q) rc \<longrightarrow> \<not> touches_denied rc q) \<and>
       (active (to_policy p) ''secret_scan'' (q_agent q) (q_repo q) rc \<longrightarrow> \<not> holds_secret re rc q))"

lemma pushed_prepared:
  assumes "startup os cfg l = (l', Inr sys)" and "has_enabled_rules (cf_policy cfg)"
    and "\<not> py_dry_run (cf_policy cfg)" and "pushes os sys repo buf"
    and "resolve (to_policy (cf_policy cfg)) (default_registry (os_compile os)) = Inr eng"
  obtains agent user secret req pid m0 m' q where "agent_known cfg agent"
    "upstream_basic (store_lookup (sn_scm_vault sys)) repo = Some (user, secret)" "secret \<noteq> []"
    "parse_receive_pack (g_omax (os_gogit os)) (bytes_source buf) = Inr req"
    "prepare_push (os_git os) (rp_commands req) agent repo pid m0 = (m', Inr q)"
    "list_all2 mirrors (rp_commands req) (q_updates q)" "d_verdict (evaluate_push eng q) = VerdictAllow"
proof -
  let ?creds = "store_lookup (sn_scm_vault sys)"
  have wired: "\<And>px. px \<in> set (proxies sys) \<Longrightarrow> proxy_wired os cfg (sn_scm_vault sys) px" "doors_wired os cfg sys"
    using startup_wired [OF assms(1)] by (auto simp: list_all_iff)
  have px: "px_engine px = Some eng" "px_opener px = Some (opener_for os cfg ?creds)" "\<not> px_dry_run px"
      "px_gogit px = os_gogit os" "px_env px = os_git os" if "px \<in> set (proxies sys)" for px
    using wired(1) [OF that] assms(2,3,5) by (auto simp: proxy_wired_def)
  have cred: "\<exists>user secret. upstream_basic ?creds repo = Some (user, secret) \<and> secret \<noteq> []"
    if "decide ?creds public repo True = DecisionAllow" for public
    using that stored.write_authenticated
    by (cases "sn_scm_vault sys") (auto simp: store_lookup_def decide_def split: if_splits)
  from assms(4) show ?thesis
  proof cases
    case (over_http x r)
    have in_px: "hf_proxy (sn_http sys) \<in> set (proxies sys)" by (simp add: proxies_def)
    note in' = px [OF in_px]
    obtain ctx req pid m0 m' q where p: "http_admits (sn_http sys) r = Some (ctx, repo, True)"
      "parse_receive_pack (g_omax (os_gogit os)) (bytes_source buf) = Inr req"
      "prepare_push (os_git os) (rp_commands req) (agent_name ctx) repo pid m0 = (m', Inr q)"
      "list_all2 mirrors (rp_commands req) (q_updates q)" "d_verdict (evaluate_push eng q) = VerdictAllow"
      using http.push_prepared [where q = "(r, x)" and w = "hx_world x", OF in'(1-3), simplified, OF over_http]
      unfolding in'(4,5) by blast
    note a = http_admits_Some [OF p(1)]
    have auth: "hf_auth (sn_http sys) = (if ay_tokens (cf_auth cfg) = [] then None
        else Some (token_authenticate (ay_tokens (cf_auth cfg))))"
        "hf_auth (sn_http sys) = None \<longrightarrow> ay_unsafe (cf_auth cfg)" "hf_creds (sn_http sys) = ?creds"
      using wired(2) by (simp_all add: doors_wired_def)
    have "agent_known cfg (agent_name ctx)"
      using a auth(1,2) by_token.resolves
      by (force simp: agent_known_def agent_name_def http_authenticate_def Let_def split: option.splits if_splits)
    moreover obtain user secret where "upstream_basic ?creds repo = Some (user, secret)" "secret \<noteq> []"
      using cred [of "hf_public (sn_http sys)"] a unfolding auth(3) by blast
    ultimately show ?thesis using that p(2-5) by blast
  next
    case (over_ssh signer g key perms stdin reqs s s')
    have in_px: "sf_proxy g \<in> set (proxies sys)" by (simp add: proxies_def over_ssh(1))
    note in' = px [OF in_px]
    obtain keys where keys: "new_keyauth (os_parse_key os) (os_fingerprint os) (sy_authorized (cf_ssh cfg)) = Inr keys"
        "sf_auth g = key_authenticate keys" "sf_creds g = ?creds"
      using wired(2) over_ssh(1) by (auto simp: doors_wired_def)
    obtain agent where agent: "key_authenticate keys (os_fingerprint os key) = Inr agent" "session_agent (Some perms) = agent"
      using over_ssh(2) keys(2) by (auto simp: public_key_callback_def session_agent_def split: sum.splits)
    have "os_fingerprint os key \<noteq> []" using agent(1) by (auto simp: key_authenticate_def)
    then obtain line where "(agent, line) \<in> set (sy_authorized (cf_ssh cfg))"
      using new_keyauth_exact [OF keys(1)] agent(1) by metis
    then have "agent_known cfg agent" by (force simp: agent_known_def)
    moreover obtain req0 s0 where run: "handle_exec g (Some perms) req0 stdin s0 = Some s'" "ss_world s0 = ss_world s"
      using session_exec [OF over_ssh(3)] over_ssh(4) by auto
    then have ex: "exec_world g (Some perms, req0, stdin, s0) (ss_world s) = ss_world s'"
      by (auto simp: exec_world_def simp flip: run(2))
    obtain ctx req pid m0 m' q where p: "ssh_admits g (Some perms) req0 = Some (ctx, repo, True)"
      "parse_receive_pack (g_omax (os_gogit os)) (bytes_source buf) = Inr req"
      "prepare_push (os_git os) (rp_commands req) (agent_name ctx) repo pid m0 = (m', Inr q)"
      "list_all2 mirrors (rp_commands req) (q_updates q)" "d_verdict (evaluate_push eng q) = VerdictAllow"
      using ssh.push_prepared [where q = "(Some perms, req0, stdin, s0)" and w = "ss_world s",
          OF in'(1-3), unfolded ex, simplified, OF over_ssh(4)] unfolding in'(4,5) by blast
    have "ctx = Some agent" "decide (sf_creds g) (sf_public g) repo True = DecisionAllow"
      using exec_admitted [OF p(1)] agent(2) by metis+
    moreover obtain user secret where "upstream_basic ?creds repo = Some (user, secret)" "secret \<noteq> []"
      using cred [of "sf_public g"] calculation(3) unfolding keys(3) by blast
    ultimately show ?thesis using that p(2-5) by (auto simp: agent_name_def)
  qed
qed

section \<open>A concrete machine\<close>

definition start_machine :: "(unit, string) machine" where
  "start_machine =
     \<lparr>os_version = ''v1'', os_listen = (\<lambda>a. None), os_read = (\<lambda>p. Inr []),
      os_profiles = (\<lambda>b. Inr [\<lparr>pf_name = ''main'', pf_description = ''d'', pf_username = ''u'', pf_password = ''p'',
        pf_token = [], pf_repos = [''r'']\<rparr>]),
      os_env = Map.empty, os_url = (\<lambda>u. Inr (''https'', ''up'', ''up'')), os_without_user = (\<lambda>u. u),
      os_http = demo_client, os_gunzip = Inr,
      os_net = \<lparr>rn_url_error = (\<lambda>u. None), rn_do = (\<lambda>h q. Inl ''down''), rn_hop = (\<lambda>h q. Inl ''down''),
        rn_resolve = (\<lambda>a b. None), rn_url_path = Some\<rparr>,
      os_git = demo_env, os_gogit = wire_gogit,
      os_mirror = \<lparr>mp_hash8 = (\<lambda>r. ''01234567''), mp_with_user = (\<lambda>u n p. Some u), mp_git_found = True\<rparr>,
      os_audit_open = (\<lambda>f. Inr (\<lambda>e. None)), os_post = (\<lambda>u a. Inr (200, ''200 OK'')),
      os_compile = no_regex, os_host_key = Inr, os_ephemeral = Inr ''key'', os_parse_key = demo_key,
      os_fingerprint = (\<lambda>k. k),
      os_json = \<lparr>js_strings = (\<lambda>b. Inr (\<lambda>k. [])), js_labels = (\<lambda>b. Inr [])\<rparr>\<rparr>"

definition private_rule :: rule_config where
  "private_rule = demo_rc\<lparr>rc_params := [''deny'' \<mapsto> YStrs [''private/**'']]\<rparr>"

definition start_config :: config where
  "start_config =
     \<lparr>cf_listen = ''a:1'', cf_upstream = \<lparr>uy_kind = ''github'', uy_url = ''https://up'', uy_credentials_file = ''c''\<rparr>,
      cf_issue_upstream = \<lparr>uy_kind = [], uy_url = [], uy_credentials_file = []\<rparr>, cf_repos = Map.empty,
      cf_public_repos = [], cf_auth = \<lparr>ay_tokens = demo_tokens, ay_unsafe = False\<rparr>,
      cf_policy = \<lparr>py_mode = ''collect_all'', py_rules = [(''path_acl'', private_rule)], py_mirror_dir = ''/m'',
        py_max_packfile = 0, py_read_deny = [''keys/*''], py_dry_run = False\<rparr>,
      cf_ssh = \<lparr>sy_listen = ''a:2'', sy_host_key = [], sy_authorized = [(''bot'', ''k1'')]\<rparr>,
      cf_audit_file = ''log'', cf_webhook = [],
      cf_broker = \<lparr>by_listen = ''a:3'', by_agents = [''bot''], by_ops = [''pr.create''], by_merge_method = [],
        by_allow_logs = False, by_max_log = 0, by_agent_repos = []\<rparr>,
      cf_preflight = \<lparr>fy_enabled = Some False, fy_timeout = 0, fy_probe_timeout = 0, fy_max_repos = 0, fy_concurrency = 0\<rparr>\<rparr>"

definition start_system :: "(unit, string) system option" where
  "start_system = (case startup start_machine start_config [] of (l, Inr sys) \<Rightarrow> Some sys | _ \<Rightarrow> None)"

definition started :: "(unit, string) system" where
  "started = the start_system"

lemma started_facts:
  "\<exists>l. startup start_machine start_config [] = (l, Inr started)"
  "sn_ssh started \<noteq> None" "sn_broker started \<noteq> None"
  "w_sent (hx_world (handle (sn_http started) demo_post demo_exchange)) = [(''git-receive-pack'', ''r'', demo_push)]"
proof -
  have "case startup start_machine start_config [] of
      (l, Inr sys) \<Rightarrow> sn_ssh sys \<noteq> None \<and> sn_broker sys \<noteq> None \<and>
        w_sent (hx_world (handle (sn_http sys) demo_post demo_exchange)) = [(''git-receive-pack'', ''r'', demo_push)]
    | _ \<Rightarrow> False"
    by code_simp
  then obtain l sys where "startup start_machine start_config [] = (l, Inr sys)" "sn_ssh sys \<noteq> None"
    "sn_broker sys \<noteq> None"
    "w_sent (hx_world (handle (sn_http sys) demo_post demo_exchange)) = [(''git-receive-pack'', ''r'', demo_push)]"
    by (auto split: prod.splits sum.splits)
  then show "\<exists>l. startup start_machine start_config [] = (l, Inr started)"
    "sn_ssh started \<noteq> None" "sn_broker started \<noteq> None"
    "w_sent (hx_world (handle (sn_http started) demo_post demo_exchange)) = [(''git-receive-pack'', ''r'', demo_push)]"
    by (simp_all add: started_def start_system_def)
qed

section \<open>Properties\<close>

text \<open>C2: a startup that succeeds has put the configuration into force on every path. Both
  frontends hold the engine the policy resolves to, an opener whenever a rule or a read pattern
  needs one, the read-deny matcher without a malformed pattern, the same dry-run flag and the same
  sinks; the HTTP frontend runs without an authenticator only after the explicit opt-in, the SSH
  frontend only over the configured keys, and the broker only over the GitHub adapter of the
  upstream with the vault and the tokens of the frontends.\<close>

theorem startup_enforced:
  assumes "startup os cfg l = (l', Inr sys)"
  shows "list_all (proxy_wired os cfg (sn_scm_vault sys)) (proxies sys) \<and> doors_wired os cfg sys"
  by (rule startup_wired [OF assms])

theorem startup_enforced_witness:
  "list_all (proxy_wired start_machine start_config (sn_scm_vault started)) (proxies started) \<and>
   length (proxies started) = 2 \<and> doors_wired start_machine start_config started \<and> sn_broker started \<noteq> None"
proof -
  obtain l where l: "startup start_machine start_config [] = (l, Inr started)" using started_facts(1) by blast
  show ?thesis using startup_enforced [OF l] started_facts(2,3) by (auto simp: proxies_def)
qed

text \<open>C3: startup fails closed. It never yields a system without tokens unless the opt-in is
  given, nor with an enabled rule that is unknown or has no mirror directory, nor with read
  protection whose patterns are malformed or that has no mirror directory, nor with a broker over
  an upstream that is not GitHub, nor with an SSH frontend whose authorized keys do not load.\<close>

theorem startup_fails_closed:
  assumes "requires_explicit_opt_out (cf_auth cfg) \<or>
    (\<exists>(name, rc) \<in> set (py_rules (cf_policy cfg)). rc_enabled rc \<and>
       (py_mirror_dir (cf_policy cfg) = [] \<or>
        (map_of (py_rules (cf_policy cfg)) name = Some rc \<and> default_registry (os_compile os) name = None))) \<or>
    (\<exists>p \<in> set (py_read_deny (cf_policy cfg)). py_mirror_dir (cf_policy cfg) = [] \<or> is_malformed p) \<or>
    (by_listen (cf_broker cfg) \<noteq> [] \<and> uy_kind (cf_upstream cfg) \<noteq> ''github'') \<or>
    (sy_listen (cf_ssh cfg) \<noteq> [] \<and>
       (\<exists>e. new_keyauth (os_parse_key os) (os_fingerprint os) (sy_authorized (cf_ssh cfg)) = Inl e))"
  shows "\<exists>l' e. startup os cfg l = (l', Inl e)"
proof (rule ccontr)
  assume no: "\<not> ?thesis"
  obtain l' r where run: "startup os cfg l = (l', r)" by fastforce
  with no obtain sys where "startup os cfg l = (l', Inr sys)" by (cases r) auto
  note w = startup_wired [OF this] and m = startup_mirror_dir [OF this]
  have px: "proxy_wired os cfg (sn_scm_vault sys) (hf_proxy (sn_http sys))" and d: "doors_wired os cfg sys"
    using w by (simp_all add: proxies_def)
  have "\<not> requires_explicit_opt_out (cf_auth cfg)"
    using d by (auto simp: doors_wired_def requires_explicit_opt_out_def)
  moreover have "\<not> (\<exists>(name, rc) \<in> set (py_rules (cf_policy cfg)). rc_enabled rc \<and>
      (py_mirror_dir (cf_policy cfg) = [] \<or>
       (map_of (py_rules (cf_policy cfg)) name = Some rc \<and> default_registry (os_compile os) name = None)))"
  proof clarify
    fix name rc
    assume rc: "(name, rc) \<in> set (py_rules (cf_policy cfg))" "rc_enabled rc"
      and bad: "py_mirror_dir (cf_policy cfg) = [] \<or>
        (map_of (py_rules (cf_policy cfg)) name = Some rc \<and> default_registry (os_compile os) name = None)"
    have on: "has_enabled_rules (cf_policy cfg)"
      using rc by (auto simp: has_enabled_rules_def list_ex_iff)
    then obtain eng where "resolve (to_policy (cf_policy cfg)) (default_registry (os_compile os)) = Inr eng"
      using px by (auto simp: proxy_wired_def)
    moreover have "name \<in> set (enabled_names (to_policy (cf_policy cfg)))"
      if "map_of (py_rules (cf_policy cfg)) name = Some rc"
      using that rc by (force simp: enabled_names_def to_policy_def)
    ultimately show False using bad m on by (auto simp: resolve_Inr)
  qed
  moreover have "\<not> (\<exists>p \<in> set (py_read_deny (cf_policy cfg)). py_mirror_dir (cf_policy cfg) = [] \<or> is_malformed p)"
  proof clarify
    fix p
    assume p: "p \<in> set (py_read_deny (cf_policy cfg))" "py_mirror_dir (cf_policy cfg) = [] \<or> is_malformed p"
    then have "read_deny_enabled (cf_policy cfg)" by (auto simp: read_deny_enabled_def)
    then show False using p px m by (auto simp: proxy_wired_def malformed_read_deny_def filter_empty_conv)
  qed
  moreover have "\<not> (by_listen (cf_broker cfg) \<noteq> [] \<and> uy_kind (cf_upstream cfg) \<noteq> ''github'')"
    "\<not> (sy_listen (cf_ssh cfg) \<noteq> [] \<and>
       (\<exists>e. new_keyauth (os_parse_key os) (os_fingerprint os) (sy_authorized (cf_ssh cfg)) = Inl e))"
    using d by (auto simp: doors_wired_def split: option.splits prod.splits)
  ultimately show False using assms by blast
qed

theorem startup_fails_closed_witness:
  "(\<exists>l e. startup start_machine (start_config\<lparr>cf_auth := \<lparr>ay_tokens = [], ay_unsafe = False\<rparr>\<rparr>) [] = (l, Inl e)) \<and>
   (\<exists>l e. startup start_machine (start_config\<lparr>cf_policy := (cf_policy start_config)\<lparr>py_mirror_dir := []\<rparr>\<rparr>) [] = (l, Inl e))"
  using startup_fails_closed [of "start_config\<lparr>cf_auth := \<lparr>ay_tokens = [], ay_unsafe = False\<rparr>\<rparr>" start_machine "[]"]
    startup_fails_closed [of "start_config\<lparr>cf_policy := (cf_policy start_config)\<lparr>py_mirror_dir := []\<rparr>\<rparr>" start_machine "[]"]
  by (simp add: requires_explicit_opt_out_def start_config_def private_rule_def demo_rc_def)

text \<open>C1: end to end, from the configuration file to the upstream. Whatever push a started system
  sends to its upstream, over HTTP or SSH, comes from an agent of the configuration, has a
  credential of the vault for its repository, and parses to commands whose push context (the
  mirror's view of exactly those ref updates) keeps every rule that the policy enables for that
  agent and repository.\<close>

theorem configured_push_conforms:
  assumes "startup os cfg l = (l', Inr sys)" and "distinct (map fst (py_rules (cf_policy cfg)))"
    and "has_enabled_rules (cf_policy cfg)" and "\<not> py_dry_run (cf_policy cfg)"
    and "pushes os sys repo buf"
  shows "\<exists>agent user secret req pid m0 m' q.
    agent_known cfg agent \<and>
    upstream_basic (store_lookup (sn_scm_vault sys)) repo = Some (user, secret) \<and> secret \<noteq> [] \<and>
    parse_receive_pack (g_omax (os_gogit os)) (bytes_source buf) = Inr req \<and>
    prepare_push (os_git os) (rp_commands req) agent repo pid m0 = (m', Inr q) \<and>
    list_all2 mirrors (rp_commands req) (q_updates q) \<and>
    q_agent q = agent \<and> q_repo q = repo \<and> conforms (os_compile os) (cf_policy cfg) q"
proof -
  have "proxy_wired os cfg (sn_scm_vault sys) (hf_proxy (sn_http sys))"
    using startup_wired [OF assms(1)] by (simp add: proxies_def)
  then obtain eng where eng: "resolve (to_policy (cf_policy cfg)) (default_registry (os_compile os)) = Inr eng"
    using assms(3) by (auto simp: proxy_wired_def)
  obtain agent user secret req pid m0 m' q where p: "agent_known cfg agent"
    "upstream_basic (store_lookup (sn_scm_vault sys)) repo = Some (user, secret)" "secret \<noteq> []"
    "parse_receive_pack (g_omax (os_gogit os)) (bytes_source buf) = Inr req"
    "prepare_push (os_git os) (rp_commands req) agent repo pid m0 = (m', Inr q)"
    "list_all2 mirrors (rp_commands req) (q_updates q)" "d_verdict (evaluate_push eng q) = VerdictAllow"
    by (rule pushed_prepared [OF assms(1,3,4,5) eng])
  obtain "q_agent q = agent" "q_repo q = repo" by (rule prepare_push_Inr [OF p(5)])
  moreover have "distinct (map fst (pc_rules (to_policy (cf_policy cfg))))"
    using assms(2) by (simp add: to_policy_def)
  note ok = active_respected [OF eng this p(7) refl refl]
  have "conforms (os_compile os) (cf_policy cfg) q" using ok by (auto simp: conforms_def)
  ultimately show ?thesis using p(1-6) by blast
qed

theorem configured_push_conforms_witness:
  "\<exists>agent req pid m0 m' q.
    agent_known start_config agent \<and> parse_receive_pack 65520 (bytes_source demo_push) = Inr req \<and>
    prepare_push demo_env (rp_commands req) agent ''r'' pid m0 = (m', Inr q) \<and>
    \<not> touches_denied private_rule q"
proof -
  obtain l where l: "startup start_machine start_config [] = (l, Inr started)" using started_facts(1) by blast
  have push: "pushes start_machine started ''r'' demo_push"
    by (rule pushes.over_http [of _ _ demo_exchange _ demo_post], unfold started_facts(4))
      (simp_all add: demo_exchange_def demo_world_def)
  have cfg: "distinct (map fst (py_rules (cf_policy start_config)))" "has_enabled_rules (cf_policy start_config)"
      "\<not> py_dry_run (cf_policy start_config)"
      "active (to_policy (cf_policy start_config)) ''path_acl'' agent repo private_rule" for agent repo
    by (simp_all add: start_config_def has_enabled_rules_def active_def to_policy_def private_rule_def demo_rc_def)
  have "os_git start_machine = demo_env" "g_omax (os_gogit start_machine) = 65520"
    by (simp_all add: start_machine_def wire_gogit_def)
  then show ?thesis
    using configured_push_conforms [OF l cfg(1-3) push] cfg(4) unfolding conforms_def by metis
qed

end
