(* ===== verification/Preflight.thy ===== *)
theory Preflight
  imports Scm
begin

text \<open>
  The startup diagnostic (\<open>internal/preflight/preflight.go\<close>): which permissions the enabled features
  need, the pool of workers that probes them, and the report. The pool is a step relation over its
  goroutines, so that every interleaving and every answer of the prober is a run of it; the report
  is a function of the results. The budget, the probe timeouts and a cancelled context enter
  through the record \<open>surroundings\<close>.
\<close>

section \<open>Permissions\<close>

datatype permission = PermMetadata | PermContents | PermChecks | PermActions | PermPullRequests | PermIssues

definition perm_order :: "permission list" where
  "perm_order = [PermMetadata, PermContents, PermChecks, PermActions, PermPullRequests, PermIssues]"

fun perm_label :: "permission \<Rightarrow> string" where
  "perm_label PermMetadata = ''metadata (repo API)''"
| "perm_label PermContents = ''Contents (commits API)''"
| "perm_label PermChecks = ''Checks (check-runs API)''"
| "perm_label PermActions = ''Actions (workflow-runs API)''"
| "perm_label PermPullRequests = ''Pull requests (pulls API)''"
| "perm_label PermIssues = ''Issues (issues API)''"

fun consequence :: "permission \<Rightarrow> string" where
  "consequence PermMetadata = ''every credentialed op on this repo will fail closed''"
| "consequence PermContents = ''clone/fetch and push will fail closed''"
| "consequence PermChecks =
     ''ci.status falls back to Actions-only (checks_unavailable=true); ci.log resolves check names from Actions job names''"
| "consequence PermActions = ''ci.status reports check runs only; ci.log unavailable''"
| "consequence PermPullRequests = ''pr.* ops will fail closed''"
| "consequence PermIssues = ''issue.* ops will fail closed''"

record features =
  ft_git :: bool
  ft_prs :: bool
  ft_status :: bool
  ft_log :: bool
  ft_issues :: bool

definition wanted_permissions :: "features \<Rightarrow> permission set" where
  "wanted_permissions f =
     (if ft_git f \<or> ft_prs f \<or> ft_status f \<or> ft_log f \<or> ft_issues f then {PermMetadata} else {}) \<union>
     (if ft_git f then {PermContents} else {}) \<union>
     (if ft_status f \<or> ft_log f then {PermChecks, PermActions} else {}) \<union>
     (if ft_prs f then {PermPullRequests} else {}) \<union>
     (if ft_issues f then {PermIssues} else {})"

definition permissions_for :: "features \<Rightarrow> permission list" where
  "permissions_for f = filter (\<lambda>p. p \<in> wanted_permissions f) perm_order"

section \<open>Patterns\<close>

definition has_wildcard :: "string \<Rightarrow> bool" where
  "has_wildcard p \<longleftrightarrow> list_ex (\<lambda>c. c = CHR ''*'') p"

text \<open>The position of the only slash: \<open>Inl ()\<close> when there is a second one, else the one seen so far.\<close>

fun only_slash :: "string \<Rightarrow> nat \<Rightarrow> nat option \<Rightarrow> unit + nat option" where
  "only_slash [] i seen = Inr seen"
| "only_slash (c # cs) i seen =
     (if c = CHR ''/'' then (if seen \<noteq> None then Inl () else only_slash cs (Suc i) (Some i))
      else only_slash cs (Suc i) seen)"

definition is_owner_wildcard :: "string \<Rightarrow> bool" where
  "is_owner_wildcard p =
     (case only_slash p 0 None of
        Inr (Some slash) \<Rightarrow> slash > 0 \<and> drop (Suc slash) p = ''*'' \<and> \<not> has_wildcard (take slash p)
      | _ \<Rightarrow> False)"

section \<open>The worker pool\<close>

record probe_item =
  it_repo :: string
  it_from :: string
  it_perm :: permission

type_synonym probe_result = "scm_error option"

fun ends_probing :: "probe_result \<Rightarrow> bool" where
  "ends_probing (Some (ErrRateLimited after)) = True"
| "ends_probing (Some ErrUnauthorized) = True"
| "ends_probing _ = False"

text \<open>
  A worker of \<open>runItems\<close>: waiting for an index, holding one before its look at \<open>abortCh\<close>, in the
  probe, about to close \<open>abortCh\<close>, or returned.
\<close>

datatype worker = Waiting | Holding nat | Probing nat | Aborting | Returned

text \<open>The pool; \<open>pl_probed\<close> lists the items in the order their probes returned.\<close>

record pool =
  pl_next :: nat
  pl_closed :: bool
  pl_abort :: bool
  pl_workers :: "worker list"
  pl_results :: "probe_result list"
  pl_probed :: "nat list"

definition pool_start :: "nat \<Rightarrow> nat \<Rightarrow> pool" where
  "pool_start conc n =
     \<lparr>pl_next = 0, pl_closed = False, pl_abort = False, pl_workers = replicate (min conc n) Waiting,
      pl_results = replicate n None, pl_probed = []\<rparr>"

text \<open>\<open>ans i e\<close>: the probe of item \<open>i\<close> may return \<open>e\<close>. The dispatcher hands out the \<open>n\<close> indices.\<close>

inductive pool_step :: "nat \<Rightarrow> (nat \<Rightarrow> probe_result \<Rightarrow> bool) \<Rightarrow> pool \<Rightarrow> pool \<Rightarrow> bool" for n ans where
  hand_out: "\<not> pl_closed s \<Longrightarrow> pl_next s < n \<Longrightarrow> w < length (pl_workers s) \<Longrightarrow> pl_workers s ! w = Waiting \<Longrightarrow>
    pool_step n ans s (s\<lparr>pl_next := Suc (pl_next s), pl_workers := (pl_workers s)[w := Holding (pl_next s)]\<rparr>)"
| give_up: "\<not> pl_closed s \<Longrightarrow> pl_next s < n \<Longrightarrow> pl_abort s \<Longrightarrow> pool_step n ans s (s\<lparr>pl_closed := True\<rparr>)"
| all_out: "\<not> pl_closed s \<Longrightarrow> pl_next s = n \<Longrightarrow> pool_step n ans s (s\<lparr>pl_closed := True\<rparr>)"
| skip_item: "w < length (pl_workers s) \<Longrightarrow> pl_workers s ! w = Holding i \<Longrightarrow> pl_abort s \<Longrightarrow>
    pool_step n ans s (s\<lparr>pl_workers := (pl_workers s)[w := Returned]\<rparr>)"
| start_probe: "w < length (pl_workers s) \<Longrightarrow> pl_workers s ! w = Holding i \<Longrightarrow> \<not> pl_abort s \<Longrightarrow>
    pool_step n ans s (s\<lparr>pl_workers := (pl_workers s)[w := Probing i]\<rparr>)"
| probe_ended: "w < length (pl_workers s) \<Longrightarrow> pl_workers s ! w = Probing i \<Longrightarrow> ans i e \<Longrightarrow>
    pool_step n ans s (s\<lparr>pl_workers := (pl_workers s)[w := (if ends_probing e then Aborting else Waiting)],
                         pl_results := (pl_results s)[i := e], pl_probed := pl_probed s @ [i]\<rparr>)"
| raise_abort: "w < length (pl_workers s) \<Longrightarrow> pl_workers s ! w = Aborting \<Longrightarrow>
    pool_step n ans s (s\<lparr>pl_workers := (pl_workers s)[w := Waiting], pl_abort := True\<rparr>)"
| drained: "w < length (pl_workers s) \<Longrightarrow> pl_workers s ! w = Waiting \<Longrightarrow> pl_closed s \<Longrightarrow>
    pool_step n ans s (s\<lparr>pl_workers := (pl_workers s)[w := Returned]\<rparr>)"

text \<open>\<open>wg.Wait\<close> returns after the channel is closed and every worker has returned.\<close>

definition pool_done :: "pool \<Rightarrow> bool" where
  "pool_done s \<longleftrightarrow> pl_closed s \<and> list_all (\<lambda>w. w = Returned) (pl_workers s)"

text \<open>The results \<open>runItems\<close> may return.\<close>

definition run_items :: "nat \<Rightarrow> (nat \<Rightarrow> probe_result \<Rightarrow> bool) \<Rightarrow> nat \<Rightarrow> probe_result list \<Rightarrow> bool" where
  "run_items conc ans n rs \<longleftrightarrow>
     (if n = 0 then rs = []
      else (\<exists>s. (pool_step n ans)\<^sup>*\<^sup>* (pool_start conc n) s \<and> pool_done s \<and> pl_results s = rs))"

section \<open>The report\<close>

datatype pf_line =
    SkippedNoToken string
  | NotProbed string string
  | TokenRejected string
  | NoCI string string
  | Missing string permission string string
  | Inconclusive string permission
  | Capped string nat nat
  | RateLimited nat
  | OverBudget nat
  | SummaryClean nat nat
  | SummaryWarned nat nat nat

definition long_dash :: string where
  "long_dash = [CHR 0xE2, CHR 0x80, CHR 0x94]"

definition leg_tag :: "string \<Rightarrow> string" where
  "leg_tag label = (if label = [] then [] else ''['' @ label @ ''] '')"

text \<open>The text of a line; \<open>budget\<close> and \<open>took\<close> are printed durations.\<close>

definition line_text :: "string \<Rightarrow> string \<Rightarrow> string \<Rightarrow> pf_line \<Rightarrow> string" where
  "line_text leg budget took l =
     (case l of
        SkippedNoToken p \<Rightarrow> ''git-proxy: preflight: '' @ leg @ ''profile '' @ go_quote p @
          '': skipped (no token; broker ops for its repos are not credentialed)''
      | NotProbed p pat \<Rightarrow> ''git-proxy: preflight: '' @ leg @ ''profile '' @ go_quote p @
          '': pattern '' @ go_quote pat @ '' not probed (wildcard, no sample available)''
      | TokenRejected p \<Rightarrow> ''git-proxy: WARNING: preflight: '' @ leg @ ''profile '' @ go_quote p @
          '': upstream rejected the token (unauthorized); every credentialed op for its repos will fail closed''
      | NoCI p repo \<Rightarrow> ''git-proxy: WARNING: preflight: '' @ leg @ ''profile '' @ go_quote p @
          '': token cannot read '' @ perm_label PermChecks @ '' or '' @ perm_label PermActions @ '' for '' @ repo @ '' '' @
          long_dash @ '' ci.status and ci.log will fail closed for this repo''
      | Missing p perm repo from \<Rightarrow> ''git-proxy: WARNING: preflight: '' @ leg @ ''profile '' @
          go_quote p @ '': token cannot read '' @ perm_label perm @ '' for '' @ repo @
          (if from \<noteq> [] then '' (sampled from pattern '' @ go_quote from @ '') '' else '' '') @ long_dash @ '' '' @ consequence perm
      | Inconclusive p perm \<Rightarrow> ''git-proxy: preflight: '' @ leg @ ''profile '' @ go_quote p @
          '': probe for '' @ perm_label perm @ '' inconclusive (upstream error); not a permission verdict''
      | Capped p n cap \<Rightarrow> ''git-proxy: preflight: '' @ leg @ ''profile '' @ go_quote p @ '': '' @
          show_nat n @ '' repo pattern(s) not probed (per-profile cap '' @ show_nat cap @ '')''
      | RateLimited n \<Rightarrow> ''git-proxy: WARNING: preflight: '' @ leg @ ''aborted '' @ long_dash @
          '' upstream rate limited; '' @ show_nat n @ '' repo(s) unchecked''
      | OverBudget n \<Rightarrow> ''git-proxy: preflight: '' @ leg @ ''budget '' @ budget @ '' exceeded; '' @
          show_nat n @ '' repo(s) unchecked''
      | SummaryClean np nr \<Rightarrow> ''git-proxy: preflight: '' @ leg @ show_nat np @ '' profile(s), '' @
          show_nat nr @ '' repo(s) probed in '' @ took @ ''; no missing permissions''
      | SummaryWarned np nr nw \<Rightarrow> ''git-proxy: preflight: '' @ leg @ show_nat np @ '' profile(s), '' @
          show_nat nr @ '' repo(s) probed in '' @ took @ ''; '' @ show_nat nw @ '' warning(s) '' @ long_dash @ '' see above'')"

text \<open>The walk over the results: the repositories in order, the results of each, the two flags.\<close>

record walk =
  wk_order :: "string list"
  wk_results :: "string \<Rightarrow> permission \<Rightarrow> probe_result option"
  wk_from :: "string \<Rightarrow> string"
  wk_limited :: bool
  wk_unauthorized :: bool

definition walk_start :: walk where
  "walk_start = \<lparr>wk_order = [], wk_results = (\<lambda>r p. None), wk_from = (\<lambda>r. []), wk_limited = False,
     wk_unauthorized = False\<rparr>"

definition walk_item :: "probe_item \<times> probe_result \<Rightarrow> walk \<Rightarrow> walk" where
  "walk_item ir k =
     (let (it, r) = ir;
          new = it_repo it \<notin> set (wk_order k);
          order = (if new then wk_order k @ [it_repo it] else wk_order k);
          from = (if new then (wk_from k)(it_repo it := it_from it) else wk_from k)
      in k\<lparr>wk_order := order, wk_from := from,
           wk_results := (wk_results k)(it_repo it := (wk_results k (it_repo it))(it_perm it := Some r)),
           wk_limited := (wk_limited k \<or> (case r of Some (ErrRateLimited a) \<Rightarrow> True | _ \<Rightarrow> False)),
           wk_unauthorized := (wk_unauthorized k \<or> r = Some ErrUnauthorized)\<rparr>)"

definition walk_results :: "(probe_item \<times> probe_result) list \<Rightarrow> walk" where
  "walk_results irs = fold walk_item irs walk_start"

text \<open>The lines of one repository.\<close>

definition combined_ci :: "(permission \<Rightarrow> probe_result option) \<Rightarrow> bool" where
  "combined_ci res \<longleftrightarrow> res PermChecks = Some (Some ErrForbidden) \<and> res PermActions = Some (Some ErrForbidden)"

definition perm_line ::
  "string \<Rightarrow> string \<Rightarrow> string \<Rightarrow> (permission \<Rightarrow> probe_result option) \<Rightarrow> permission \<Rightarrow> pf_line list" where
  "perm_line name repo from res perm =
     (case res perm of
        None \<Rightarrow> []
      | Some r \<Rightarrow>
          if combined_ci res \<and> (perm = PermChecks \<or> perm = PermActions) then []
          else (case r of
                  None \<Rightarrow> []
                | Some e \<Rightarrow> if e = ErrForbidden then [Missing name perm repo from] else [Inconclusive name perm]))"

definition repo_lines :: "string \<Rightarrow> walk \<Rightarrow> string \<Rightarrow> pf_line list" where
  "repo_lines name k repo =
     (let res = wk_results k repo in
      (if combined_ci res then [NoCI name repo] else []) @
      concat (map (perm_line name repo (wk_from k repo) res) perm_order))"

fun is_warning :: "pf_line \<Rightarrow> bool" where
  "is_warning (TokenRejected p) = True"
| "is_warning (NoCI p r) = True"
| "is_warning (Missing p m r f) = True"
| "is_warning _ = False"

section \<open>One profile\<close>

record pf_profile =
  pp_name :: string
  pp_description :: string
  pp_repos :: "string list"
  pp_has_token :: bool

record pf_options =
  op_perms :: "permission list"
  op_label :: string
  op_max_repos :: int
  op_conc :: int

text \<open>
  What a run finds around it: whether its context has ended at the n-th look, the tokens, the sample
  of a pattern (no sample for an error or an empty answer) and the results of the n-th pool.
\<close>

record surroundings =
  su_ended :: "nat \<Rightarrow> bool"
  su_token :: "string \<rightharpoonup> string"
  su_sample :: "nat \<Rightarrow> string \<Rightarrow> string \<rightharpoonup> string"
  su_pool :: "nat \<Rightarrow> string \<Rightarrow> probe_item list \<Rightarrow> probe_result list"
  su_deadline :: bool

record pf_state =
  ps_lines :: "pf_line list"
  ps_looks :: nat
  ps_probed :: nat
  ps_handled :: nat
  ps_aborted :: bool

definition add_lines :: "pf_line list \<Rightarrow> pf_state \<Rightarrow> pf_state" where
  "add_lines ls s = s\<lparr>ps_lines := ps_lines s @ ls\<rparr>"

definition look :: "pf_state \<Rightarrow> pf_state" where
  "look s = s\<lparr>ps_looks := Suc (ps_looks s)\<rparr>"

definition no_sample :: "string \<Rightarrow> string \<Rightarrow> pf_state \<Rightarrow> pf_state" where
  "no_sample name pat s = add_lines [NotProbed name pat] (s\<lparr>ps_handled := Suc (ps_handled s)\<rparr>)"

fun resolve_targets ::
  "surroundings \<Rightarrow> string \<Rightarrow> string \<Rightarrow> string list \<Rightarrow> pf_state \<Rightarrow> (string \<times> string) list \<times> pf_state" where
  "resolve_targets su name token [] s = ([], s)"
| "resolve_targets su name token (pat # ps) s =
     (if su_ended su (ps_looks s) then ([], look s)
      else if \<not> has_wildcard pat then
        (let (ts, s') = resolve_targets su name token ps (look s) in ((pat, []) # ts, s'))
      else if \<not> is_owner_wildcard pat then resolve_targets su name token ps (no_sample name pat (look s))
      else (case su_sample su (ps_looks s) token pat of
              None \<Rightarrow> resolve_targets su name token ps (no_sample name pat (look s))
            | Some repo \<Rightarrow>
                if repo = [] then resolve_targets su name token ps (no_sample name pat (look s))
                else (let (ts, s') = resolve_targets su name token ps (look s) in ((repo, pat) # ts, s'))))"

definition probe_items :: "permission list \<Rightarrow> (string \<times> string) list \<Rightarrow> probe_item list" where
  "probe_items perms targets =
     concat (map (\<lambda>(repo, from). map (\<lambda>perm. \<lparr>it_repo = repo, it_from = from, it_perm = perm\<rparr>) perms) targets)"

definition or_int :: "int \<Rightarrow> int \<Rightarrow> int" where
  "or_int v d = (if v \<le> 0 then d else v)"

definition default_max_repos :: int where "default_max_repos = 20"
definition default_concurrency :: int where "default_concurrency = 4"

text \<open>The lines of a profile after its probes.\<close>

definition report_profile :: "string \<Rightarrow> walk \<Rightarrow> nat \<Rightarrow> nat \<Rightarrow> pf_line list" where
  "report_profile name k capped cap =
     (if wk_unauthorized k then [TokenRejected name] else concat (map (repo_lines name k) (wk_order k))) @
     (if capped > 0 then [Capped name capped cap] else [])"

definition run_profile :: "pf_options \<Rightarrow> surroundings \<Rightarrow> nat \<Rightarrow> pf_profile \<Rightarrow> pf_state \<Rightarrow> pf_state" where
  "run_profile op su j p s =
     (case (if pp_has_token p then su_token su (pp_name p) else None) of
        None \<Rightarrow> add_lines [SkippedNoToken (pp_name p)] s
      | Some token \<Rightarrow>
          if token = [] then add_lines [SkippedNoToken (pp_name p)] s
          else
            (let cap = nat (or_int (op_max_repos op) default_max_repos);
                 (targets, s1) = resolve_targets su (pp_name p) token (take cap (pp_repos p)) s;
                 items = probe_items (op_perms op) targets;
                 k = walk_results (zip items (su_pool su j token items));
                 s2 = s1\<lparr>ps_probed := ps_probed s1 + length (wk_order k),
                         ps_handled := ps_handled s1 + length (wk_order k),
                         ps_aborted := (ps_aborted s1 \<or> wk_limited k)\<rparr>
             in add_lines (report_profile (pp_name p) k (length (pp_repos p) - cap) cap) s2))"

section \<open>The run\<close>

fun run_profiles :: "pf_options \<Rightarrow> surroundings \<Rightarrow> nat \<Rightarrow> pf_profile list \<Rightarrow> pf_state \<Rightarrow> pf_state" where
  "run_profiles op su j [] s = s"
| "run_profiles op su j (p # ps) s =
     (if ps_aborted s then s
      else if su_ended su (ps_looks s) then look s
      else run_profiles op su (Suc j) ps (run_profile op su j p (look s)))"

definition run_preflight :: "pf_options \<Rightarrow> surroundings \<Rightarrow> pf_profile list \<Rightarrow> pf_line list" where
  "run_preflight op su profiles =
     (if op_perms op = [] \<or> profiles = [] then []
      else
        (let s = run_profiles op su 0 profiles
               \<lparr>ps_lines = [], ps_looks = 0, ps_probed = 0, ps_handled = 0, ps_aborted = False\<rparr>;
             unchecked = (\<Sum>p\<leftarrow>profiles. length (pp_repos p)) - ps_handled s;
             warnings = length (filter is_warning (ps_lines s))
         in ps_lines s @
            (if ps_aborted s then [RateLimited unchecked]
             else if su_deadline su \<and> unchecked > 0 then [OverBudget unchecked] else []) @
            [if warnings = 0 then SummaryClean (length profiles) (ps_probed s)
             else SummaryWarned (length profiles) (ps_probed s) warnings]))"

end
