(* ===== verification/PreflightProps.thy ===== *)
theory PreflightProps
  imports Preflight "HOL-Library.Multiset"
begin

text \<open>
  Properties of the startup diagnostic: the worker pool ends under every schedule and probes every
  item exactly once unless an answer ended the probing, and then the report names exactly the
  permissions the prober found missing.
\<close>

section \<open>The pool\<close>

text \<open>The items the workers hold, and all that were handed out and not dropped.\<close>

fun held_item :: "worker \<Rightarrow> nat multiset" where
  "held_item (Holding i) = {#i#}"
| "held_item (Probing i) = {#i#}"
| "held_item _ = {#}"

definition held :: "worker list \<Rightarrow> nat multiset" where
  "held ws = (\<Sum>\<^sub># (image_mset held_item (mset ws)))"

lemma held_update:
  assumes "w < length ws"
  shows "held (ws[w := y]) + held_item (ws ! w) = held ws + held_item y"
proof -
  have "mset ws = add_mset (ws ! w) (mset ws - {#ws ! w#})"
    using assms by simp
  then have "held ws = held_item (ws ! w) + (\<Sum>\<^sub># (image_mset held_item (mset ws - {#ws ! w#})))"
    unfolding held_def by (metis image_mset_add_mset sum_mset.add_mset)
  moreover have "held (ws[w := y]) = held_item y + (\<Sum>\<^sub># (image_mset held_item (mset ws - {#ws ! w#})))"
    using assms by (simp add: held_def mset_update)
  ultimately show ?thesis by (simp add: ac_simps)
qed

lemma held_start: "held (replicate k Waiting) = {#}"
  by (simp add: held_def)

lemma held_returned: "list_all (\<lambda>w. w = Returned) ws \<Longrightarrow> held ws = {#}"
  by (induction ws) (auto simp: held_def)

definition pool_inv :: "nat \<Rightarrow> (nat \<Rightarrow> probe_result \<Rightarrow> bool) \<Rightarrow> nat \<Rightarrow> pool \<Rightarrow> bool" where
  "pool_inv n ans conc s \<longleftrightarrow>
     length (pl_workers s) = min conc n \<and> length (pl_results s) = n \<and> pl_next s \<le> n \<and>
     mset (pl_probed s) + held (pl_workers s) \<subseteq># mset [0..<pl_next s] \<and>
     (\<not> pl_abort s \<longrightarrow> Returned \<notin> set (pl_workers s) \<or> pl_closed s) \<and>
     (\<not> pl_abort s \<longrightarrow> mset (pl_probed s) + held (pl_workers s) = mset [0..<pl_next s]) \<and>
     (pl_closed s \<longrightarrow> pl_next s = n \<or> pl_abort s) \<and>
     (\<forall>i \<in> set (pl_probed s). ans i (pl_results s ! i)) \<and>
     (\<forall>i < n. i \<notin> set (pl_probed s) \<longrightarrow> pl_results s ! i = None) \<and>
     (pl_abort s \<or> Aborting \<in> set (pl_workers s) \<longrightarrow> (\<exists>i \<in> set (pl_probed s). ends_probing (pl_results s ! i)))"

lemma pool_inv_start: "pool_inv n ans conc (pool_start conc n)"
  by (auto simp: pool_inv_def pool_start_def held_start)

lemma distinct_sub:
  assumes "mset ps \<subseteq># mset ds" "distinct ds"
  shows "distinct ps \<and> set ps \<subseteq> set ds"
proof
  have "count (mset ps) a = (if a \<in> set ps then 1 else 0)" for a
  proof -
    have "count (mset ps) a \<le> count (mset ds) a" by (rule mset_subset_eq_count [OF assms(1)])
    also have "count (mset ds) a \<le> 1" using assms(2) by (auto simp: distinct_count_atmost_1)
    finally have "count (mset ps) a \<le> 1" .
    moreover have "count (mset ps) a = 0 \<longleftrightarrow> a \<notin> set ps" by (simp add: count_eq_zero_iff)
    ultimately show ?thesis by (cases "count (mset ps) a") auto
  qed
  then show "distinct ps" by (simp add: distinct_count_atmost_1)
  show "set ps \<subseteq> set ds" using set_mset_mono [OF assms(1)] by simp
qed

lemma out_fresh:
  assumes "mset ps + held ws \<subseteq># mset [0..<k]" "w < length ws" "held_item (ws ! w) = {#i#}" "k \<le> n"
  shows "i \<notin> set ps \<and> i < n"
proof -
  have "i \<in># held ws" using held_update [OF assms(2), of Waiting] assms(3)
    by (metis held_item.simps(3) add_0_right union_iff union_single_eq_member)
  then have "add_mset i (mset ps) \<subseteq># mset ps + held ws"
    by (metis add_mset_add_single mset_subset_eq_mono_add_left_cancel mset_subset_eq_single)
  from subset_mset.order_trans [OF this assms(1)] have sub: "mset (i # ps) \<subseteq># mset [0..<k]" by simp
  show ?thesis using distinct_sub [OF sub] assms(4) by auto
qed

lemma set_update_other: "x \<in> set (ws[w := y]) \<Longrightarrow> x = y \<or> x \<in> set ws"
  by (meson set_update_subset_insert insertE subsetD)

lemma pool_inv_step:
  assumes "pool_step n ans s s'" "pool_inv n ans conc s"
  shows "pool_inv n ans conc s'"
  using assms
proof cases
  case (hand_out w)
  have "held ((pl_workers s)[w := Holding (pl_next s)]) = held (pl_workers s) + {#pl_next s#}"
    using held_update [OF hand_out(4), of "Holding (pl_next s)"] hand_out(5) by simp
  then show ?thesis
    using assms(2) hand_out by (auto simp: pool_inv_def dest: set_update_other)
next
  case (skip_item w i)
  have "held ((pl_workers s)[w := Returned]) + {#i#} = held (pl_workers s)"
    using held_update [OF skip_item(2), of Returned] skip_item(3) by simp
  then have "mset (pl_probed s) + held ((pl_workers s)[w := Returned]) \<subseteq># mset (pl_probed s) + held (pl_workers s)"
    by (metis mset_subset_eq_add_left union_assoc)
  then have "mset (pl_probed s) + held ((pl_workers s)[w := Returned]) \<subseteq># mset [0..<pl_next s]"
    using assms(2) unfolding pool_inv_def by (blast intro: subset_mset.order_trans)
  then show ?thesis
    using assms(2) skip_item by (auto simp: pool_inv_def dest: set_update_other simp del: upt_conv_Cons)
next
  case (start_probe w i)
  have "held ((pl_workers s)[w := Probing i]) = held (pl_workers s)"
    using held_update [OF start_probe(2), of "Probing i"] start_probe(3) by simp
  then show ?thesis
    using assms(2) start_probe by (auto simp: pool_inv_def dest: set_update_other)
next
  case (probe_ended w i e)
  let ?y = "if ends_probing e then Aborting else Waiting"
  have h: "held ((pl_workers s)[w := ?y]) + {#i#} = held (pl_workers s)"
    using held_update [OF probe_ended(2), of ?y] probe_ended(3) by simp
  have f: "i \<notin> set (pl_probed s)" "i < n"
    using out_fresh [OF _ probe_ended(2), of "pl_probed s" "pl_next s" i n] probe_ended(3) assms(2)
    by (auto simp: pool_inv_def)
  have m: "mset (pl_probed s @ [i]) + held ((pl_workers s)[w := ?y]) = mset (pl_probed s) + held (pl_workers s)"
    unfolding h [symmetric] by simp
  have inv: "length (pl_workers s) = min conc n" "length (pl_results s) = n" "pl_next s \<le> n"
    "mset (pl_probed s) + held (pl_workers s) \<subseteq># mset [0..<pl_next s]"
    "\<not> pl_abort s \<longrightarrow> Returned \<notin> set (pl_workers s) \<or> pl_closed s"
    "\<not> pl_abort s \<longrightarrow> mset (pl_probed s) + held (pl_workers s) = mset [0..<pl_next s]"
    "pl_closed s \<longrightarrow> pl_next s = n \<or> pl_abort s" "\<forall>i \<in> set (pl_probed s). ans i (pl_results s ! i)"
    "\<forall>i < n. i \<notin> set (pl_probed s) \<longrightarrow> pl_results s ! i = None"
    "pl_abort s \<or> Aborting \<in> set (pl_workers s) \<longrightarrow> (\<exists>i \<in> set (pl_probed s). ends_probing (pl_results s ! i))"
    using assms(2) by (simp_all add: pool_inv_def)
  have other: "(pl_results s)[i := e] ! j = pl_results s ! j" if "j \<in> set (pl_probed s)" for j
    using that f(1) by (cases "j = i") simp_all
  have "\<exists>j \<in> set (pl_probed s @ [i]). ends_probing ((pl_results s)[i := e] ! j)"
    if "pl_abort s \<or> Aborting \<in> set ((pl_workers s)[w := ?y])"
  proof (cases "ends_probing e")
    case True
    then show ?thesis using f(2) inv(2) by simp
  next
    case False
    then have "pl_abort s \<or> Aborting \<in> set (pl_workers s)" using that set_update_other by force
    then show ?thesis using inv(10) other by auto
  qed
  moreover have "Returned \<notin> set ((pl_workers s)[w := ?y]) \<or> pl_closed s" if "\<not> pl_abort s"
    using inv(5) that by (auto dest!: set_update_other split: if_splits)
  moreover have "\<forall>j \<in> set (pl_probed s @ [i]). ans j ((pl_results s)[i := e] ! j)"
    using inv(8) other probe_ended(4) f inv(2) by auto
  moreover have "\<forall>j < n. j \<notin> set (pl_probed s @ [i]) \<longrightarrow> (pl_results s)[i := e] ! j = None"
    using inv(9) by simp
  moreover have sel: "pl_workers s' = (pl_workers s)[w := ?y]" "pl_results s' = (pl_results s)[i := e]"
    "pl_probed s' = pl_probed s @ [i]" "pl_abort s' = pl_abort s" "pl_closed s' = pl_closed s" "pl_next s' = pl_next s"
    using probe_ended(1) by simp_all
  ultimately show ?thesis
    unfolding pool_inv_def sel m length_list_update using inv(1-4,6,7) by blast
next
  case (raise_abort w)
  have "held ((pl_workers s)[w := Waiting]) = held (pl_workers s)"
    using held_update [OF raise_abort(2), of Waiting] raise_abort(3) by simp
  moreover have "Aborting \<in> set (pl_workers s)" using raise_abort(2,3) by (metis nth_mem)
  ultimately show ?thesis
    using assms(2) raise_abort by (auto simp: pool_inv_def dest: set_update_other)
next
  case (drained w)
  have "held ((pl_workers s)[w := Returned]) = held (pl_workers s)"
    using held_update [OF drained(2), of Returned] drained(3) by simp
  then show ?thesis
    using assms(2) drained by (auto simp: pool_inv_def dest: set_update_other)
qed (auto simp: pool_inv_def)

lemma pool_inv_reachable: "(pool_step n ans)\<^sup>*\<^sup>* (pool_start conc n) s \<Longrightarrow> pool_inv n ans conc s"
  by (induction rule: rtranclp_induct) (auto intro: pool_inv_start pool_inv_step)

text \<open>Every step uses up some of the work that is left.\<close>

fun work_left :: "worker \<Rightarrow> nat" where
  "work_left Returned = 0"
| "work_left Waiting = 1"
| "work_left Aborting = 2"
| "work_left (Probing i) = 3"
| "work_left (Holding i) = 4"

definition pool_work :: "nat \<Rightarrow> pool \<Rightarrow> nat" where
  "pool_work n s = 4 * (n - pl_next s) + (if pl_closed s then 0 else 1) + (\<Sum>w\<leftarrow>pl_workers s. work_left w)"

lemma work_update:
  "w < length ws \<Longrightarrow> (\<Sum>v\<leftarrow>ws[w := y]. work_left v) + work_left (ws ! w) = (\<Sum>v\<leftarrow>ws. work_left v) + work_left y"
proof (induction ws arbitrary: w)
  case (Cons a ws)
  then show ?case by (cases w) auto
qed simp

lemma pool_work_step: "pool_step n ans s s' \<Longrightarrow> pool_work n s' < pool_work n s"
proof (induction rule: pool_step.induct)
  case (hand_out s w)
  then show ?case using work_update [of w "pl_workers s" "Holding (pl_next s)"] by (simp add: pool_work_def)
next
  case (skip_item w s i)
  then show ?case using work_update [of w "pl_workers s" Returned] by (simp add: pool_work_def)
next
  case (start_probe w s i)
  then show ?case using work_update [of w "pl_workers s" "Probing i"] by (simp add: pool_work_def)
next
  case (probe_ended w s i e)
  then show ?case
    using work_update [of w "pl_workers s" "if ends_probing e then Aborting else Waiting"]
    by (cases "ends_probing e") (simp_all add: pool_work_def)
next
  case (raise_abort w s)
  then show ?case using work_update [of w "pl_workers s" Waiting] by (simp add: pool_work_def)
next
  case (drained w s)
  then show ?case using work_update [of w "pl_workers s" Returned] by (simp add: pool_work_def)
qed (simp_all add: pool_work_def)


text \<open>No state is stuck while something is left to do.\<close>

lemma pool_progress:
  assumes "pool_inv n ans conc s" "\<not> pool_done s" "0 < conc" "0 < n" "\<forall>i < n. \<exists>e. ans i e"
  shows "\<exists>s'. pool_step n ans s s'"
proof (cases "\<exists>w < length (pl_workers s). pl_workers s ! w \<notin> {Waiting, Returned}")
  case True
  then obtain w where w: "w < length (pl_workers s)" "pl_workers s ! w \<notin> {Waiting, Returned}" by blast
  then show ?thesis
  proof (cases "pl_workers s ! w")
    case (Holding i)
    then show ?thesis using w(1) skip_item start_probe by blast
  next
    case (Probing i)
    then have "i < n" using out_fresh [OF _ w(1), of "pl_probed s" "pl_next s" i n] assms(1)
      by (auto simp: pool_inv_def)
    then show ?thesis using Probing w(1) assms(5) probe_ended by blast
  next
    case Aborting
    then show ?thesis using w(1) raise_abort by blast
  qed simp_all
next
  case False
  show ?thesis
  proof (cases "pl_closed s")
    case True
    then obtain w where "w < length (pl_workers s)" "pl_workers s ! w = Waiting"
      using False assms(2) by (auto simp: pool_done_def list_all_length)
    then show ?thesis using True drained by blast
  next
    case opened: False
    show ?thesis
    proof (cases "pl_next s < n \<and> \<not> pl_abort s")
      case True
      then have "Returned \<notin> set (pl_workers s)" "length (pl_workers s) = min conc n"
        using assms(1) opened by (auto simp: pool_inv_def)
      then have "pl_workers s ! 0 = Waiting" "0 < length (pl_workers s)"
        using False assms(3,4) by (auto simp: in_set_conv_nth)
      then show ?thesis using True opened hand_out by blast
    next
      case False
      moreover have "pl_next s \<le> n" using assms(1) by (simp add: pool_inv_def)
      ultimately show ?thesis using opened give_up all_out by (metis le_neq_implies_less)
    qed
  qed
qed

text \<open>
  What \<open>runItems\<close> returns: the items \<open>probed\<close> were probed once each and have their answers, the others
  have none, and there are others only when an answer ended the probing.
\<close>

definition probed_once ::
  "nat \<Rightarrow> (nat \<Rightarrow> probe_result \<Rightarrow> bool) \<Rightarrow> probe_result list \<Rightarrow> nat list \<Rightarrow> bool" where
  "probed_once n ans rs probed \<longleftrightarrow>
     length rs = n \<and> distinct probed \<and> set probed \<subseteq> {..<n} \<and> (\<forall>i \<in> set probed. ans i (rs ! i)) \<and>
     (\<forall>i < n. i \<notin> set probed \<longrightarrow> rs ! i = None) \<and>
     (set probed = {..<n} \<or> (\<exists>i \<in> set probed. ends_probing (rs ! i)))"

lemma probed_onceD:
  assumes "probed_once n ans rs probed"
  shows "length rs = n" "set probed \<subseteq> {..<n}" "\<forall>i \<in> set probed. ans i (rs ! i)"
    "\<forall>i < n. i \<notin> set probed \<longrightarrow> rs ! i = None"
    "set probed = {..<n} \<or> (\<exists>i \<in> set probed. ends_probing (rs ! i))"
  using assms unfolding probed_once_def by blast+

lemma run_items_results:
  assumes "run_items conc ans n rs"
  shows "\<exists>probed. probed_once n ans rs probed"
proof (cases "n = 0")
  case False
  then obtain s where s: "(pool_step n ans)\<^sup>*\<^sup>* (pool_start conc n) s" "pool_done s" "pl_results s = rs"
    using assms by (auto simp: run_items_def)
  note inv = pool_inv_reachable [OF s(1), unfolded pool_inv_def]
  have h: "held (pl_workers s) = {#}" "pl_closed s" using s(2) by (auto simp: pool_done_def held_returned)
  have d: "distinct (pl_probed s)" "set (pl_probed s) \<subseteq> {..<n}"
    using distinct_sub [of "pl_probed s" "[0..<pl_next s]"] inv h by auto
  have "set (pl_probed s) = {..<n}" if "\<not> pl_abort s"
  proof -
    have "mset (pl_probed s) = mset [0..<n]" using inv h that by auto
    then show ?thesis by (metis atLeast_upt lessThan_atLeast0 set_mset_mset)
  qed
  then have "probed_once n ans rs (pl_probed s)" 
    unfolding probed_once_def s(3) [symmetric] using inv d by (intro conjI) blast+
  then show ?thesis by blast
qed (use assms in \<open>auto simp: run_items_def probed_once_def\<close>)

lemma pool_never_stuck:
  assumes "0 < conc" "0 < n" "\<forall>i < n. \<exists>e. ans i e"
  shows "\<forall>s. (pool_step n ans)\<^sup>*\<^sup>* (pool_start conc n) s \<longrightarrow> pool_done s \<or> (\<exists>s'. pool_step n ans s s')"
  using pool_progress [OF pool_inv_reachable _ assms] by blast

lemma run_items_exist:
  assumes "0 < conc" "0 < n" "\<forall>i < n. \<exists>e. ans i e"
  shows "\<exists>rs. run_items conc ans n rs"
proof -
  have "(pool_step n ans)\<^sup>*\<^sup>* (pool_start conc n) s \<Longrightarrow> \<exists>t. (pool_step n ans)\<^sup>*\<^sup>* (pool_start conc n) t \<and> pool_done t" for s
  proof (induction "pool_work n s" arbitrary: s rule: less_induct)
    case less
    then show ?case
      using pool_never_stuck [OF assms] pool_work_step by (meson rtranclp.rtrancl_into_rtrancl)
  qed
  then show ?thesis using assms(2) by (auto simp: run_items_def)
qed

section \<open>The walk over the results\<close>

fun is_limit :: "probe_result \<Rightarrow> bool" where
  "is_limit (Some (ErrRateLimited after)) = True"
| "is_limit _ = False"

lemma ends_probing_iff: "ends_probing r \<longleftrightarrow> is_limit r \<or> r = Some ErrUnauthorized"
  by (cases r rule: ends_probing.cases) auto

lemma walk_item_sel [simp]:
  "wk_order (walk_item (it, r) k) = (if it_repo it \<in> set (wk_order k) then wk_order k else wk_order k @ [it_repo it])"
  "wk_from (walk_item (it, r) k) =
     (if it_repo it \<in> set (wk_order k) then wk_from k else (wk_from k)(it_repo it := it_from it))"
  "wk_results (walk_item (it, r) k) a b =
     (if a = it_repo it \<and> b = it_perm it then Some r else wk_results k a b)"
  "wk_limited (walk_item (it, r) k) \<longleftrightarrow> wk_limited k \<or> is_limit r"
  "wk_unauthorized (walk_item (it, r) k) \<longleftrightarrow> wk_unauthorized k \<or> r = Some ErrUnauthorized"
  by (auto simp: walk_item_def Let_def split: option.splits scm_error.splits)

lemma walk_flags:
  "wk_limited (fold walk_item irs k) \<longleftrightarrow> wk_limited k \<or> (\<exists>r \<in> snd ` set irs. is_limit r)"
  "wk_unauthorized (fold walk_item irs k) \<longleftrightarrow> wk_unauthorized k \<or> Some ErrUnauthorized \<in> snd ` set irs"
  by (induction irs arbitrary: k) (auto simp: image_iff)

text \<open>The items of one repository that the walk has not met yet.\<close>

definition block :: "(string \<Rightarrow> permission \<Rightarrow> probe_result) \<Rightarrow> permission list \<Rightarrow> string \<times> string \<Rightarrow>
    (probe_item \<times> probe_result) list" where
  "block says perms t =
     map (\<lambda>p. (\<lparr>it_repo = fst t, it_from = snd t, it_perm = p\<rparr>, says (fst t) p)) perms"

lemma walk_block:
  assumes "fst t \<notin> set (wk_order k)" "perms \<noteq> []"
  shows "wk_order (fold walk_item (block says perms t) k) = wk_order k @ [fst t] \<and>
    wk_from (fold walk_item (block says perms t) k) = (wk_from k)(fst t := snd t) \<and>
    wk_results (fold walk_item (block says perms t) k) =
      (\<lambda>a b. if a = fst t \<and> b \<in> set perms then Some (says a b) else wk_results k a b)"
  using assms(2)
proof (induction perms rule: rev_induct)
  case (snoc p ps)
  then show ?case
    using assms(1) by (cases "ps = []") (auto simp: block_def fun_eq_iff)
qed simp

lemma walk_blocks:
  fixes says :: "string \<Rightarrow> permission \<Rightarrow> probe_result"
  assumes "distinct (map fst ts)" "perms \<noteq> []"
  defines "k \<equiv> fold walk_item (concat (map (block says perms) ts)) walk_start"
  shows "wk_order k = map fst ts" "\<forall>t \<in> set ts. wk_from k (fst t) = snd t"
    "wk_results k = (\<lambda>a b. if a \<in> fst ` set ts \<and> b \<in> set perms then Some (says a b) else None)"
proof -
  have "wk_order k = map fst ts \<and> (\<forall>t \<in> set ts. wk_from k (fst t) = snd t) \<and>
    wk_results k = (\<lambda>a b. if a \<in> fst ` set ts \<and> b \<in> set perms then Some (says a b) else None)"
    unfolding k_def using assms(1)
  proof (induction ts rule: rev_induct)
    case (snoc t ts)
    let ?k = "fold walk_item (concat (map (block says perms) ts)) walk_start"
    have "fst t \<notin> set (wk_order ?k)" using snoc by auto
    note b = walk_block [OF this assms(2), of says]
    have "\<forall>u \<in> set ts. fst u \<noteq> fst t" using snoc.prems by (auto simp: image_iff)
    then show ?case using snoc b by (auto simp: fun_eq_iff)
  qed (simp add: walk_start_def)
  then show "wk_order k = map fst ts" "\<forall>t \<in> set ts. wk_from k (fst t) = snd t"
    "wk_results k = (\<lambda>a b. if a \<in> fst ` set ts \<and> b \<in> set perms then Some (says a b) else None)" by auto
qed

lemma zip_map_self: "zip xs (map f xs) = map (\<lambda>x. (x, f x)) xs"
  by (induction xs) simp_all

lemma blocks_zip:
  "zip (probe_items perms ts) (map (\<lambda>it. says (it_repo it) (it_perm it)) (probe_items perms ts)) =
   concat (map (block says perms) ts)"
  unfolding zip_map_self by (induction ts) (auto simp: probe_items_def block_def)

text \<open>What a prober with the answers \<open>says\<close> may return for the items, and what is to be reported.\<close>

definition answers :: "probe_item list \<Rightarrow> (string \<Rightarrow> permission \<Rightarrow> probe_result) \<Rightarrow> nat \<Rightarrow> probe_result \<Rightarrow> bool" where
  "answers items says i e \<longleftrightarrow> i < length items \<and> e = says (it_repo (items ! i)) (it_perm (items ! i))"

definition expected_lines ::
  "string \<Rightarrow> (string \<Rightarrow> permission \<Rightarrow> probe_result) \<Rightarrow> permission list \<Rightarrow> string \<times> string \<Rightarrow> pf_line list" where
  "expected_lines name says perms t =
     (let missing = {p \<in> set perms. says (fst t) p = Some ErrForbidden};
          no_ci = {PermChecks, PermActions} \<subseteq> missing
      in (if no_ci then [NoCI name (fst t)] else []) @
         concat (map (\<lambda>p. if p \<notin> set perms \<or> says (fst t) p = None \<or> (no_ci \<and> p \<in> {PermChecks, PermActions}) then []
                          else if p \<in> missing then [Missing name p (fst t) (snd t)] else [Inconclusive name p]) perm_order))"

lemma repo_lines_expected:
  assumes "wk_results k (fst t) = (\<lambda>b. if b \<in> set perms then Some (says (fst t) b) else None)"
    and "wk_from k (fst t) = snd t"
  shows "repo_lines name k (fst t) = expected_lines name says perms t"
proof -
  have ci: "combined_ci (wk_results k (fst t)) \<longleftrightarrow>
      {PermChecks, PermActions} \<subseteq> {p \<in> set perms. says (fst t) p = Some ErrForbidden}"
    by (auto simp: combined_ci_def assms(1))
  have pl: "perm_line name (fst t) (snd t) (wk_results k (fst t)) =
      (\<lambda>p. if p \<notin> set perms \<or> says (fst t) p = None \<or>
          ({PermChecks, PermActions} \<subseteq> {p \<in> set perms. says (fst t) p = Some ErrForbidden} \<and> p \<in> {PermChecks, PermActions}) then []
       else if p \<in> {p \<in> set perms. says (fst t) p = Some ErrForbidden} then [Missing name p (fst t) (snd t)]
       else [Inconclusive name p])"
    unfolding perm_line_def ci by (rule ext) (auto simp: assms(1) split: option.splits)
  show ?thesis by (simp only: repo_lines_def expected_lines_def Let_def ci assms(2) pl)
qed

text \<open>The results of a pool whose prober has fixed answers.\<close>

lemma fixed_answers:
  assumes "probed_once (length items) (answers items says) rs probed"
  shows "i < length items \<Longrightarrow> rs ! i \<noteq> None \<Longrightarrow> rs ! i = says (it_repo (items ! i)) (it_perm (items ! i))"
    "(\<exists>e \<in> set rs. ends_probing e) \<longleftrightarrow> (\<exists>it \<in> set items. ends_probing (says (it_repo it) (it_perm it)))"
    "\<not> (\<exists>e \<in> set rs. ends_probing e) \<Longrightarrow> rs = map (\<lambda>it. says (it_repo it) (it_perm it)) items"
proof -
  note r = probed_onceD [OF assms]
  have probe: "rs ! i = says (it_repo (items ! i)) (it_perm (items ! i))" if "i \<in> set probed" for i
    using r(3) that by (simp add: answers_def)
  show said: "rs ! i = says (it_repo (items ! i)) (it_perm (items ! i))" if "i < length items" "rs ! i \<noteq> None" for i
    using probe r(4) that by (cases "i \<in> set probed") simp_all
  have all: "set probed = {..<length items}" if "\<not> (\<exists>e \<in> set rs. ends_probing e)"
    using r(1,2,5) that by (metis lessThan_iff nth_mem subsetD)
  show full: "rs = map (\<lambda>it. says (it_repo it) (it_perm it)) items" if "\<not> (\<exists>e \<in> set rs. ends_probing e)"
    using r(1) probe all [OF that] by (auto intro: nth_equalityI)
  show "(\<exists>e \<in> set rs. ends_probing e) \<longleftrightarrow> (\<exists>it \<in> set items. ends_probing (says (it_repo it) (it_perm it)))"
  proof
    assume "\<exists>e \<in> set rs. ends_probing e"
    then obtain i where i: "i < length items" "ends_probing (rs ! i)" using r(1) by (metis in_set_conv_nth)
    then have "rs ! i \<noteq> None" by (cases "rs ! i") auto
    then show "\<exists>it \<in> set items. ends_probing (says (it_repo it) (it_perm it))"
      using said [OF i(1)] i by (metis nth_mem)
  next
    assume "\<exists>it \<in> set items. ends_probing (says (it_repo it) (it_perm it))"
    then show "\<exists>e \<in> set rs. ends_probing e" using full by (cases "\<exists>e \<in> set rs. ends_probing e") auto
  qed
qed

lemma probe_items_in:
  "it \<in> set (probe_items perms targets) \<longleftrightarrow>
   (\<exists>t \<in> set targets. \<exists>p \<in> set perms. it = \<lparr>it_repo = fst t, it_from = snd t, it_perm = p\<rparr>)"
  by (auto simp: probe_items_def image_iff split_beta)

text \<open>The report of a walk over full results.\<close>

lemma report_expected:
  assumes "distinct (map fst targets)" "perms \<noteq> []"
    and "k = fold walk_item (concat (map (block says perms) targets)) walk_start" "\<not> wk_unauthorized k"
  shows "report_profile name k capped cap =
    concat (map (expected_lines name says perms) targets) @ (if capped > 0 then [Capped name capped cap] else [])"
proof -
  note b = walk_blocks [OF assms(1,2), of says, folded assms(3)]
  have "repo_lines name k (fst t) = expected_lines name says perms t" if "t \<in> set targets" for t
  proof (rule repo_lines_expected)
    have "fst t \<in> fst ` set targets" using that by simp
    then show "wk_results k (fst t) = (\<lambda>b. if b \<in> set perms then Some (says (fst t) b) else None)"
      unfolding b(3) by (simp only: simp_thms)
  qed (use b(2) that in blast)
  then have "concat (map (repo_lines name k) (wk_order k)) = concat (map (expected_lines name says perms) targets)"
    by (simp add: b(1) comp_def cong: map_cong)
  then show ?thesis using assms(4) by (simp add: report_profile_def)
qed

section \<open>Properties\<close>



text \<open>C38: what the report says, for distinct targets. Unless an answer ends the probing, the lines
  of a profile are, whatever the schedule of the probes, repository by repository in the order of
  the configuration, one warning for each permission answered with forbidden (one common warning when
  both CI permissions are) and one note for each inconclusive answer, and nothing for a readable
  one. When some answer ends the probing, which probes were made depends on the schedule and only
  the flags are fixed: the run is marked as rate limited or the token as rejected, and the token
  is reported as rejected only when the prober said so.\<close>

theorem preflight_report_exact:
  fixes targets :: "(string \<times> string) list"
  assumes "distinct (map fst targets)" and "perms \<noteq> []"
    and "run_items conc (answers (probe_items perms targets) says) (length (probe_items perms targets)) rs"
    and "k = walk_results (zip (probe_items perms targets) rs)"
  shows "if \<exists>t \<in> set targets. \<exists>p \<in> set perms. ends_probing (says (fst t) p)
    then (wk_limited k \<or> wk_unauthorized k) \<and>
      (wk_unauthorized k \<longrightarrow> (\<exists>t \<in> set targets. \<exists>p \<in> set perms. says (fst t) p = Some ErrUnauthorized))
    else \<not> wk_limited k \<and>
      report_profile name k capped cap =
        concat (map (expected_lines name says perms) targets) @ (if capped > 0 then [Capped name capped cap] else [])"
proof -
  let ?items = "probe_items perms targets"
  obtain probed where once: "probed_once (length ?items) (answers ?items says) rs probed"
    using run_items_results [OF assms(3)] by blast
  note r = fixed_answers [OF once] and len = probed_onceD(1) [OF once]
  have ending: "(\<exists>e \<in> set rs. ends_probing e) \<longleftrightarrow> (\<exists>t \<in> set targets. \<exists>p \<in> set perms. ends_probing (says (fst t) p))"
    unfolding r(2) by (force simp: probe_items_in)
  have zip: "snd ` set (zip ?items rs) = set rs" using len by (metis set_map map_snd_zip)
  have flags: "wk_limited k \<longleftrightarrow> (\<exists>e \<in> set rs. is_limit e)" "wk_unauthorized k \<longleftrightarrow> Some ErrUnauthorized \<in> set rs"
    unfolding assms(4) walk_results_def walk_flags zip by (simp_all add: walk_start_def)
  then have ended: "wk_limited k \<or> wk_unauthorized k \<longleftrightarrow> (\<exists>e \<in> set rs. ends_probing e)"
    by (auto simp: ends_probing_iff)
  have unauth: "\<exists>t \<in> set targets. \<exists>p \<in> set perms. says (fst t) p = Some ErrUnauthorized" if rejected: "wk_unauthorized k"
  proof -
    obtain i where i: "i < length ?items" "rs ! i = Some ErrUnauthorized"
      using rejected len unfolding flags by (metis in_set_conv_nth)
    have "?items ! i \<in> set ?items" using i(1) by simp
    then obtain t p where t: "t \<in> set targets" "p \<in> set perms"
      "?items ! i = \<lparr>it_repo = fst t, it_from = snd t, it_perm = p\<rparr>" unfolding probe_items_in by blast
    have "says (fst t) p = Some ErrUnauthorized" using r(1) [OF i(1)] i(2) by (simp add: t(3))
    then show ?thesis using t(1,2) by blast
  qed
  show ?thesis
  proof (cases "\<exists>t \<in> set targets. \<exists>p \<in> set perms. ends_probing (says (fst t) p)")
    case True
    then show ?thesis using ending ended unauth by auto
  next
    case False
    then have "\<not> (\<exists>e \<in> set rs. ends_probing e)" using ending by blast
    note rs = r(3) [OF this] and off = this [folded ended]
    have "k = fold walk_item (concat (map (block says perms) targets)) walk_start"
      unfolding assms(4) walk_results_def by (subst rs) (simp only: blocks_zip)
    note report_expected [OF assms(1,2) this, of name capped cap]
    then show ?thesis using False off by simp
  qed
qed

definition demo_says :: "string \<Rightarrow> permission \<Rightarrow> probe_result" where
  "demo_says repo p =
     (if p = PermContents then Some ErrNotFound
      else if p = PermChecks \<or> (repo = ''o/a'' \<and> p = PermActions) then Some ErrForbidden else None)"

definition demo_perms :: "permission list" where
  "demo_perms = [PermMetadata, PermContents, PermChecks, PermActions]"

definition demo_targets :: "(string \<times> string) list" where
  "demo_targets = [(''o/a'', []), (''o/b'', ''o/*'')]"

theorem preflight_report_exact_witness:
  "\<exists>rs. run_items 4 (answers (probe_items demo_perms demo_targets) demo_says) 8 rs \<and>
    report_profile ''main'' (walk_results (zip (probe_items demo_perms demo_targets) rs)) 0 20 =
      [NoCI ''main'' ''o/a'', Inconclusive ''main'' PermContents,
       Inconclusive ''main'' PermContents, Missing ''main'' PermChecks ''o/b'' ''o/*'']"
proof -
  let ?items = "probe_items demo_perms demo_targets"
  have n: "length ?items = 8" by (simp add: probe_items_def demo_perms_def demo_targets_def)
  obtain rs where rs: "run_items 4 (answers ?items demo_says) (length ?items) rs"
    using run_items_exist [of 4 "length ?items" "answers ?items demo_says"] n by (auto simp: answers_def)
  have d: "distinct (map fst demo_targets)" "demo_perms \<noteq> []" by (simp_all add: demo_targets_def demo_perms_def)
  have no: "\<not> (\<exists>t \<in> set demo_targets. \<exists>p \<in> set demo_perms. ends_probing (demo_says (fst t) p))"
    by (simp add: demo_targets_def demo_perms_def demo_says_def)
  have e: "concat (map (expected_lines ''main'' demo_says demo_perms) demo_targets) =
      [NoCI ''main'' ''o/a'', Inconclusive ''main'' PermContents,
       Inconclusive ''main'' PermContents, Missing ''main'' PermChecks ''o/b'' ''o/*'']"
    by (simp add: demo_targets_def demo_perms_def demo_says_def expected_lines_def perm_order_def)
  show ?thesis
    using preflight_report_exact [OF d rs refl, of "''main''" 0 20] no e rs n by auto
qed

section \<open>After a rate limit\<close>

text \<open>
  A skipped probe leaves no result, which the report takes for a readable permission, and the
  rate-limit warning is not counted: the last line of such a run may say that nothing is missing.
\<close>

lemma skipped_without_result: "run_items 1 (\<lambda>i e. e = Some (ErrRateLimited [])) 2 [Some (ErrRateLimited []), None]"
proof -
  let ?ans = "\<lambda>(i :: nat) e. e = Some (ErrRateLimited [])"
  let ?step = "pool_step 2 ?ans"
  let ?s = "\<lambda>k c a w rs p. \<lparr>pl_next = k, pl_closed = c, pl_abort = a, pl_workers = [w], pl_results = rs, pl_probed = p\<rparr>"
  let ?none = "[None, None] :: probe_result list" and ?rs = "[Some (ErrRateLimited []), None] :: probe_result list"
  have "?step (?s 0 False False Waiting ?none []) (?s 1 False False (Holding 0) ?none [])"
    using pool_step.hand_out [of "?s 0 False False Waiting ?none []" 2 0 ?ans] by simp
  moreover have "?step (?s 1 False False (Holding 0) ?none []) (?s 1 False False (Probing 0) ?none [])"
    using pool_step.start_probe [of 0 "?s 1 False False (Holding 0) ?none []" 0 2 ?ans] by simp
  moreover have "?step (?s 1 False False (Probing 0) ?none []) (?s 1 False False Aborting ?rs [0])"
    using pool_step.probe_ended [of 0 "?s 1 False False (Probing 0) ?none []" 0 ?ans "Some (ErrRateLimited [])" 2] by simp
  moreover have "?step (?s 1 False False Aborting ?rs [0]) (?s 1 False True Waiting ?rs [0])"
    using pool_step.raise_abort [of 0 "?s 1 False False Aborting ?rs [0]" 2 ?ans] by simp
  moreover have "?step (?s 1 False True Waiting ?rs [0]) (?s 1 True True Waiting ?rs [0])"
    using pool_step.give_up [of "?s 1 False True Waiting ?rs [0]" 2 ?ans] by simp
  moreover have "?step (?s 1 True True Waiting ?rs [0]) (?s 1 True True Returned ?rs [0])"
    using pool_step.drained [of 0 "?s 1 True True Waiting ?rs [0]" 2 ?ans] by simp
  ultimately have "?step\<^sup>*\<^sup>* (?s 0 False False Waiting ?none []) (?s 1 True True Returned ?rs [0])"
    by (meson converse_rtranclp_into_rtranclp rtranclp.rtrancl_refl)
  moreover have "pool_start 1 2 = ?s 0 False False Waiting ?none []" by (simp add: pool_start_def numeral_2_eq_2)
  ultimately show ?thesis by (auto simp: run_items_def pool_done_def)
qed

definition limited_around :: surroundings where
  "limited_around = \<lparr>su_ended = (\<lambda>n. False), su_token = [''main'' \<mapsto> ''t''], su_sample = (\<lambda>n t p. None),
     su_pool = (\<lambda>j t items. [Some (ErrRateLimited []), None]), su_deadline = False\<rparr>"

lemma rate_limited_looks_clean:
  "run_preflight \<lparr>op_perms = [PermMetadata, PermContents], op_label = [], op_max_repos = 0, op_conc = 1\<rparr> limited_around
     [\<lparr>pp_name = ''main'', pp_description = [], pp_repos = [''o/a''], pp_has_token = True\<rparr>] =
   [Inconclusive ''main'' PermMetadata, RateLimited 0, SummaryClean 1 1]"
  by code_simp

end
