(* ===== verification/Prober.thy ===== *)
theory Prober
  imports Preflight Startup
begin

text \<open>
  The GitHub prober (\<open>internal/upstream/github/preflight.go\<close>), its registration
  (\<open>internal/preflight/registry.go\<close>), and from \<open>cmd/git-proxy/main.go\<close> the legs of the diagnostic
  (\<open>runPreflight\<close> with \<open>anyOpAllowed\<close> and \<open>toPreflightProfiles\<close>). A probe is one run of the REST client; that several probes of a pool
  interleave their requests is left out here, the pool of \<open>Preflight\<close> takes any answers.
\<close>

section \<open>The GitHub prober\<close>

definition prober_probe :: "rest_net \<Rightarrow> string \<Rightarrow> string \<Rightarrow> string \<Rightarrow> permission \<Rightarrow> unit rest" where
  "prober_probe net base tok repo perm =
     on_repo repo (\<lambda>rp.
       (let c = rest_new net base tok in
        case perm of
          PermMetadata \<Rightarrow> probe c rp
        | PermContents \<Rightarrow>
            rest_catch (probe c (rp @ ''/commits?per_page=1'')) rest_ret
              (\<lambda>e. if e = ErrNotMergeable then rest_ret () else rest_err e)
        | PermChecks \<Rightarrow>
            rest_catch (probe c (rp @ ''/commits/HEAD/check-runs?per_page=1'')) rest_ret
              (\<lambda>e. if e \<noteq> ErrNotFound then rest_err e
                   else rest_catch (get_repo_info c repo)
                     (\<lambda>info. if inf_default_branch info = [] then rest_err e
                        else probe c (rp @ ''/commits/'' @ path_escape (inf_default_branch info) @ ''/check-runs?per_page=1''))
                     (\<lambda>_. rest_err e))
        | PermActions \<Rightarrow> probe c (rp @ ''/actions/runs?per_page=1'')
        | PermPullRequests \<Rightarrow> probe c (rp @ ''/pulls?per_page=1&state=all'')
        | PermIssues \<Rightarrow> probe c (rp @ ''/issues?per_page=1&state=all'')))"

definition owner_of_wildcard :: "string \<Rightarrow> string option" where
  "owner_of_wildcard pattern =
     (case index_byte pattern CHR ''/'' of
        None \<Rightarrow> None
      | Some i \<Rightarrow>
          (let owner = take i pattern; rest = drop (Suc i) pattern in
           if rest \<noteq> ''*'' \<or> owner = [] \<or> contains owner ''*'' then None else Some owner))"

text \<open>\<open>SampleRepo\<close>; no sample is \<open>preflight.ErrNoSample\<close>.\<close>

definition sample_repo :: "rest_net \<Rightarrow> string \<Rightarrow> string \<Rightarrow> string \<Rightarrow> string option rest" where
  "sample_repo net base tok pattern =
     (case owner_of_wildcard pattern of
        None \<Rightarrow> rest_ret None
      | Some owner \<Rightarrow>
          rest_catch (list_owner_repos (rest_new net base tok) owner 1)
            (\<lambda>names. case names of [] \<Rightarrow> rest_ret None | n # _ \<Rightarrow> rest_ret (Some (n @ ''.git'')))
            (\<lambda>e. if e = ErrForbidden \<or> e = ErrNotFound then rest_ret None else rest_err e))"

section \<open>The legs\<close>

text \<open>\<open>ProberFor\<close>: nothing for a kind without a prober, else the REST base or its error.\<close>

definition prober_for :: "('r, 'k) machine \<Rightarrow> string \<Rightarrow> string \<Rightarrow> (go_error + string) option" where
  "prober_for os kind url = (if kind = ''github'' then Some (base_url (os_url os) url) else None)"

definition any_op_allowed :: "broker_yaml \<Rightarrow> string list \<Rightarrow> bool" where
  "any_op_allowed b ops \<longleftrightarrow> by_ops b = [] \<or> list_ex (\<lambda>o'. o' \<in> set (by_ops b)) ops"

definition to_preflight_profiles :: "profile_info list \<Rightarrow> pf_profile list" where
  "to_preflight_profiles ps =
     map (\<lambda>p. \<lparr>pp_name = pi_name p, pp_description = pi_description p, pp_repos = pi_repos p,
               pp_has_token = pi_has_token p\<rparr>) ps"

record leg =
  lg_options :: pf_options
  lg_base :: string
  lg_tokens :: "string \<rightharpoonup> string"
  lg_profiles :: "pf_profile list"

definition preflight_options :: "config \<Rightarrow> string \<Rightarrow> features \<Rightarrow> pf_options" where
  "preflight_options cfg label f =
     \<lparr>op_perms = permissions_for f, op_label = label, op_max_repos = preflight_max_repos (cf_preflight cfg),
      op_conc = preflight_concurrency (cf_preflight cfg)\<rparr>"

text \<open>One leg: the lines it logs at once and the run it starts, if any.\<close>

definition preflight_leg ::
  "('r, 'k) machine \<Rightarrow> config \<Rightarrow> string \<Rightarrow> upstream_yaml \<Rightarrow> vault option \<Rightarrow> features \<Rightarrow> string list \<times> leg list" where
  "preflight_leg os cfg label u store f =
     (case store of
        None \<Rightarrow> ([], [])
      | Some v \<Rightarrow>
          (case prober_for os (uy_kind u) (uy_url u) of
             None \<Rightarrow> ([], [])
           | Some (Inl e) \<Rightarrow> ([''git-proxy: preflight: '' @ leg_tag label @ ''skipped ('' @ e @ '')''], [])
           | Some (Inr base) \<Rightarrow>
               ([], [\<lparr>lg_options = preflight_options cfg label f, lg_base = base, lg_tokens = vt_tokens v,
                      lg_profiles = to_preflight_profiles (vt_profiles v)\<rparr>])))"

definition pr_ops :: "string list" where
  "pr_ops = [''pr.create'', ''pr.get'', ''pr.list'', ''pr.merge'', ''pr.comment'', ''pr.review'']"

definition issue_ops :: "string list" where
  "issue_ops = [''issue.create'', ''issue.get'', ''issue.list'', ''issue.comment'', ''issue.close'', ''issue.reopen'',
     ''issue.edit'', ''issue.label.add'', ''issue.label.remove'']"

definition scm_features :: "config \<Rightarrow> features" where
  "scm_features cfg =
     (let b = cf_broker cfg; on = by_listen b \<noteq> [] in
      \<lparr>ft_git = True, ft_prs = (on \<and> any_op_allowed b pr_ops), ft_status = (on \<and> any_op_allowed b [''ci.status'']),
       ft_log = (on \<and> by_allow_logs b \<and> any_op_allowed b [''ci.log'']), ft_issues = False\<rparr>)"

definition issue_features :: "config \<Rightarrow> features" where
  "issue_features cfg =
     \<lparr>ft_git = False, ft_prs = False, ft_status = False, ft_log = False,
      ft_issues = any_op_allowed (cf_broker cfg) issue_ops\<rparr>"

definition preflight_legs :: "('r, 'k) machine \<Rightarrow> config \<Rightarrow> ('r, 'k) system \<Rightarrow> string list \<times> leg list" where
  "preflight_legs os cfg sys =
     (if \<not> preflight_enabled (cf_preflight cfg) then ([], [])
      else
        (let (l1, s1) = preflight_leg os cfg [] (cf_upstream cfg) (sn_scm_vault sys) (scm_features cfg);
             (l2, s2) = (if by_listen (cf_broker cfg) = [] then ([], [])
                         else preflight_leg os cfg ''issue_upstream'' (cf_issue_upstream cfg) (sn_issue_vault sys)
                                (issue_features cfg))
         in (l1 @ l2, s1 @ s2)))"

section \<open>Facts\<close>

text \<open>A pattern is sampled exactly when the prober finds an owner in it.\<close>

lemma only_slash_none: "CHR ''/'' \<notin> set cs \<Longrightarrow> only_slash cs i seen = Inr seen"
  by (induction cs arbitrary: i) auto

lemma only_slash_second: "CHR ''/'' \<in> set cs \<Longrightarrow> only_slash cs i (Some j) = Inl ()"
  by (induction cs arbitrary: i) auto

lemma only_slash_first:
  "CHR ''/'' \<notin> set a \<Longrightarrow> only_slash (a @ CHR ''/'' # b) i None =
     (if CHR ''/'' \<in> set b then Inl () else Inr (Some (i + length a)))"
  by (induction a arbitrary: i) (auto simp: only_slash_none only_slash_second)

lemma has_wildcard_in: "has_wildcard p \<longleftrightarrow> CHR ''*'' \<in> set p"
  by (auto simp: has_wildcard_def list_ex_iff)

lemma owner_of_wildcard_iff: "owner_of_wildcard p \<noteq> None \<longleftrightarrow> is_owner_wildcard p"
proof (cases "CHR ''/'' \<in> set p")
  case True
  then obtain a b where p: "p = a @ CHR ''/'' # b" "CHR ''/'' \<notin> set a"
    by (meson split_list_first)
  have i: "index_byte p CHR ''/'' = Some (length a)" unfolding p(1) by (rule index_byte_append [OF p(2)])
  have "contains a ''*'' \<longleftrightarrow> CHR ''*'' \<in> set a" by (simp add: contains_single)
  then show ?thesis
    using p(2) by (auto simp: owner_of_wildcard_def is_owner_wildcard_def i [unfolded p(1)] only_slash_first p(1) has_wildcard_in Let_def)
next
  case False
  then have "index_byte p CHR ''/'' = None" by (simp add: index_byte_None)
  then show ?thesis using False by (simp add: owner_of_wildcard_def is_owner_wildcard_def only_slash_none)
qed

text \<open>The diagnostic looks at exactly the operations a broker of the configuration lets through.\<close>

lemma any_op_allowed_iff:
  "bk_ops br = set (by_ops b) \<Longrightarrow> any_op_allowed b ops \<longleftrightarrow> bk_ops br = {} \<or> (\<exists>x \<in> set ops. x \<in> bk_ops br)"
  by (auto simp: any_op_allowed_def list_ex_iff)

end
