(* ===== verification/Serving.thy ===== *)
theory Serving
  imports SshFront Prober
begin

text \<open>
  Serving: the connections of the SSH frontend (\<open>handleConn\<close> in \<open>internal/transport/ssh/frontend.go\<close>),
  how the \<open>Serve\<close> functions of the two frontends and the broker end, and \<open>serveTransports\<close>, the end of
  \<open>run\<close> and \<open>main\<close> of \<open>cmd/git-proxy/main.go\<close>. Accepting connections, the handshake and the HTTP server are the library's.
\<close>

section \<open>SSH connections\<close>

text \<open>A channel a client opens: its type, the error of accepting it, its input and its requests.\<close>

record channel_offer =
  co_type :: string
  co_accept :: "go_error option"
  co_stdin :: source
  co_output :: writer
  co_requests :: "ssh_request list"

datatype channel_end = Rejected | NotAccepted go_error | Served

definition open_session :: "writer \<Rightarrow> 'r world \<Rightarrow> 'r session" where
  "open_session out w =
     \<lparr>ss_world = w\<lparr>w_client := out\<rparr>, ss_stderr = [], ss_exit = [], ss_replies = [], ss_lists = []\<rparr>"

text \<open>The loop over the channels of a connection, one session after the other.\<close>

fun handle_channels ::
  "'r ssh_front \<Rightarrow> (string \<rightharpoonup> string) option \<Rightarrow> channel_offer list \<Rightarrow> 'r world \<Rightarrow>
   (channel_end list \<times> 'r world) option" where
  "handle_channels f perms [] w = Some ([], w)"
| "handle_channels f perms (c # cs) w =
     (if co_type c \<noteq> ''session'' then map_option (apfst ((#) Rejected)) (handle_channels f perms cs w)
      else (case co_accept c of
              Some e \<Rightarrow> map_option (apfst ((#) (NotAccepted e))) (handle_channels f perms cs w)
            | None \<Rightarrow>
                (case handle_session f perms (co_stdin c) (co_requests c) (open_session (co_output c) w) of
                   None \<Rightarrow> None
                 | Some s \<Rightarrow> map_option (apfst ((#) Served)) (handle_channels f perms cs (ss_world s)))))"

text \<open>A connection: without a handshake (an error of it, or a key the callback refuses) no channel is served.\<close>

definition handle_conn ::
  "('k \<Rightarrow> string) \<Rightarrow> 'r ssh_front \<Rightarrow> go_error + 'k \<Rightarrow> channel_offer list \<Rightarrow> 'r world \<Rightarrow>
   (channel_end list \<times> 'r world) option" where
  "handle_conn fp f handshake offers w =
     (case handshake of
        Inl e \<Rightarrow> Some ([], w)
      | Inr key \<Rightarrow>
          (case public_key_callback fp f key of
             Inl e \<Rightarrow> Some ([], w)
           | Inr perms \<Rightarrow> handle_channels f (Some perms) offers w))"

section \<open>The end of a transport\<close>

text \<open>What ends first: the context, with the result of the shutdown, or the server, with its error.\<close>

datatype serve_end = ContextDone "go_error option" | ServerEnded "go_error option"

definition http_serve :: "go_error \<Rightarrow> serve_end \<Rightarrow> go_error option" where
  "http_serve server_closed e =
     (case e of
        ContextDone shutdown \<Rightarrow> shutdown
      | ServerEnded None \<Rightarrow> None
      | ServerEnded (Some err) \<Rightarrow> if err \<noteq> server_closed then Some err else None)"

definition ssh_serve :: "(go_error \<Rightarrow> bool) \<Rightarrow> serve_end \<Rightarrow> go_error option" where
  "ssh_serve is_closed e =
     (case e of
        ContextDone _ \<Rightarrow> None
      | ServerEnded None \<Rightarrow> None
      | ServerEnded (Some err) \<Rightarrow> if \<not> is_closed err then Some err else None)"

section \<open>All transports\<close>

text \<open>
  \<open>serveTransports\<close> on the results of its transports in the order they arrive: the first error, and
  how many transports had ended when the context was cancelled (none when it was not).
\<close>

fun serve_loop :: "go_error option list \<Rightarrow> nat \<Rightarrow> go_error option \<Rightarrow> nat option \<Rightarrow> go_error option \<times> nat option" where
  "serve_loop [] i first stopped = (first, stopped)"
| "serve_loop (r # rs) i first stopped =
     (if r \<noteq> None \<and> first = None then serve_loop rs (Suc i) r (Some (Suc i)) else serve_loop rs (Suc i) first stopped)"

definition serve_transports :: "go_error option list \<Rightarrow> go_error option \<times> nat option" where
  "serve_transports ends = serve_loop ends 0 None None"

section \<open>The program\<close>

text \<open>
  The end of \<open>run\<close>: the sinks it has opened are closed, and a failure is only logged. A sink that was
  not opened is \<open>None\<close>, an opened one has the result of its \<open>Close\<close>.
\<close>

definition close_sinks :: "go_error option option \<Rightarrow> go_error option option \<Rightarrow> string list" where
  "close_sinks audit hook =
     (case audit of Some (Some e) \<Rightarrow> [''git-proxy: close audit sink: '' @ e] | _ \<Rightarrow> []) @
     (case hook of Some (Some e) \<Rightarrow> [''git-proxy: close alert webhook sink: '' @ e] | _ \<Rightarrow> [])"

text \<open>How a started system ends: the results of its transports as they arrive, and of closing its sinks.\<close>

record system_end =
  se_ends :: "go_error option list"
  se_audit :: "go_error option"
  se_hook :: "go_error option"

text \<open>
  \<open>run\<close> after the configuration is loaded. The log has what it writes itself; the lines of the
  diagnostic, which its goroutines write while the system serves, are those of \<open>Preflight\<close>.
\<close>

definition run_config ::
  "('r, 'k) machine \<Rightarrow> (('r, 'k) system \<Rightarrow> system_end) \<Rightarrow> config \<Rightarrow> string list \<times> go_error option" where
  "run_config os life cfg =
     (case startup os cfg [] of
        (l, Inl e) \<Rightarrow> (l, Some e)
      | (l, Inr sys) \<Rightarrow>
          (let x = life sys in
           (l @ fst (preflight_legs os cfg sys) @
              close_sinks (if cf_audit_file cfg \<noteq> [] then Some (se_audit x) else None)
                (if cf_webhook cfg \<noteq> [] then Some (se_hook x) else None),
            fst (serve_transports (se_ends x)))))"

definition run_program ::
  "('r, 'k) machine \<Rightarrow> (string \<Rightarrow> go_error + config) \<Rightarrow> (string \<Rightarrow> go_error + (string \<times> string)) \<Rightarrow>
   (('r, 'k) system \<Rightarrow> system_end) \<Rightarrow> string \<Rightarrow> string list \<times> go_error option" where
  "run_program os yaml split life path =
     (case load_config (os_read os) yaml split (os_url os) path of
        Inl e \<Rightarrow> ([], Some e)
      | Inr cfg \<Rightarrow> run_config os life cfg)"

text \<open>\<open>main\<close>: the log and the exit status.\<close>

definition main_program ::
  "('r, 'k) machine \<Rightarrow> (string \<Rightarrow> go_error + config) \<Rightarrow> (string \<Rightarrow> go_error + (string \<times> string)) \<Rightarrow>
   (('r, 'k) system \<Rightarrow> system_end) \<Rightarrow> string \<Rightarrow> string list \<times> nat" where
  "main_program os yaml split life path =
     (case run_program os yaml split life path of
        (l, Some e) \<Rightarrow> (l @ [''git-proxy: '' @ e], 1)
      | (l, None) \<Rightarrow> (l, 0))"

section \<open>Facts\<close>

text \<open>A connection whose key is not authorized changes nothing.\<close>

lemma conn_refused:
  "public_key_callback fp f key = Inl e \<Longrightarrow> handle_conn fp f (Inr key) offers w = Some ([], w)"
  by (simp add: handle_conn_def)

text \<open>The channels are served one after the other, so the first ones do not depend on later ones.\<close>

lemma handle_channels_append:
  "handle_channels f perms (cs @ ds) w =
   (case handle_channels f perms cs w of
      None \<Rightarrow> None
    | Some (es, w') \<Rightarrow> map_option (apfst ((@) es)) (handle_channels f perms ds w'))"
  by (induction f perms cs w rule: handle_channels.induct)
     (auto simp: option.map_comp option.map_ident comp_def apfst_def map_prod_def split_def id_def split: option.splits)

lemma serve_loop_stopped: "first \<noteq> None \<Longrightarrow> serve_loop rs i first stopped = (first, stopped)"
  by (induction rs arbitrary: i) auto

text \<open>The first error that arrives is the result, and it stops the others.\<close>

lemma serve_loop_first:
  "list_all (\<lambda>r. r = None) rs \<Longrightarrow> serve_loop (rs @ Some e # rs') i None s = (Some e, Some (i + Suc (length rs)))"
  by (induction rs arbitrary: i) (auto simp: serve_loop_stopped)

lemma serve_loop_clean: "fst (serve_loop rs i None s) = None \<longleftrightarrow> list_all (\<lambda>r. r = None) rs"
  by (induction rs arbitrary: i s) (auto simp: serve_loop_stopped)

text \<open>
  The program ends with status 0 exactly when its configuration loads, the startup succeeds and no
  transport ends with an error. Whatever closing the sinks says does not matter.
\<close>

lemma main_exit_zero:
  "snd (main_program os yaml split life path) = 0 \<longleftrightarrow>
   (\<exists>cfg l sys. load_config (os_read os) yaml split (os_url os) path = Inr cfg \<and>
      startup os cfg [] = (l, Inr sys) \<and> list_all (\<lambda>r. r = None) (se_ends (life sys)))"
  by (auto simp: main_program_def run_program_def run_config_def serve_transports_def serve_loop_clean Let_def
      split: sum.splits prod.splits option.splits)
     (metis fst_conv option.distinct(1) serve_loop_clean)+

end
