(* ===== verification/AuditFile.thy ===== *)
theory AuditFile
  imports Rest GoPath Port
begin

text \<open>
  The audit file sink (\<open>internal/audit/file/sink.go\<close>): \<open>New\<close>, \<open>Record\<close> and \<open>Close\<close> on the bytes of
  the file, with the line \<open>encoding/json\<close> writes for an event. The file system is a parameter: what
  \<open>MkdirAll\<close> and \<open>OpenFile\<close> answer, and how many bytes of a line a write has put into the file. The
  last section reads a file back, which is how the properties of the sink are stated.
\<close>

section \<open>JSON text\<close>

abbreviation newline :: char where "newline \<equiv> CHR 0x0A"

text \<open>\<open>encoding/json\<close> with its HTML escapes, one ASCII byte.\<close>

definition json_ascii :: "nat \<Rightarrow> string" where
  "json_ascii n =
     (if n = 0x22 \<or> n = 0x5C then [CHR 0x5C, char_of n]
      else if n = 8 then [CHR 0x5C, CHR ''b'']
      else if n = 12 then [CHR 0x5C, CHR ''f'']
      else if n = 10 then [CHR 0x5C, CHR ''n'']
      else if n = 13 then [CHR 0x5C, CHR ''r'']
      else if n = 9 then [CHR 0x5C, CHR ''t'']
      else if n < 0x20 \<or> n = 0x3C \<or> n = 0x3E \<or> n = 0x26
        then [CHR 0x5C, CHR ''u'', CHR ''0'', CHR ''0'', hex_digit_of (n div 16), hex_digit_of (n mod 16)]
      else [char_of n])"

lemma rune_shorter: "(r, w) = decode_rune (c # s) \<Longrightarrow> Suc (length s) - w < Suc (length s)"
  using decode_rune_width [of "c # s"] by (cases w) (auto dest: sym)

text \<open>Bytes that are not UTF-8 are written as U+FFFD, and the two line separators as escapes.\<close>

function json_escape :: "string \<Rightarrow> string" where
  "json_escape [] = []"
| "json_escape (c # s) =
     (if of_char c < (0x80::nat) then json_ascii (of_char c) @ json_escape s
      else
        (let (r, w) = decode_rune (c # s) in
         if r = 0xFFFD \<and> w = 1 then [CHR 0x5C] @ ''ufffd'' @ json_escape s
         else if r = 0x2028 \<or> r = 0x2029
           then [CHR 0x5C] @ ''u202'' @ [hex_digit_of (r mod 16)] @ json_escape (drop w (c # s))
         else take w (c # s) @ json_escape (drop w (c # s))))"
  by pat_completeness auto
termination
  by (relation "measure length") (auto intro: rune_shorter)

declare json_escape.simps(2) [simp del]

definition json_quote :: "string \<Rightarrow> string" where
  "json_quote s = CHR 0x22 # json_escape s @ [CHR 0x22]"

fun json_text :: "json \<Rightarrow> string" and items_text :: "json list \<Rightarrow> string"
  and members_text :: "(string \<times> json) list \<Rightarrow> string" where
  "json_text JNull = ''null''"
| "json_text (JBool b) = (if b then ''true'' else ''false'')"
| "json_text (JNum i) = show_int i"
| "json_text (JStr s) = json_quote s"
| "json_text (JList js) = CHR ''['' # items_text js @ '']''"
| "json_text (JObj fs) = CHR ''{'' # members_text fs @ ''}''"
| "items_text [] = []"
| "items_text [j] = json_text j"
| "items_text (j # k # js) = json_text j @ CHR '','' # items_text (k # js)"
| "members_text [] = []"
| "members_text [(k, v)] = json_quote k @ CHR '':'' # json_text v"
| "members_text ((k, v) # f # fs) = json_quote k @ CHR '':'' # json_text v @ CHR '','' # members_text (f # fs)"

section \<open>Events\<close>

text \<open>
  The JSON object of an event, its fields in the order of the struct. A slice without elements is
  null or an empty list, according to whether it is nil, which the events of the model do not keep:
  \<open>nil\<close> says it for each field.
\<close>

definition slice_json :: "(string \<Rightarrow> bool) \<Rightarrow> string \<Rightarrow> ('a \<Rightarrow> json) \<Rightarrow> 'a list \<Rightarrow> json" where
  "slice_json nil name f xs = (if xs = [] \<and> nil name then JNull else JList (map f xs))"

definition ref_json :: "audit_ref \<Rightarrow> json" where
  "ref_json r =
     JObj [(''Ref'', JStr (ar_ref r)), (''Old'', JStr (ar_old r)), (''New'', JStr (ar_new r)),
           (''Force'', JBool (ar_force r))]"

definition event_json :: "(string \<Rightarrow> bool) \<Rightarrow> string \<Rightarrow> audit_event \<Rightarrow> json" where
  "event_json nil t e =
     JObj [(''Time'', JStr t), (''Transport'', JStr (ae_transport e)), (''Agent'', JStr (ae_agent e)),
           (''Repo'', JStr (ae_repo e)), (''Service'', JStr (ae_service e)), (''Verdict'', JStr (ae_verdict e)),
           (''Reasons'', slice_json nil ''Reasons'' JStr (ae_reasons e)),
           (''Refs'', slice_json nil ''Refs'' ref_json (ae_refs e)),
           (''DeniedPaths'', slice_json nil ''DeniedPaths'' JStr (ae_denied_paths e)),
           (''DeniedOIDs'', slice_json nil ''DeniedOIDs'' JStr (ae_denied_oids e)),
           (''DryRun'', JBool (ae_dry_run e))]"

section \<open>The sink\<close>

record sink =
  sk_path :: string
  sk_data :: string
  sk_open :: bool

text \<open>\<open>dir\<close> is \<open>filepath.Dir\<close>; an opened file has the bytes it had before, as it is never truncated.\<close>

definition sink_new ::
  "(string \<Rightarrow> string) \<Rightarrow> (string \<Rightarrow> go_error option) \<Rightarrow> (string \<Rightarrow> go_error + string) \<Rightarrow> string \<Rightarrow> go_error + sink" where
  "sink_new dir mkdir_all open_file path =
     (case (if dir path \<noteq> [] \<and> dir path \<noteq> ''.'' then mkdir_all (dir path) else None) of
        Some e \<Rightarrow> Inl (''audit: create parent dirs: '' @ e)
      | None \<Rightarrow>
          (case open_file path of
             Inl e \<Rightarrow> Inl (''audit: open '' @ path @ '': '' @ e)
           | Inr data \<Rightarrow> Inr \<lparr>sk_path = path, sk_data = data, sk_open = True\<rparr>))"

text \<open>How a write to the file ends: all bytes of the line, or the first ones and an error.\<close>

datatype write_end = WroteAll | WroteFirst nat go_error

definition file_write :: "write_end \<Rightarrow> string \<Rightarrow> sink \<Rightarrow> sink \<times> go_error option" where
  "file_write end line s =
     (if \<not> sk_open s then (s, Some (''write '' @ sk_path s @ '': file already closed''))
      else (case end of
              WroteAll \<Rightarrow> (s\<lparr>sk_data := sk_data s @ line\<rparr>, None)
            | WroteFirst n e \<Rightarrow> (s\<lparr>sk_data := sk_data s @ take n line\<rparr>, Some e)))"

text \<open>
  A call of \<open>Record\<close>: the event, its time stamp if it has one, the clock, and the end of its write. A
  time stamp is its JSON text, or the error of \<open>MarshalJSON\<close>.
\<close>

record sink_call =
  ca_event :: audit_event
  ca_time :: "(go_error + string) option"
  ca_now :: "go_error + string"
  ca_end :: write_end

definition call_time :: "sink_call \<Rightarrow> go_error + string" where
  "call_time c = (case ca_time c of None \<Rightarrow> ca_now c | Some t \<Rightarrow> t)"

definition sink_record :: "(string \<Rightarrow> bool) \<Rightarrow> sink_call \<Rightarrow> sink \<Rightarrow> sink \<times> go_error option" where
  "sink_record nil c s =
     (case call_time c of
        Inl e \<Rightarrow> (s, Some (''audit: marshal event: '' @ e))
      | Inr t \<Rightarrow>
          (let line = json_text (event_json nil t (ca_event c)) @ [newline] in
           case file_write (ca_end c) line s of
             (s', Some e) \<Rightarrow> (s', Some (''audit: write: '' @ e))
           | (s', None) \<Rightarrow> (s', None)))"

definition sink_close :: "go_error option \<Rightarrow> sink option \<Rightarrow> sink option \<times> go_error option" where
  "sink_close res s =
     (case s of
        None \<Rightarrow> (None, None)
      | Some k \<Rightarrow>
          if \<not> sk_open k then (s, Some (''close '' @ sk_path k @ '': file already closed''))
          else (Some (k\<lparr>sk_open := False\<rparr>), res))"

text \<open>Calls in the order the mutex admits them, with their errors.\<close>

fun sink_run :: "(string \<Rightarrow> bool) \<Rightarrow> sink_call list \<Rightarrow> sink \<Rightarrow> sink \<times> go_error option list" where
  "sink_run nil [] s = (s, [])"
| "sink_run nil (c # cs) s =
     (let (s1, e) = sink_record nil c s; (s2, es) = sink_run nil cs s1 in (s2, e # es))"

end
