(* ===== verification/AuditProps.thy ===== *)
theory AuditProps
  imports AuditFile
begin

text \<open>
  The audit file read back: a reader of JSON text that inverts the encoder (up to the coercion of
  strings to UTF-8), the log as the values of its lines, and the property of the sink that rests on it.
\<close>

section \<open>Reading strings\<close>

definition hex_val :: "char \<Rightarrow> nat option" where
  "hex_val c =
     (let n = (of_char c :: nat) in
      if 48 \<le> n \<and> n \<le> 57 then Some (n - 48) else if 97 \<le> n \<and> n \<le> 102 then Some (n - 87) else None)"

definition hex4 :: "char \<Rightarrow> char \<Rightarrow> char \<Rightarrow> char \<Rightarrow> nat option" where
  "hex4 a b c d =
     (case (hex_val a, hex_val b, hex_val c, hex_val d) of
        (Some x, Some y, Some z, Some u) \<Rightarrow> Some (4096 * x + 256 * y + 16 * z + u)
      | _ \<Rightarrow> None)"

text \<open>UTF-8 of the runes below U+10000.\<close>

definition encode_rune :: "nat \<Rightarrow> string" where
  "encode_rune r =
     (if r < 0x80 then [char_of r]
      else if r < 0x800 then [char_of (0xC0 + r div 64), char_of (0x80 + r mod 64)]
      else [char_of (0xE0 + r div 4096), char_of (0x80 + r div 64 mod 64), char_of (0x80 + r mod 64)])"

definition simple_escape :: "char \<Rightarrow> char option" where
  "simple_escape e =
     (if e = CHR 0x22 \<or> e = CHR 0x5C then Some e
      else if e = CHR ''b'' then Some (char_of (8::nat)) else if e = CHR ''f'' then Some (char_of (12::nat))
      else if e = CHR ''n'' then Some newline else if e = CHR ''r'' then Some (char_of (13::nat))
      else if e = CHR ''t'' then Some (char_of (9::nat)) else None)"

text \<open>The text of a string up to its closing quote.\<close>

fun json_unescape :: "string \<Rightarrow> (string \<times> string) option" where
  "json_unescape [] = None"
| "json_unescape (c # s) =
     (if c = CHR 0x22 then Some ([], s)
      else if c = CHR 0x5C then
        (case s of
           [] \<Rightarrow> None
         | e # s1 \<Rightarrow>
             if e = CHR ''u'' then
               (case s1 of
                  x # y # z # u # s2 \<Rightarrow>
                    (case hex4 x y z u of
                       None \<Rightarrow> None
                     | Some r \<Rightarrow> map_option (apfst ((@) (encode_rune r))) (json_unescape s2))
                | _ \<Rightarrow> None)
             else
               (case simple_escape e of
                  None \<Rightarrow> None
                | Some d \<Rightarrow> map_option (apfst ((#) d)) (json_unescape s1)))
      else if of_char c < (0x20::nat) then None
      else map_option (apfst ((#) c)) (json_unescape s))"

text \<open>A string with every byte that is not UTF-8 replaced by U+FFFD.\<close>

function to_utf8 :: "string \<Rightarrow> string" where
  "to_utf8 [] = []"
| "to_utf8 (c # s) =
     (if of_char c < (0x80::nat) then c # to_utf8 s
      else
        (let (r, w) = decode_rune (c # s) in
         if r = 0xFFFD \<and> w = 1 then encode_rune 0xFFFD @ to_utf8 s
         else take w (c # s) @ to_utf8 (drop w (c # s))))"
  by pat_completeness auto
termination
  by (relation "measure length") (auto intro: rune_shorter)

declare to_utf8.simps(2) [simp del] json_unescape.simps(2) [simp del]

lemma hex_val_digit: "d < 16 \<Longrightarrow> hex_val (hex_digit_of d) = Some d"
  by (auto simp: hex_val_def hex_digit_of_def Let_def)

lemma hex4_digits:
  "a < 16 \<Longrightarrow> b < 16 \<Longrightarrow> hex4 (CHR ''0'') (CHR ''0'') (hex_digit_of a) (hex_digit_of b) = Some (16 * a + b)"
  by (simp add: hex4_def hex_val_digit) (simp add: hex_val_def)

lemma of_char_eq: "(c :: char) = d \<longleftrightarrow> (of_char c :: nat) = of_char d"
  by simp

lemma char_lits: "char_of (0x22::nat) = CHR 0x22" "char_of (0x5C::nat) = CHR 0x5C" "char_of (10::nat) = newline"
  by (simp_all add: of_char_eq)

lemma unescape_plain:
  "c \<noteq> CHR 0x22 \<Longrightarrow> c \<noteq> CHR 0x5C \<Longrightarrow> 0x20 \<le> (of_char c :: nat) \<Longrightarrow>
   json_unescape (c # t) = map_option (apfst ((#) c)) (json_unescape t)"
  by (simp add: json_unescape.simps(2))

lemma unescape_unicode:
  "hex4 x y z u = Some r \<Longrightarrow>
   json_unescape (CHR 0x5C # CHR ''u'' # x # y # z # u # t) = map_option (apfst ((@) (encode_rune r))) (json_unescape t)"
  by (simp add: json_unescape.simps(2))

lemma unescape_simple:
  "e \<noteq> CHR ''u'' \<Longrightarrow> simple_escape e = Some d \<Longrightarrow>
   json_unescape (CHR 0x5C # e # t) = map_option (apfst ((#) d)) (json_unescape t)"
  by (simp add: json_unescape.simps(2))

lemma unescape_ascii:
  assumes "n < 0x80"
  shows "json_unescape (json_ascii n @ t) = map_option (apfst ((#) (char_of n))) (json_unescape t)"
proof -
  consider (simple) "n \<in> {0x22, 0x5C, 8, 12, 10, 13, 9}"
    | (unicode) "n \<notin> {0x22, 0x5C, 8, 12, 10, 13, 9}" "n < 0x20 \<or> n = 0x3C \<or> n = 0x3E \<or> n = 0x26"
    | (plain) "n \<notin> {0x22, 0x5C, 8, 12, 10, 13, 9}" "\<not> (n < 0x20 \<or> n = 0x3C \<or> n = 0x3E \<or> n = 0x26)"
    by blast
  then show ?thesis
  proof cases
    case simple
    then show ?thesis by (auto simp: json_ascii_def unescape_simple simple_escape_def char_lits)
  next
    case unicode
    moreover have "hex4 (CHR ''0'') (CHR ''0'') (hex_digit_of (n div 16)) (hex_digit_of (n mod 16)) = Some n"
      using assms hex4_digits [of "n div 16" "n mod 16"] by simp
    ultimately show ?thesis using assms
      by (simp add: json_ascii_def unescape_unicode encode_rune_def fun_eq_iff comp_def del: char_of_eq_iff)
        (auto simp: unescape_unicode encode_rune_def apfst_def map_prod_def)
  next
    case plain
    moreover have "char_of n \<noteq> CHR 0x22" "char_of n \<noteq> CHR 0x5C" "0x20 \<le> (of_char (char_of n :: char) :: nat)"
      using plain assms by (auto simp: of_char_eq)
    ultimately show ?thesis by (simp add: json_ascii_def unescape_plain)
  qed
qed

lemma unescape_bytes:
  "\<forall>c \<in> set xs. 0x80 \<le> (of_char c :: nat) \<Longrightarrow>
   json_unescape (xs @ t) = map_option (apfst ((@) xs)) (json_unescape t)"
proof (induction xs)
  case Nil
  show ?case by (simp add: apfst_def map_prod_def option.map_ident)
next
  case (Cons c xs)
  then have "0x80 \<le> (of_char c :: nat)" by simp
  then have "c \<noteq> CHR 0x22" "c \<noteq> CHR 0x5C" "0x20 \<le> (of_char c :: nat)" by auto
  then show ?case using Cons
    by (simp add: unescape_plain option.map_comp) (simp add: comp_def apfst_def map_prod_def split_def)
qed

text \<open>A rune that is no error takes its bytes from 0x80 on.\<close>

lemma decoded_shape:
  assumes "decode_rune (c # s) = (r, w)" and "0x80 \<le> (of_char c :: nat)" and "\<not> (r = 0xFFFD \<and> w = 1)"
  obtains (two) b t where "s = b # t" "w = 2" "cont_byte b 0x80 0xBF" "(of_char c :: nat) \<le> 0xDF"
      "r = (of_char c - 0xC0) * 64 + (of_char b - 0x80)"
    | (three) b d t where "s = b # d # t" "w = 3" "cont_byte b 0x80 0xBF" "cont_byte d 0x80 0xBF"
      "0xE0 \<le> (of_char c :: nat)" "(of_char c :: nat) \<le> 0xEF" "of_char c = (0xE0 :: nat) \<longrightarrow> 0xA0 \<le> (of_char b :: nat)"
      "r = (of_char c - 0xE0) * 4096 + (of_char b - 0x80) * 64 + (of_char d - 0x80)"
    | (four) b d e t where "s = b # d # e # t" "w = 4" "cont_byte b 0x80 0xBF" "cont_byte d 0x80 0xBF"
      "cont_byte e 0x80 0xBF" "0xF0 \<le> (of_char c :: nat)" "of_char c = (0xF0 :: nat) \<longrightarrow> 0x90 \<le> (of_char b :: nat)"
      "r = (of_char c - 0xF0) * 262144 + (of_char b - 0x80) * 4096 + (of_char d - 0x80) * 64 + (of_char e - 0x80)"
proof -
  let ?n = "of_char c :: nat"
  consider (c2) "0xC2 \<le> ?n" "?n \<le> 0xDF" | (c3) "0xE0 \<le> ?n" "?n \<le> 0xEF" | (c4) "0xF0 \<le> ?n" "?n \<le> 0xF4"
    | (bad) "?n < 0xC2 \<or> 0xF4 < ?n" by linarith
  then show ?thesis
  proof cases
    case c2
    with assms obtain b t where s: "s = b # t" "cont_byte b 0x80 0xBF" "(r, w) = ((?n - 0xC0) * 64 + (of_char b - 0x80), 2)"
      by (cases s) (auto simp: decode_rune_def Let_def rune_error_def split: if_splits)
    then show ?thesis using two [OF s(1) _ s(2)] c2 by simp
  next
    case c3
    with assms obtain b d t where s: "s = b # d # t"
        "cont_byte b (if ?n = 0xE0 then 0xA0 else 0x80) (if ?n = 0xED then 0x9F else 0xBF)" "cont_byte d 0x80 0xBF"
        "(r, w) = ((?n - 0xE0) * 4096 + (of_char b - 0x80) * 64 + (of_char d - 0x80), 3)"
      by (cases s; cases "tl s") (simp_all add: decode_rune_def Let_def rune_error_def split: if_split_asm)
    then have "cont_byte b 0x80 0xBF" "?n = 0xE0 \<longrightarrow> 0xA0 \<le> (of_char b :: nat)"
      by (auto simp: cont_byte_def split: if_split_asm)
    then show ?thesis using three [OF s(1) _ _ s(3)] s(4) c3 by simp
  next
    case c4
    with assms obtain b d e t where s: "s = b # d # e # t"
        "cont_byte b (if ?n = 0xF0 then 0x90 else 0x80) (if ?n = 0xF4 then 0x8F else 0xBF)" "cont_byte d 0x80 0xBF"
        "cont_byte e 0x80 0xBF"
        "(r, w) = ((?n - 0xF0) * 262144 + (of_char b - 0x80) * 4096 + (of_char d - 0x80) * 64 + (of_char e - 0x80), 4)"
      by (cases s; cases "tl s"; cases "tl (tl s)")
        (simp_all add: decode_rune_def Let_def rune_error_def split: if_split_asm)
    then have "cont_byte b 0x80 0xBF" "?n = 0xF0 \<longrightarrow> 0x90 \<le> (of_char b :: nat)"
      by (auto simp: cont_byte_def split: if_split_asm)
    then show ?thesis using four [OF s(1) _ _ s(3,4)] s(5) c4 by simp
  next
    case bad
    then have False using assms by (auto simp: decode_rune_def Let_def rune_error_def)
    then show ?thesis ..
  qed
qed

lemma decoded_bytes:
  assumes "decode_rune (c # s) = (r, w)" and "0x80 \<le> (of_char c :: nat)" and "\<not> (r = 0xFFFD \<and> w = 1)"
  shows "\<forall>b \<in> set (take w (c # s)). 0x80 \<le> (of_char b :: nat)"
  by (cases rule: decoded_shape [OF assms]) (use assms(2) in \<open>simp_all add: cont_byte_def\<close>)

text \<open>The two separators are decoded from their own bytes.\<close>

lemma decoded_separator:
  assumes "decode_rune (c # s) = (r, w)" and "r = 0x2028 \<or> r = 0x2029" and "0x80 \<le> (of_char c :: nat)"
  shows "take w (c # s) = encode_rune r"
proof -
  have "\<not> (r = 0xFFFD \<and> w = 1)" using assms(2) by auto
  from assms(1,3) this show ?thesis
  proof (cases rule: decoded_shape)
    case (two b t)
    then have "r \<le> 31 * 64 + 63" by (auto simp: cont_byte_def)
    then show ?thesis using assms(2) by auto
  next
    case (three b d t)
    define x y z where "x = of_char c - (0xE0 :: nat)" and "y = of_char b - (0x80 :: nat)" and "z = of_char d - (0x80 :: nat)"
    have "x < 16" "y < 64" "z < 64" and r: "r = x * 4096 + y * 64 + z"
      using three by (auto simp: cont_byte_def x_def y_def z_def)
    moreover from this have x: "x = 2" using assms(2) by linarith
    moreover from calculation have y: "y = 0" using assms(2) by linarith
    ultimately have "z = r - 0x2000" by simp
    note this x y
    then have "of_char c = (0xE2 :: nat)" "of_char b = (0x80 :: nat)" "of_char d = 0x80 + (r - 0x2000)"
      using three(3,4,5) unfolding cont_byte_def x_def y_def z_def by linarith+
    then have "c = char_of (0xE2 :: nat)" "b = char_of (0x80 :: nat)" "d = char_of (0x80 + (r - 0x2000))"
      by (metis char_of_char)+
    then show ?thesis using three(1,2) assms(2) by (auto simp: encode_rune_def)
  next
    case (four b d e t)
    then have "0x10000 \<le> r" by (cases "of_char c = (0xF0 :: nat)") (auto simp: cont_byte_def)
    then show ?thesis using assms(2) by auto
  qed
qed

lemma unescape_escape: "json_unescape (json_escape s @ CHR 0x22 # t) = Some (to_utf8 s, t)"
proof (induction s rule: to_utf8.induct)
  case 1
  show ?case by (simp add: json_unescape.simps(2))
next
  case (2 c s)
  show ?case
  proof (cases "of_char c < (0x80 :: nat)")
    case True
    then show ?thesis using 2(1) by (simp add: json_escape.simps(2) to_utf8.simps(2) unescape_ascii)
  next
    case high: False
    obtain r w where d: "decode_rune (c # s) = (r, w)" by fastforce
    show ?thesis
    proof (cases "r = 0xFFFD \<and> w = 1")
      case True
      have "hex4 (CHR ''f'') (CHR ''f'') (CHR ''f'') (CHR ''d'') = Some 0xFFFD" by (simp add: hex4_def hex_val_def)
      then show ?thesis using 2(2) [OF high d [symmetric]] True high d
        by (simp add: json_escape.simps(2) to_utf8.simps(2) unescape_unicode)
    next
      case False
      note IH = 2(3) [OF high d [symmetric] refl False]
      show ?thesis
      proof (cases "r = 0x2028 \<or> r = 0x2029")
        case True
        then have "hex4 (CHR ''2'') (CHR ''0'') (CHR ''2'') (hex_digit_of (r mod 16)) = Some r"
          by (auto simp: hex4_def hex_val_digit) (simp_all add: hex_val_def)
        moreover have "take w (c # s) = encode_rune r" using decoded_separator [OF d True] high by simp
        ultimately show ?thesis using IH True False high d
          by (auto simp: json_escape.simps(2) to_utf8.simps(2) unescape_unicode)
      next
        case no: False
        have "\<forall>b \<in> set (take w (c # s)). 0x80 \<le> (of_char b :: nat)" using decoded_bytes [OF d _ False] high by simp
        then show ?thesis using IH no False high d
          by (auto simp: json_escape.simps(2) to_utf8.simps(2) unescape_bytes)
      qed
    qed
  qed
qed

text \<open>No byte of the text of a string, and so of a value, is a newline.\<close>

lemma escape_no_newline: "newline \<notin> set (json_escape s)"
proof (induction s rule: to_utf8.induct)
  case (2 c s)
  have digit: "hex_digit_of d \<noteq> newline" if "d < 16" for d
    using that by (auto simp: of_char_eq hex_digit_of_def)
  show ?case
  proof (cases "of_char c < (0x80 :: nat)")
    case True
    have "newline \<notin> set (json_ascii n)" if "n < 0x80" for n
      using that digit [of "n div 16"] digit [of "n mod 16"] by (auto simp: json_ascii_def of_char_eq)
    then show ?thesis using 2(1) True by (simp add: json_escape.simps(2))
  next
    case high: False
    obtain r w where d: "decode_rune (c # s) = (r, w)" by fastforce
    show ?thesis
    proof (cases "r = 0xFFFD \<and> w = 1")
      case True
      then show ?thesis using 2(2) [OF high d [symmetric]] high d by (simp add: json_escape.simps(2))
    next
      case False
      have "\<forall>b \<in> set (take w (c # s)). 0x80 \<le> (of_char b :: nat)" using decoded_bytes [OF d _ False] high by simp
      then have "newline \<notin> set (take w (c # s))" by auto
      then show ?thesis using 2(3) [OF high d [symmetric] refl False] False high d digit [of "r mod 16"]
        by (auto simp: json_escape.simps(2))
    qed
  qed
qed simp

lemma quote_no_newline: "newline \<notin> set (json_quote s)"
  using escape_no_newline [of s] by (simp add: json_quote_def)

section \<open>Reading values\<close>

text \<open>
  A recursive descent over the text of a value without numbers, which events do not have, and without
  blanks, which the encoder does not write. Every call consumes at least one byte, so the length of
  the text is enough fuel.
\<close>

fun json_read :: "nat \<Rightarrow> string \<Rightarrow> (json \<times> string) option"
  and items_read :: "nat \<Rightarrow> string \<Rightarrow> (json list \<times> string) option"
  and members_read :: "nat \<Rightarrow> string \<Rightarrow> ((string \<times> json) list \<times> string) option" where
  "json_read 0 s = None"
| "json_read (Suc n) s =
     (case s of
        [] \<Rightarrow> None
      | c # t \<Rightarrow>
          if c = CHR 0x22 then map_option (apfst JStr) (json_unescape t)
          else if c = CHR ''['' then
            (if has_prefix t '']'' then Some (JList [], tl t) else map_option (apfst JList) (items_read n t))
          else if c = CHR ''{'' then
            (if has_prefix t ''}'' then Some (JObj [], tl t) else map_option (apfst JObj) (members_read n t))
          else if has_prefix s ''null'' then Some (JNull, drop 4 s)
          else if has_prefix s ''true'' then Some (JBool True, drop 4 s)
          else if has_prefix s ''false'' then Some (JBool False, drop 5 s)
          else None)"
| "items_read 0 s = None"
| "items_read (Suc n) s =
     (case json_read n s of
        Some (j, c # t) \<Rightarrow>
          if c = CHR '','' then map_option (apfst ((#) j)) (items_read n t)
          else if c = CHR '']'' then Some ([j], t) else None
      | _ \<Rightarrow> None)"
| "members_read 0 s = None"
| "members_read (Suc n) s =
     (case s of
        q # s1 \<Rightarrow>
          if q \<noteq> CHR 0x22 then None
          else (case json_unescape s1 of
                  Some (k, c # s2) \<Rightarrow>
                    if c \<noteq> CHR '':'' then None
                    else (case json_read n s2 of
                            Some (j, d # t) \<Rightarrow>
                              if d = CHR '','' then map_option (apfst ((#) (k, j))) (members_read n t)
                              else if d = CHR ''}'' then Some ([(k, j)], t) else None
                          | _ \<Rightarrow> None)
                | _ \<Rightarrow> None)
      | [] \<Rightarrow> None)"

fun plain_json :: "json \<Rightarrow> bool" where
  "plain_json (JNum i) = False"
| "plain_json (JList js) = list_all plain_json js"
| "plain_json (JObj fs) = list_all (\<lambda>(k, v). plain_json v) fs"
| "plain_json j = True"

fun utf8_json :: "json \<Rightarrow> json" where
  "utf8_json (JStr s) = JStr (to_utf8 s)"
| "utf8_json (JList js) = JList (map utf8_json js)"
| "utf8_json (JObj fs) = JObj (map (\<lambda>(k, v). (to_utf8 k, utf8_json v)) fs)"
| "utf8_json j = j"

lemma json_text_start:
  "plain_json j \<Longrightarrow> \<exists>c t. json_text j = c # t \<and> c \<noteq> CHR '']'' \<and> c \<noteq> CHR ''}''"
  by (cases j) (auto simp: json_quote_def)

lemma read_quote:
  "json_read (Suc n) (json_quote s @ t) = Some (JStr (to_utf8 s), t)"
  by (simp add: json_quote_def unescape_escape)

lemma read_text:
  "plain_json j \<Longrightarrow> length (json_text j) \<le> n \<Longrightarrow> json_read n (json_text j @ t) = Some (utf8_json j, t)"
  "list_all plain_json js \<Longrightarrow> js \<noteq> [] \<Longrightarrow> length (items_text js) < n \<Longrightarrow>
   items_read n (items_text js @ CHR '']'' # t) = Some (map utf8_json js, t)"
  "list_all (\<lambda>(k, v). plain_json v) fs \<Longrightarrow> fs \<noteq> [] \<Longrightarrow> length (members_text fs) < n \<Longrightarrow>
   members_read n (members_text fs @ CHR ''}'' # t) = Some (map (\<lambda>(k, v). (to_utf8 k, utf8_json v)) fs, t)"
proof (induction j and js and fs arbitrary: n t and n t and n t rule: json_text_items_text_members_text.induct)
  case 1
  then show ?case by (cases n) (auto simp: has_prefix_def)
next
  case (2 b)
  then show ?case by (cases n; cases b) (simp_all add: has_prefix_def)
next
  case (4 s)
  then show ?case by (cases n) (auto simp: json_quote_def unescape_escape)
next
  case (5 js)
  then obtain m where n: "n = Suc m" by (cases n) auto
  show ?case
  proof (cases js)
    case Nil
    then show ?thesis by (simp add: n has_prefix_def)
  next
    case (Cons j ks)
    then obtain c u where "items_text js = c # u" "c \<noteq> CHR '']''"
      using 5(2) json_text_start [of j] by (cases ks) auto
    then show ?thesis using 5 Cons by (simp add: n has_prefix_def)
  qed
next
  case (6 fs)
  then obtain m where n: "n = Suc m" by (cases n) auto
  show ?case
  proof (cases fs)
    case Nil
    then show ?thesis by (simp add: n has_prefix_def)
  next
    case (Cons f gs)
    then obtain u where "members_text fs = CHR 0x22 # u"
      by (cases f; cases gs) (auto simp: json_quote_def)
    then show ?thesis using 6 Cons by (simp add: n has_prefix_def)
  qed
next
  case (8 j)
  then obtain m where "n = Suc m" "length (json_text j) \<le> m" by (cases n) auto
  then show ?case using 8 by simp
next
  case (9 j k js)
  then obtain m where "n = Suc m" "length (json_text j) \<le> m" "length (items_text (k # js)) < m" by (cases n) auto
  then show ?case using 9 by simp
next
  case (11 k v)
  then obtain m where "n = Suc m" "length (json_text v) \<le> m" by (cases n) (auto simp: json_quote_def)
  then show ?case using 11 by (simp add: json_quote_def unescape_escape)
next
  case (12 k v f fs)
  then obtain m where "n = Suc m" "length (json_text v) \<le> m" "length (members_text (f # fs)) < m"
    by (cases n) (auto simp: json_quote_def)
  then show ?case using 12 by (simp add: json_quote_def unescape_escape)
qed simp_all

lemma text_no_newline:
  "plain_json j \<Longrightarrow> newline \<notin> set (json_text j)"
  "list_all plain_json js \<Longrightarrow> newline \<notin> set (items_text js)"
  "list_all (\<lambda>(k, v). plain_json v) fs \<Longrightarrow> newline \<notin> set (members_text fs)"
  by (induction j and js and fs rule: json_text_items_text_members_text.induct) (auto simp: quote_no_newline)

section \<open>Reading a log\<close>

text \<open>The lines of a file that a newline ends; what follows the last newline is no line.\<close>

definition log_lines_of :: "string \<Rightarrow> string list" where
  "log_lines_of data = butlast (split_on newline data)"

definition read_line :: "string \<Rightarrow> json option" where
  "read_line l = (case json_read (length l) l of Some (j, []) \<Rightarrow> Some j | _ \<Rightarrow> None)"

definition read_log :: "string \<Rightarrow> json option list" where
  "read_log data = map read_line (log_lines_of data)"

text \<open>The type of a line: the fields of an audit event, each with a value of its type.\<close>

fun is_text :: "json \<Rightarrow> bool" where "is_text (JStr s) = True" | "is_text j = False"
fun is_flag :: "json \<Rightarrow> bool" where "is_flag (JBool b) = True" | "is_flag j = False"

definition has_fields :: "(string \<times> (json \<Rightarrow> bool)) list \<Rightarrow> json \<Rightarrow> bool" where
  "has_fields spec j =
     (case j of JObj fs \<Rightarrow> list_all2 (\<lambda>(k, p) (k', v). k = k' \<and> p v) spec fs | _ \<Rightarrow> False)"

definition is_slice :: "(json \<Rightarrow> bool) \<Rightarrow> json \<Rightarrow> bool" where
  "is_slice p j = (case j of JNull \<Rightarrow> True | JList js \<Rightarrow> list_all p js | _ \<Rightarrow> False)"

definition is_event :: "json \<Rightarrow> bool" where
  "is_event =
     has_fields
       [(''Time'', is_text), (''Transport'', is_text), (''Agent'', is_text), (''Repo'', is_text),
        (''Service'', is_text), (''Verdict'', is_text), (''Reasons'', is_slice is_text),
        (''Refs'', is_slice (has_fields [(''Ref'', is_text), (''Old'', is_text), (''New'', is_text), (''Force'', is_flag)])),
        (''DeniedPaths'', is_slice is_text), (''DeniedOIDs'', is_slice is_text), (''DryRun'', is_flag)]"

definition log_typed :: "string \<Rightarrow> bool" where
  "log_typed data \<longleftrightarrow>
     (data = [] \<or> last data = newline) \<and>
     list_all (\<lambda>l. case l of Some j \<Rightarrow> is_event j | None \<Rightarrow> False) (read_log data)"

lemma split_on_at:
  "split_on c (d @ c # t) = butlast (split_on c (d @ [c])) @ split_on c t \<and> butlast (split_on c (d @ [c])) \<noteq> []"
proof (induction d)
  case (Cons x d)
  obtain y ys where "split_on c (d @ [c]) = y # ys" "ys \<noteq> []"
    using Cons by (cases "split_on c (d @ [c])") (auto split: if_splits)
  then show ?case using Cons by simp
qed simp

lemma log_lines_append:
  assumes "data = [] \<or> last data = newline" and "newline \<notin> set l"
  shows "log_lines_of (data @ l @ [newline]) = log_lines_of data @ [l]"
proof (cases data rule: rev_cases)
  case Nil
  then show ?thesis using assms(2) by (simp add: log_lines_of_def split_on_append)
next
  case (snoc d c)
  then have "data = d @ [newline]" using assms(1) by simp
  then show ?thesis using split_on_at [of newline d "l @ [newline]"] assms(2)
    by (simp add: log_lines_of_def split_on_append butlast_append)
qed

lemma event_plain: "plain_json (event_json nil t e)"
  by (auto simp: event_json_def slice_json_def ref_json_def list_all_iff)

lemma to_utf8_ascii: "list_all (\<lambda>c. of_char c < (0x80 :: nat)) s \<Longrightarrow> to_utf8 s = s"
  by (induction s) (simp_all add: to_utf8.simps(2))

lemma event_typed: "is_event (utf8_json (event_json nil t e))"
  by (simp add: is_event_def has_fields_def event_json_def to_utf8_ascii is_slice_def slice_json_def ref_json_def
      list_all_iff)

lemma read_event_line:
  fixes e :: audit_event and t :: string and nil :: "string \<Rightarrow> bool"
  assumes "log_typed data"
  defines "l \<equiv> json_text (event_json nil t e)"
  shows "log_typed (data @ l @ [newline])"
    and "read_log (data @ l @ [newline]) = read_log data @ [Some (utf8_json (event_json nil t e))]"
proof -
  have "newline \<notin> set l" unfolding l_def by (rule text_no_newline(1) [OF event_plain])
  then have "log_lines_of (data @ l @ [newline]) = log_lines_of data @ [l]"
    using assms(1) by (intro log_lines_append) (simp add: log_typed_def)
  moreover have "read_line l = Some (utf8_json (event_json nil t e))"
    using read_text(1) [OF event_plain order.refl, of nil t e "[]"] by (simp add: read_line_def l_def)
  ultimately show r: "read_log (data @ l @ [newline]) = read_log data @ [Some (utf8_json (event_json nil t e))]"
    by (simp add: read_log_def)
  show "log_typed (data @ l @ [newline])" using assms(1) unfolding log_typed_def r by (simp add: event_typed)
qed

section \<open>The sink\<close>

text \<open>A write that puts the whole line into the file or none of it.\<close>

definition whole_write :: "write_end \<Rightarrow> bool" where
  "whole_write w = (case w of WroteAll \<Rightarrow> True | WroteFirst n e \<Rightarrow> n = 0)"

text \<open>What the calls that returned no error put on record.\<close>

definition recorded :: "(string \<Rightarrow> bool) \<Rightarrow> sink_call list \<Rightarrow> go_error option list \<Rightarrow> json list" where
  "recorded nil cs errs =
     map (\<lambda>(c, err). utf8_json (event_json nil (projr (call_time c)) (ca_event c)))
       (filter (\<lambda>(c, err). err = None) (zip cs errs))"

lemma sink_run_prefix: "\<exists>added. sk_data (fst (sink_run nil cs s)) = sk_data s @ added"
proof (induction cs arbitrary: s)
  case (Cons c cs)
  obtain s1 e where c: "sink_record nil c s = (s1, e)" by fastforce
  then have "\<exists>a. sk_data s1 = sk_data s @ a"
    by (auto simp: sink_record_def file_write_def Let_def split: sum.splits if_splits write_end.splits prod.splits option.splits)
  then show ?case using Cons [of s1] c by (auto simp: split_def Let_def)
qed simp

lemma sink_record_typed:
  assumes "log_typed (sk_data s)" and "whole_write (ca_end c)" and "sink_record nil c s = (s1, e)"
  shows "log_typed (sk_data s1) \<and>
    read_log (sk_data s1) = read_log (sk_data s) @ map Some (recorded nil [c] [e])"
proof (cases e)
  case None
  then obtain t where "call_time c = Inr t" "sk_data s1 = sk_data s @ json_text (event_json nil t (ca_event c)) @ [newline]"
    using assms(3)
    by (auto simp: sink_record_def file_write_def Let_def split: sum.splits if_splits write_end.splits prod.splits option.splits)
  then show ?thesis using read_event_line [OF assms(1)] None by (simp add: recorded_def)
next
  case (Some err)
  then have "sk_data s1 = sk_data s"
    using assms(2,3)
    by (auto simp: sink_record_def file_write_def Let_def whole_write_def
        split: sum.splits if_splits write_end.splits prod.splits option.splits)
  then show ?thesis using assms(1) Some by (simp add: recorded_def)
qed

lemma sink_run_typed:
  assumes "log_typed (sk_data s)" and "list_all (whole_write \<circ> ca_end) calls"
    and "sink_run nil calls s = (s', errs)"
  shows "log_typed (sk_data s') \<and>
    read_log (sk_data s') = read_log (sk_data s) @ map Some (recorded nil calls errs) \<and>
    length errs = length calls"
  using assms
proof (induction calls arbitrary: s errs)
  case Nil
  then show ?case by (simp add: recorded_def)
next
  case (Cons c cs)
  obtain s1 e where c: "sink_record nil c s = (s1, e)" by fastforce
  obtain es where r: "sink_run nil cs s1 = (s', es)" "errs = e # es"
    using Cons(4) c by (auto simp: Let_def split: prod.splits)
  have one: "log_typed (sk_data s1)" "read_log (sk_data s1) = read_log (sk_data s) @ map Some (recorded nil [c] [e])"
    using sink_record_typed [OF Cons(2) _ c] Cons(3) by simp_all
  have "recorded nil (c # cs) (e # es) = recorded nil [c] [e] @ recorded nil cs es" by (simp add: recorded_def)
  then show ?case using Cons(1) [OF one(1) _ r(1)] Cons(3) one(2) r(2) by simp
qed

text \<open>
  On an open file whose writes succeed, every event that has a time stamp is on record, in the order
  of the calls.
\<close>

lemma every_event_on_file:
  assumes "log_typed (sk_data s)" and "sk_open s"
    and "\<forall>c \<in> set calls. ca_end c = WroteAll \<and> (\<exists>t. call_time c = Inr t)"
    and "sink_run nil calls s = (s', errs)"
  shows "read_log (sk_data s') = read_log (sk_data s) @
    map (\<lambda>c. Some (utf8_json (event_json nil (projr (call_time c)) (ca_event c)))) calls"
proof -
  have errs: "errs = replicate (length calls) None"
    using assms(2-4)
  proof (induction calls arbitrary: s errs)
    case (Cons c cs)
    obtain s1 e where c: "sink_record nil c s = (s1, e)" by fastforce
    then have "e = None" "sk_open s1"
      using Cons(2,3) by (auto simp: sink_record_def file_write_def Let_def)
    then show ?case using Cons(1) [of s1] Cons(3,4) c by (auto simp: Let_def split: prod.splits)
  qed simp
  have "recorded nil cs (replicate (length cs) None) =
      map (\<lambda>c. utf8_json (event_json nil (projr (call_time c)) (ca_event c))) cs" for cs
    by (induction cs) (simp_all add: recorded_def)
  moreover have "list_all (whole_write \<circ> ca_end) calls"
    using assms(3) by (auto simp: list_all_iff whole_write_def)
  ultimately show ?thesis using sink_run_typed [OF assms(1) _ assms(4)] errs by simp
qed

text \<open>C36: the audit file is a well-typed log. As long as no write stops inside a line, calls of Record
  keep it a sequence of complete lines, each the JSON object of an audit event; they append exactly
  one line for each call that returned no error, in their order, which reads back as that event
  (strings coerced to UTF-8), after what the file already had.\<close>

theorem audit_log_typed:
  assumes "log_typed (sk_data s)" and "list_all (whole_write \<circ> ca_end) calls"
    and "sink_run nil calls s = (s', errs)"
  shows "log_typed (sk_data s') \<and>
    read_log (sk_data s') = read_log (sk_data s) @ map Some (recorded nil calls errs) \<and>
    length errs = length calls"
  by (rule sink_run_typed [OF assms])

definition demo_event :: audit_event where
  "demo_event =
     \<lparr>ae_transport = ''ssh'', ae_agent = ''bot'', ae_repo = ''r'', ae_service = ''git-receive-pack'', ae_verdict = ''deny'',
      ae_reasons = [''line 1'' @ [newline] @ ''line <2>'', [char_of (0xFF::nat)]],
      ae_refs = [\<lparr>ar_ref = ''refs/heads/main'', ar_old = ''1'', ar_new = ''2'', ar_force = False\<rparr>],
      ae_denied_paths = [], ae_denied_oids = [], ae_dry_run = False\<rparr>"

definition demo_record :: "write_end \<Rightarrow> sink_call" where
  "demo_record w = \<lparr>ca_event = demo_event, ca_time = None, ca_now = Inr ''2026-01-01T00:00:00Z'', ca_end = w\<rparr>"

definition demo_sink :: sink where
  "demo_sink = \<lparr>sk_path = ''audit.log'', sk_data = [], sk_open = True\<rparr>"

theorem audit_log_typed_witness:
  "log_typed (sk_data (fst (sink_run (\<lambda>_. False) [demo_record WroteAll, demo_record (WroteFirst 0 ''full''), demo_record WroteAll] demo_sink))) \<and>
   length (read_log (sk_data (fst (sink_run (\<lambda>_. False) [demo_record WroteAll, demo_record (WroteFirst 0 ''full''), demo_record WroteAll] demo_sink)))) = 2"
proof -
  let ?cs = "[demo_record WroteAll, demo_record (WroteFirst 0 ''full''), demo_record WroteAll]"
  obtain s' errs where r: "sink_run (\<lambda>_. False) ?cs demo_sink = (s', errs)" by fastforce
  then have "errs = [None, Some ''audit: write: full'', None]"
    by (auto simp: sink_record_def file_write_def demo_record_def demo_sink_def call_time_def Let_def)
  moreover have "log_typed (sk_data demo_sink)" "list_all (whole_write \<circ> ca_end) ?cs" "read_log (sk_data demo_sink) = []"
    by (simp_all add: log_typed_def read_log_def log_lines_of_def demo_sink_def demo_record_def whole_write_def)
  ultimately show ?thesis using audit_log_typed [OF _ _ r] r by (simp add: recorded_def)
qed

text \<open>
  After a write that stops inside a line, the next event shares the line with the torn one: the call
  returned no error, and yet its event does not read back.
\<close>

lemma torn_line_spoils_next:
  "sink_run (\<lambda>_. False) [demo_record (WroteFirst 5 ''full''), demo_record WroteAll] demo_sink = (s', errs) \<Longrightarrow>
   errs = [Some ''audit: write: full'', None] \<and> read_log (sk_data s') = [None]"
proof -
  assume "sink_run (\<lambda>_. False) [demo_record (WroteFirst 5 ''full''), demo_record WroteAll] demo_sink = (s', errs)"
  moreover have "case sink_run (\<lambda>_. False) [demo_record (WroteFirst 5 ''full''), demo_record WroteAll] demo_sink of
      (s', errs) \<Rightarrow> errs = [Some ''audit: write: full'', None] \<and> read_log (sk_data s') = [None]"
    by code_simp
  ultimately show ?thesis by simp
qed

end
