(* ===== verification/OpenerCache.thy ===== *)
theory OpenerCache
  imports Prelude
begin

text \<open>
  The mirror opener under concurrent requests (\<open>newMirrorOpener\<close> of \<open>cmd/git-proxy/main.go\<close>): the lock
  is held for the lookup and for the store, and not for \<open>gitx.Open\<close> between them, so the requests of a
  repository interleave at three points. A mirror object is a number; its mutex serializes the git
  commands of one repository only as long as all its requests work on the same object.
\<close>

section \<open>Steps\<close>

datatype opener_pc = Asking | Opening | OpenFailed go_error | Opened nat | Got nat

record opener =
  oc_cache :: "string \<rightharpoonup> nat"
  oc_made :: "nat \<rightharpoonup> string"
  oc_next :: nat
  oc_pc :: "nat \<Rightarrow> opener_pc"

definition opener_start :: opener where
  "opener_start = \<lparr>oc_cache = Map.empty, oc_made = Map.empty, oc_next = 0, oc_pc = (\<lambda>_. Asking)\<rparr>"

definition at_pc :: "nat \<Rightarrow> opener_pc \<Rightarrow> opener \<Rightarrow> opener" where
  "at_pc t p s = s\<lparr>oc_pc := (oc_pc s)(t := p)\<rparr>"

text \<open>Request \<open>t\<close> asks for the repository \<open>repo t\<close>; \<open>oc_made\<close> records for which repository an object was opened.\<close>

inductive opener_step :: "(nat \<Rightarrow> string) \<Rightarrow> opener \<Rightarrow> opener \<Rightarrow> bool" for repo where
  hit: "oc_pc s t = Asking \<Longrightarrow> oc_cache s (repo t) = Some m \<Longrightarrow> opener_step repo s (at_pc t (Got m) s)"
| miss: "oc_pc s t = Asking \<Longrightarrow> oc_cache s (repo t) = None \<Longrightarrow> opener_step repo s (at_pc t Opening s)"
| open_fails: "oc_pc s t = Opening \<Longrightarrow> opener_step repo s (at_pc t (OpenFailed e) s)"
| open_ends: "oc_pc s t = Opening \<Longrightarrow>
    opener_step repo s
      (at_pc t (Opened (oc_next s)) (s\<lparr>oc_made := (oc_made s)(oc_next s \<mapsto> repo t), oc_next := Suc (oc_next s)\<rparr>))"
| store: "oc_pc s t = Opened m \<Longrightarrow>
    opener_step repo s (at_pc t (Got m) (s\<lparr>oc_cache := (oc_cache s)(repo t \<mapsto> m)\<rparr>))"

inductive_cases opener_stepE: "opener_step repo s s'"

text \<open>No request of the repository is between its lookup and its store.\<close>

definition settled :: "(nat \<Rightarrow> string) \<Rightarrow> string \<Rightarrow> opener \<Rightarrow> bool" where
  "settled repo r s \<longleftrightarrow> \<not> (\<exists>t. repo t = r \<and> (oc_pc s t = Opening \<or> (\<exists>m. oc_pc s t = Opened m)))"

section \<open>Invariants\<close>

definition opener_inv :: "(nat \<Rightarrow> string) \<Rightarrow> opener \<Rightarrow> bool" where
  "opener_inv repo s \<longleftrightarrow>
     (\<forall>r m. oc_cache s r = Some m \<longrightarrow> oc_made s m = Some r) \<and>
     (\<forall>t m. oc_pc s t = Opened m \<longrightarrow> oc_made s m = Some (repo t)) \<and>
     (\<forall>t m. oc_pc s t = Got m \<longrightarrow> oc_made s m = Some (repo t) \<and> oc_cache s (repo t) \<noteq> None) \<and>
     (\<forall>m. oc_next s \<le> m \<longrightarrow> oc_made s m = None)"

lemma opener_invI:
  assumes "\<And>r m. oc_cache s r = Some m \<Longrightarrow> oc_made s m = Some r"
    and "\<And>t m. oc_pc s t = Opened m \<Longrightarrow> oc_made s m = Some (repo t)"
    and "\<And>t m. oc_pc s t = Got m \<Longrightarrow> oc_made s m = Some (repo t)"
    and "\<And>t m. oc_pc s t = Got m \<Longrightarrow> oc_cache s (repo t) \<noteq> None"
    and "\<And>m. oc_next s \<le> m \<Longrightarrow> oc_made s m = None"
  shows "opener_inv repo s"
  using assms unfolding opener_inv_def by blast

lemma opener_invD:
  assumes "opener_inv repo s"
  shows "oc_cache s r = Some m \<Longrightarrow> oc_made s m = Some r"
    and "oc_pc s t = Opened m \<Longrightarrow> oc_made s m = Some (repo t)"
    and "oc_pc s t = Got m \<Longrightarrow> oc_made s m = Some (repo t)"
    and "oc_pc s t = Got m \<Longrightarrow> oc_cache s (repo t) \<noteq> None"
    and "oc_next s \<le> m \<Longrightarrow> oc_made s m = None"
  using assms unfolding opener_inv_def by blast+

lemma opener_inv_start: "opener_inv repo opener_start"
  by (simp add: opener_inv_def opener_start_def)

lemma opener_inv_step: "opener_step repo s s' \<Longrightarrow> opener_inv repo s \<Longrightarrow> opener_inv repo s'"
proof (induction rule: opener_step.induct)
  case (open_ends s t)
  note D = opener_invD [OF open_ends(2)]
  have old: "m \<noteq> oc_next s" if "oc_made s m = Some r" for m r using D(5) [of m] that by auto
  show ?case
    by (rule opener_invI) (auto simp: at_pc_def D(5) dest: D(1-4) old split: if_splits)
next
  case (store s t m)
  note D = opener_invD [OF store(2)]
  show ?case
    by (rule opener_invI) (use D(2) [OF store(1)] in \<open>auto simp: at_pc_def D(5) dest: D(1-4) split: if_splits\<close>)
qed (rule opener_invI; auto simp: at_pc_def dest: opener_invD split: if_splits)+

lemma opener_inv_reachable: "(opener_step repo)\<^sup>*\<^sup>* opener_start s \<Longrightarrow> opener_inv repo s"
  by (induction rule: rtranclp_induct) (auto intro: opener_inv_start opener_inv_step)

text \<open>A repository once cached stays cached, and a request that then still asks never opens.\<close>

lemma cached_step: "opener_step repo s s' \<Longrightarrow> oc_cache s r \<noteq> None \<Longrightarrow> oc_cache s' r \<noteq> None"
  by (erule opener_stepE) (auto simp: at_pc_def)

definition asks_or_got :: "nat \<Rightarrow> opener \<Rightarrow> bool" where
  "asks_or_got t s \<longleftrightarrow> oc_pc s t = Asking \<or> (\<exists>m. oc_pc s t = Got m)"

lemma cached_request_step:
  "opener_step repo s s' \<Longrightarrow> oc_cache s (repo t) \<noteq> None \<Longrightarrow> asks_or_got t s \<Longrightarrow> asks_or_got t s'"
  by (erule opener_stepE) (auto simp: at_pc_def asks_or_got_def)

lemma cached_request:
  "(opener_step repo)\<^sup>*\<^sup>* s s' \<Longrightarrow> oc_cache s (repo t) \<noteq> None \<Longrightarrow> asks_or_got t s \<Longrightarrow>
   oc_cache s' (repo t) \<noteq> None \<and> asks_or_got t s'"
proof (induction rule: rtranclp_induct)
  case (step y z)
  then show ?case using cached_step [OF step(2)] cached_request_step [OF step(2)] by simp
qed simp

text \<open>Once no request of a cached repository is opening, its object never changes again.\<close>

lemma settled_step:
  "opener_step repo s s' \<Longrightarrow> settled repo r s \<Longrightarrow> oc_cache s r = Some m \<Longrightarrow>
   settled repo r s' \<and> oc_cache s' r = Some m"
  by (erule opener_stepE) (auto simp: at_pc_def settled_def split: if_splits)

lemma settled_run:
  "(opener_step repo)\<^sup>*\<^sup>* s s' \<Longrightarrow> settled repo r s \<Longrightarrow> oc_cache s r = Some m \<Longrightarrow>
   settled repo r s' \<and> oc_cache s' r = Some m"
  by (induction rule: rtranclp_induct) (auto dest: settled_step)

lemma settled_got_step:
  "opener_step repo s s' \<Longrightarrow> settled repo (repo t) s \<Longrightarrow> oc_cache s (repo t) = Some m \<Longrightarrow>
   oc_pc s t \<in> {Asking, Got m} \<Longrightarrow> oc_pc s' t \<in> {Asking, Got m}"
  by (erule opener_stepE) (auto simp: at_pc_def)

lemma settled_got:
  "(opener_step repo)\<^sup>*\<^sup>* s s' \<Longrightarrow> settled repo (repo t) s \<Longrightarrow> oc_cache s (repo t) = Some m \<Longrightarrow>
   oc_pc s t = Asking \<Longrightarrow> oc_pc s' t \<in> {Asking, Got m}"
proof (induction rule: rtranclp_induct)
  case (step y z)
  then show ?case using settled_run [OF step(1,4,5)] settled_got_step [OF step(2)] by simp
qed simp

section \<open>Properties\<close>

lemma opener_progress:
  "\<not> (\<exists>m. oc_pc s t = Got m) \<Longrightarrow> \<not> (\<exists>e. oc_pc s t = OpenFailed e) \<Longrightarrow>
   \<exists>s2. opener_step repo s s2 \<and> oc_pc s2 t \<noteq> oc_pc s t"
proof (cases "oc_pc s t")
  case Asking
  show ?thesis
  proof (cases "oc_cache s (repo t)")
    case None
    then show ?thesis using opener_step.miss [OF Asking] Asking
      by (intro exI [of _ "at_pc t Opening s"]) (simp add: at_pc_def)
  next
    case (Some m)
    then show ?thesis using opener_step.hit [OF Asking] Asking
      by (intro exI [of _ "at_pc t (Got m) s"]) (simp add: at_pc_def)
  qed
next
  case Opening
  then show ?thesis using opener_step.open_fails [OF Opening, of repo "[]"]
    by (intro exI [of _ "at_pc t (OpenFailed []) s"]) (simp add: at_pc_def)
next
  case (Opened m)
  then show ?thesis using opener_step.store [OF Opened, of repo] by (intro exI conjI) (auto simp: at_pc_def)
qed auto

text \<open>C33: the mirror opener under every interleaving of concurrent requests. A request only ever gets a
  mirror that was opened for its own repository, and then the repository is cached; a request that
  asks once its repository is cached never opens it again; once no other request is opening it, all
  requests from then on get the same cached object; and no request can get stuck.\<close>

theorem opener_under_concurrency:
  assumes "(opener_step repo)\<^sup>*\<^sup>* opener_start s" and "(opener_step repo)\<^sup>*\<^sup>* s s'"
  shows "(oc_pc s t = Got m \<longrightarrow> oc_made s m = Some (repo t) \<and> oc_cache s (repo t) \<noteq> None) \<and>
    (oc_cache s (repo t) \<noteq> None \<and> oc_pc s t = Asking \<longrightarrow>
       oc_pc s' t = Asking \<or> (\<exists>n. oc_pc s' t = Got n \<and> oc_made s' n = Some (repo t))) \<and>
    (oc_cache s (repo t) = Some m \<and> settled repo (repo t) s \<and> oc_pc s t = Asking \<longrightarrow>
       oc_cache s' (repo t) = Some m \<and> oc_pc s' t \<in> {Asking, Got m}) \<and>
    ((\<exists>n. oc_pc s t = Got n) \<or> (\<exists>e. oc_pc s t = OpenFailed e) \<or>
       (\<exists>s2. opener_step repo s s2 \<and> oc_pc s2 t \<noteq> oc_pc s t))"
proof (intro conjI)
  note inv = opener_inv_reachable [OF assms(1)]
    and inv' = opener_inv_reachable [OF rtranclp_trans [OF assms]]
  show "oc_pc s t = Got m \<longrightarrow> oc_made s m = Some (repo t) \<and> oc_cache s (repo t) \<noteq> None"
    using opener_invD(3,4) [OF inv] by blast
  show "oc_cache s (repo t) \<noteq> None \<and> oc_pc s t = Asking \<longrightarrow>
      oc_pc s' t = Asking \<or> (\<exists>n. oc_pc s' t = Got n \<and> oc_made s' n = Some (repo t))"
    using cached_request [OF assms(2)] opener_invD(3) [OF inv'] unfolding asks_or_got_def by blast
  show "oc_cache s (repo t) = Some m \<and> settled repo (repo t) s \<and> oc_pc s t = Asking \<longrightarrow>
      oc_cache s' (repo t) = Some m \<and> oc_pc s' t \<in> {Asking, Got m}"
    using settled_run [OF assms(2)] settled_got [OF assms(2)] by blast
  show "(\<exists>n. oc_pc s t = Got n) \<or> (\<exists>e. oc_pc s t = OpenFailed e) \<or>
      (\<exists>s2. opener_step repo s s2 \<and> oc_pc s2 t \<noteq> oc_pc s t)"
    using opener_progress [of s t repo] by blast
qed

text \<open>A schedule of two requests for one repository, one after the other or both at once.\<close>

definition two_requests :: "nat \<Rightarrow> string" where
  "two_requests t = ''r''"

definition after_first :: opener where
  "after_first = at_pc 0 (Got 0) \<lparr>oc_cache = [''r'' \<mapsto> 0], oc_made = [0 \<mapsto> ''r''], oc_next = 1, oc_pc = (\<lambda>_. Asking)\<rparr>"

lemma star_snoc: "r\<^sup>*\<^sup>* a b \<Longrightarrow> r b c \<Longrightarrow> r\<^sup>*\<^sup>* a c"
  by (rule rtranclp.rtrancl_into_rtrancl)

lemma first_request: "(opener_step two_requests)\<^sup>*\<^sup>* opener_start after_first"
proof -
  define s1 where "s1 = at_pc 0 Opening opener_start"
  define s2 where "s2 = at_pc 0 (Opened (oc_next s1))
    (s1\<lparr>oc_made := (oc_made s1)(oc_next s1 \<mapsto> two_requests 0), oc_next := Suc (oc_next s1)\<rparr>)"
  define s3 where "s3 = at_pc 0 (Got 0) (s2\<lparr>oc_cache := (oc_cache s2)(two_requests 0 \<mapsto> 0)\<rparr>)"
  note defs = opener_start_def s1_def s2_def s3_def at_pc_def
  have "(opener_step two_requests)\<^sup>*\<^sup>* opener_start opener_start" ..
  moreover have "opener_step two_requests opener_start s1" unfolding s1_def
    by (rule opener_step.miss) (simp_all add: opener_start_def)
  moreover have "opener_step two_requests s1 s2" unfolding s2_def by (rule opener_step.open_ends) (simp add: defs)
  moreover have "opener_step two_requests s2 s3" unfolding s3_def by (rule opener_step.store) (simp add: defs)
  moreover have "s3 = after_first" by (simp add: defs after_first_def two_requests_def)
  ultimately show ?thesis by (blast intro: star_snoc)
qed

theorem opener_under_concurrency_witness:
  "\<exists>s'. (opener_step two_requests)\<^sup>*\<^sup>* after_first s' \<and> oc_pc s' 1 = Got 0 \<and>
     oc_cache s' ''r'' = Some 0 \<and> oc_made s' 0 = Some ''r''"
proof -
  let ?s = "at_pc 1 (Got 0) after_first"
  have "opener_step two_requests after_first ?s"
    by (rule opener_step.hit) (simp_all add: after_first_def at_pc_def two_requests_def)
  then have run: "(opener_step two_requests)\<^sup>*\<^sup>* after_first ?s" by (rule r_into_rtranclp)
  have "settled two_requests ''r'' after_first"
    by (simp add: settled_def after_first_def at_pc_def two_requests_def)
  moreover have "oc_cache after_first ''r'' = Some 0" "oc_pc after_first 1 = Asking" "two_requests 1 = ''r''"
    by (simp_all add: after_first_def at_pc_def two_requests_def)
  moreover have "oc_pc ?s 1 = Got 0" "oc_made ?s 0 = Some ''r''"
    by (simp_all add: after_first_def at_pc_def)
  ultimately show ?thesis
    using opener_under_concurrency [OF first_request run, of 1 0] run by auto
qed

text \<open>
  Two first requests of a repository at once get two objects, and so two mutexes, for one directory:
  the git commands of the two are then not serialized.
\<close>

lemma two_mirrors_of_one_repository:
  "\<exists>s. (opener_step two_requests)\<^sup>*\<^sup>* opener_start s \<and> oc_pc s 0 = Got 0 \<and> oc_pc s 1 = Got 1"
proof -
  let ?made = "\<lambda>t s. at_pc t (Opened (oc_next s)) (s\<lparr>oc_made := (oc_made s)(oc_next s \<mapsto> two_requests t), oc_next := Suc (oc_next s)\<rparr>)"
  let ?kept = "\<lambda>t m s. at_pc t (Got m) (s\<lparr>oc_cache := (oc_cache s)(two_requests t \<mapsto> m)\<rparr>)"
  define s1 where "s1 = at_pc 0 Opening opener_start"
  define s2 where "s2 = at_pc 1 Opening s1"
  define s3 where "s3 = ?made 0 s2"
  define s4 where "s4 = ?made 1 s3"
  define s5 where "s5 = ?kept 0 0 s4"
  define s6 where "s6 = ?kept 1 1 s5"
  note defs = opener_start_def s1_def s2_def s3_def s4_def s5_def s6_def at_pc_def
  have a1: "opener_step two_requests opener_start s1" unfolding s1_def
    by (rule opener_step.miss) (simp_all add: opener_start_def)
  have a2: "opener_step two_requests s1 s2" unfolding s2_def by (rule opener_step.miss) (simp_all add: defs)
  have a3: "opener_step two_requests s2 s3" unfolding s3_def by (rule opener_step.open_ends) (simp add: defs)
  have a4: "opener_step two_requests s3 s4" unfolding s4_def by (rule opener_step.open_ends) (simp add: defs)
  have a5: "opener_step two_requests s4 s5" unfolding s5_def by (rule opener_step.store) (simp add: defs)
  have a6: "opener_step two_requests s5 s6" unfolding s6_def by (rule opener_step.store) (simp add: defs)
  note go = star_snoc [where r = "opener_step two_requests"]
  have "oc_pc s6 0 = Got 0" "oc_pc s6 1 = Got 1" by (simp_all add: defs)
  moreover note go [OF go [OF go [OF go [OF go [OF go [OF rtranclp.rtrancl_refl a1] a2] a3] a4] a5] a6]
  ultimately show ?thesis by blast
qed

end
