(* ===== verification/Spec2Isabelle.thy ===== *)
theory Spec2Isabelle
  imports RuleProps WireProps FrontProps BrokerProps GithubProps StartupProps PreflightProps Serving AuditProps OpenerCache
begin

text \<open>
  git-proxy is a gateway between coding agents and git servers. It authenticates an agent over HTTP or
  SSH, decides whether the agent may read or write a repository, inspects what a push carries against
  the rules of its configuration before a byte of it goes upstream, and assembles the packfile of a
  read-protected fetch itself, without the blobs at denied paths. A broker gives the same agents a
  narrow API to pull requests, checks and issues on GitHub. This library models the whole of the Go
  program under src/internal and src/cmd and proves what makes it correct.

  \<^bold>\<open>How a request runs through the model.\<close> \<open>Startup.startup\<close> (\<open>run\<close> in cmd/git-proxy/main.go) builds from a
  validated configuration a \<open>system\<close>: the HTTP frontend, the SSH frontend and the broker. A git request
  enters at \<open>HttpFront.handle\<close> or \<open>SshFront.handle_session\<close> (inside \<open>Serving.handle_conn\<close>), which
  authenticate (\<open>Access\<close>), find the repository (\<open>Repomatch\<close>), ask \<open>Access.decide\<close> and run
  \<open>PushProxy.receive_pack\<close> or \<open>FetchProxy.upload_pack\<close>. These parse the request (\<open>Wire\<close>, \<open>PktLine\<close>), run
  \<open>PushEnforce.enforce_receive_pack\<close> or \<open>FetchEnforce.serve_enforced\<close> on the inspection mirror (\<open>Gitx\<close>),
  ask the engine (\<open>Engine\<close> with the rules of \<open>Rules\<close>), and forward, answer and record. A broker request
  enters at \<open>Broker.broker_serve\<close> and reaches GitHub through \<open>Github.github_call\<close>.

  \<^bold>\<open>State.\<close> Operations are functions on explicit states: \<open>world\<close> (the mirror, the stream to the agent, what
  was sent upstream, audit events, alerts), \<open>exchange\<close> and \<open>session\<close> (an HTTP exchange and an SSH session
  around a world), \<open>mirror\<close> (directory, URL, disk, and a ghost log of the git argument vectors), \<open>scanner\<close>
  (pkt-line reader), \<open>broker_run\<close>, runs of the REST client (a function of the requests made so far),
  \<open>pool\<close> (the probing goroutines of the diagnostic), \<open>sink\<close> (the audit file). Every error return of the
  Go code is \<open>Inl\<close> or \<open>Some\<close> of its text. Strings are byte lists.

  \<^bold>\<open>Theories, in the order they build on each other.\<close>
  \<^item> \<open>Prelude\<close>: Go strings, decimal numbers, quoting, deduplication, their laws; \<open>GoPath\<close>: UTF-8 and
    \<open>path.Match\<close>; \<open>Port\<close>: the data of internal/port.
  \<^item> Policy: \<open>Engine\<close> (internal/policy/engine.go), \<open>Pathmatch\<close> (internal/pathmatch), \<open>Secret\<close>
    (internal/secret/regex), \<open>Rules\<close> (internal/policy/rules), with the properties in \<open>RuleProps\<close>. The
    engine refines the combination of rule outcomes; each of the five rules denies exactly the pushes its
    specification predicate describes (an interpretation of the locale \<open>push_rule\<close> per rule); the
    backtracking matcher decides the relation \<open>glob\<close> and returns; built-in secrets are found and masked.
  \<^item> Protocol: \<open>PktLine\<close>, \<open>Wire\<close> (internal/gitproto), laws in \<open>WireLaws\<close> and \<open>RequestLaws\<close>, properties in
    \<open>WireProps\<close>: parsers read back what emitters and clients write, and the SSH framing is exact and
    bounded.
  \<^item> Push: \<open>Gitx\<close> (internal/gitx), \<open>PushEnforce\<close>, \<open>PushProxy\<close>, properties in \<open>PushProps\<close>: what is sent
    upstream and when, replies, records, the git commands an inspection runs and where their arguments
    come from, reachability of packed objects.
  \<^item> Fetch: \<open>Shallow\<close>, \<open>FetchEnforce\<close>, \<open>FetchProxy\<close> (internal/gitproto/uploadpack_enforce.go, proxy.go), laws
    in \<open>FetchLaws\<close> and \<open>FetchRuns\<close>, properties in \<open>FetchProps\<close>: no denied blob in a packfile, the shallow
    boundary against its definition by walks, framing, failing closed, and that an event which says
    allow stands for a complete answer with nothing withheld.
  \<^item> Frontends: \<open>Repomatch\<close>, \<open>Access\<close> (internal/credentials, internal/auth, internal/access; locales
    \<open>credential_store\<close> and \<open>authenticator\<close> with their interpretations), \<open>Upstream\<close>, \<open>HttpFront\<close>, \<open>SshFront\<close>,
    \<open>Fronts\<close> (the locale \<open>git_leg\<close>, interpreted by both frontends), properties in \<open>FrontProps\<close>.
  \<^item> Broker and GitHub: \<open>Scm\<close>, \<open>Broker\<close>, \<open>Rest\<close>, \<open>RestLog\<close>, \<open>Github\<close>, laws in \<open>RestLaws\<close> and \<open>TailLaws\<close>,
    properties in \<open>BrokerProps\<close> and \<open>GithubProps\<close>: what a provider call needs, where tokens go, that calls
    return, the CI verdict, the tail of a job log.
  \<^item> \<open>Opening\<close> and \<open>OpenerCache\<close>: where the mirror of a repository lies and how it is opened, and the
    opener with its cache under concurrent requests (the step relation \<open>opener_step\<close>).
  \<^item> Startup: \<open>Config\<close>, \<open>Wiring\<close>, \<open>Startup\<close>, laws in \<open>StartupLaws\<close>, properties in \<open>StartupProps\<close>:
    the configuration is in force on every path, startup fails closed, and, end to end, every push that a
    started system forwards conforms to the rules of its configuration.
  \<^item> Around it: \<open>Preflight\<close>, \<open>Prober\<close> (the diagnostic; the worker pool is the step relation \<open>pool_step\<close>),
    properties in \<open>PreflightProps\<close>; \<open>Serving\<close> (SSH connections, the end of the transports, \<open>main\<close>);
    \<open>AuditFile\<close> with \<open>AuditProps\<close> (the audit file is a typed log that reads back).
\<close>

text \<open>
  \<^bold>\<open>Parameters.\<close> What is not in the repository is an argument: the git binary and the file system
  (\<open>env\<close>), go-git's pkt-line encoder and side-band muxer (\<open>gogit\<close>, with the documented behaviour as
  \<open>gogit_ok\<close>), the HTTP client (\<open>http_client\<close>, \<open>rest_net\<close>), golang.org/x/crypto/ssh, the YAML parser,
  regular expressions an operator configures, url.Parse, JSON decoding, SHA-256, the clock. The record
  \<open>machine\<close> collects those of the startup. Each hypothesis on one is met by a concrete instance in a
  witness (\<open>wire_gogit\<close>, \<open>demo_env\<close>, \<open>start_machine\<close>). Of git, the properties rely on \<open>log\<close> and \<open>ls-tree\<close>
  only reading (\<open>reads_only\<close>) and on \<open>diff-tree\<close> printing its documented raw format
  (\<open>prints_raw_diff\<close>). The redirects \<open>net/http\<close> follows by itself happen inside \<open>rn_do\<close> and are not in
  the log of requests; those of a job log, which the code follows, are.

  \<^bold>\<open>Bounds and termination.\<close> Recursion is structural or has a measure, with two exceptions that are
  \<open>partial_function\<close>: \<open>Pathmatch.sm_loop\<close>, proved to return always, and \<open>RestLog.follow\<close>, the redirects of
  a job log, which returns when the chain of redirects ends (and does not otherwise: the code has no
  limit). Fuel appears where the code has a counter: \<open>max_pages\<close> (10 pages), \<open>max_log_lookup_runs\<close> (10
  runs); and in the JSON reader of \<open>AuditProps\<close>, where the length of the text is proved to be enough. Sizes
  are those of the code: 1 MiB for an upload-pack request and for a broker body, go-git's payload size
  for a pkt-line, the configured cap (256 MiB by default) for a packfile, 64 MiB for a job log. The cap is
  an unbounded integer in the model and an \<open>int64\<close> in the code, the same below \<open>2\<^sup>6\<^sup>3 - 1\<close>.

  \<^bold>\<open>Concurrency.\<close> A method of a mirror holds its mutex, so it is one step; a sink's mutex orders its
  calls; the map iterations of Go take the order as a list and the results are proved not to depend on
  it where the code relies on that. The worker pool of the diagnostic and the mirror opener are modelled
  with all their interleavings. The requests of a repository work on one mirror object, and so exclude
  each other, except those that were in the opener together when it was opened first
  (\<open>OpenerCache.two_mirrors_of_one_repository\<close>).

  \<^bold>\<open>Not modelled.\<close> Accept loops, TLS and SSH handshakes and the HTTP server (the library's), signals (a
  cancelled context), the mutexes of the registries (they are filled before the first request), time stamps and durations (a deadline is an
  arbitrary answer), the interleaving of the HTTP requests of concurrent probes (a probe's answer is
  arbitrary), what \<open>pack-objects\<close> reports when its output is not read to the end, the version string, interface declarations, and the test helpers of the rules.
\<close>

end
